(* ===== verification/Prelude.thy ===== *)
theory Prelude
  imports Complex_Main "HOL-Library.Multiset"
begin

text \<open>
  Shared ground of the development: the collections of rewrite rules the component
  theories fill, the machine integers of Go, a stable sort over an arbitrary comparison
  (what \<^verbatim>\<open>ORDER BY\<close> and \<^verbatim>\<open>sort.SliceStable\<close> compute), and the two locales that state what a
  comparison has to satisfy for that sort and for keyset paging to be meaningful.
\<close>

named_theorems store_defs \<open>statements of the data-access layer, unfolded\<close>
named_theorems walk_simps \<open>one step of the library walk\<close>
named_theorems queue_defs \<open>statements on the enrichment job table\<close>

type_synonym bytes = string
type_synonym time = int \<comment> \<open>nanoseconds since the Unix epoch, as Go's \<^verbatim>\<open>time.Time\<close>\<close>


section \<open>Go integers\<close>

text \<open>
  Go's \<^verbatim>\<open>int\<close> and \<^verbatim>\<open>int64\<close> on the supported platforms are 64-bit two's complement. They are kept as
  \<^typ>\<open>int\<close>; where the code's arithmetic can leave the range, the result passes through
  \<open>wrap64\<close>.
\<close>

definition wrap64 :: "int \<Rightarrow> int" where
  "wrap64 x = (x + 2 ^ 63) mod 2 ^ 64 - 2 ^ 63"

definition is_int64 :: "int \<Rightarrow> bool" where
  "is_int64 x \<longleftrightarrow> - (2 ^ 63) \<le> x \<and> x < 2 ^ 63"

lemma wrap64_id [simp]: "is_int64 x \<Longrightarrow> wrap64 x = x"
  by (simp add: wrap64_def is_int64_def)

lemma is_int64_wrap64 [simp]: "is_int64 (wrap64 x)"
proof -
  have "0 \<le> (x + 2 ^ 63) mod 2 ^ 64" and "(x + 2 ^ 63) mod 2 ^ 64 < (2 ^ 64 :: int)"
    by simp_all
  then show ?thesis by (simp add: wrap64_def is_int64_def)
qed


section \<open>Association lists and searches\<close>

lemma distinct_map_eqD:
  "distinct (map f xs) \<Longrightarrow> x \<in> set xs \<Longrightarrow> y \<in> set xs \<Longrightarrow> f x = f y \<Longrightarrow> x = y"
  by (auto simp: distinct_map inj_on_def)

lemma find_SomeD: "find P xs = Some x \<Longrightarrow> x \<in> set xs \<and> P x"
  by (auto simp: find_Some_iff)

lemma find_None [simp]: "find P xs = None \<longleftrightarrow> (\<forall>x\<in>set xs. \<not> P x)"
  by (auto simp: find_None_iff)

lemma find_None' [simp]: "None = find P xs \<longleftrightarrow> (\<forall>x\<in>set xs. \<not> P x)"
  by (metis find_None)

lemma list_ex_map_key:
  "(\<And>x. key (f x) = key x) \<Longrightarrow> list_ex (\<lambda>x. key x = k) (map f xs) \<longleftrightarrow> list_ex (\<lambda>x. key x = k) xs"
  by (induction xs) auto

lemma find_append:
  "find P (xs @ ys) = (case find P xs of None \<Rightarrow> find P ys | Some x \<Rightarrow> Some x)"
  by (induction xs) auto

lemma find_unique:
  assumes "distinct (map f xs)" and "x \<in> set xs"
  shows "find (\<lambda>y. f y = f x) xs = Some x"
  using assms by (induction xs) auto


section \<open>A stable sort over a comparison\<close>

fun insert_by :: "('a \<Rightarrow> 'a \<Rightarrow> bool) \<Rightarrow> 'a \<Rightarrow> 'a list \<Rightarrow> 'a list" where
  "insert_by lt x [] = [x]"
| "insert_by lt x (y # ys) = (if lt y x then y # insert_by lt x ys else x # y # ys)"

primrec sort_by :: "('a \<Rightarrow> 'a \<Rightarrow> bool) \<Rightarrow> 'a list \<Rightarrow> 'a list" where
  "sort_by lt [] = []"
| "sort_by lt (x # xs) = insert_by lt x (sort_by lt xs)"

lemma mset_insert_by [simp]: "mset (insert_by lt x xs) = add_mset x (mset xs)"
  by (induction xs) auto

lemma mset_sort_by [simp]: "mset (sort_by lt xs) = mset xs"
  by (induction xs) auto

lemma set_insert_by [simp]: "set (insert_by lt x xs) = insert x (set xs)"
  by (induction xs) auto

lemma set_sort_by [simp]: "set (sort_by lt xs) = set xs"
  by (induction xs) auto

lemma length_sort_by [simp]: "length (sort_by lt xs) = length xs"
  using mset_sort_by by (metis size_mset)

lemma distinct_map_sort_by [simp]:
  "distinct (map f (sort_by lt xs)) \<longleftrightarrow> distinct (map f xs)"
  by (metis mset_map mset_sort_by mset_eq_imp_distinct_iff)

lemma map_insert_by:
  "map f (insert_by (\<lambda>a b. lt (f a) (f b)) x xs) = insert_by lt (f x) (map f xs)"
  by (induction xs) auto

lemma map_sort_by: "map f (sort_by (\<lambda>a b. lt (f a) (f b)) xs) = sort_by lt (map f xs)"
  by (induction xs) (auto simp: map_insert_by)

text \<open>
  A comparison that distinguishes some values and leaves others tied: what a sort by one
  attribute of a record needs.
\<close>

locale weak_order =
  fixes lt :: "'k \<Rightarrow> 'k \<Rightarrow> bool"
  assumes asym: "lt x y \<Longrightarrow> \<not> lt y x"
    and neg_trans: "lt x z \<Longrightarrow> lt x y \<or> lt y z"
begin

lemma irrefl [simp]: "\<not> lt x x"
  using asym by blast

lemma trans: "lt x y \<Longrightarrow> lt y z \<Longrightarrow> lt x z"
  using asym neg_trans by blast

lemma le_trans: "\<not> lt y x \<Longrightarrow> \<not> lt z y \<Longrightarrow> \<not> lt z x"
  using neg_trans by blast

lemma sorted_insert_by:
  "sorted_wrt (\<lambda>a b. \<not> lt b a) xs \<Longrightarrow> sorted_wrt (\<lambda>a b. \<not> lt b a) (insert_by lt x xs)"
  by (induction xs) (auto dest: asym le_trans)

lemma sorted_sort_by: "sorted_wrt (\<lambda>a b. \<not> lt b a) (sort_by lt xs)"
  by (induction xs) (auto intro: sorted_insert_by)

lemma insert_by_low:
  "(\<And>y. y \<in> set xs \<Longrightarrow> \<not> lt y x) \<Longrightarrow> insert_by lt x xs = x # xs"
  by (cases xs) auto

lemma filter_insert_by:
  "sorted_wrt (\<lambda>a b. \<not> lt b a) xs \<Longrightarrow>
     filter P (insert_by lt x xs) = (if P x then insert_by lt x (filter P xs) else filter P xs)"
proof (induction xs)
  case (Cons y ys)
  show ?case
  proof (cases "lt y x")
    case False
    with Cons.prems have "\<And>z. z \<in> set ys \<Longrightarrow> \<not> lt z x"
      by (auto dest: le_trans [of y x])
    then have "insert_by lt x (filter P ys) = x # filter P ys"
      by (intro insert_by_low) auto
    with False show ?thesis by auto
  qed (use Cons in auto)
qed auto

text \<open>A filter before the sort is a filter after it: the \<^verbatim>\<open>WHERE\<close> clause of a sorted query.\<close>

lemma filter_sort_by: "filter P (sort_by lt xs) = sort_by lt (filter P xs)"
  by (induction xs) (auto simp: filter_insert_by sorted_sort_by)

end

text \<open>A comparison with no ties between different values: the total order of a sort key.\<close>

locale key_order = weak_order +
  assumes tie_eq: "\<not> lt x y \<Longrightarrow> \<not> lt y x \<Longrightarrow> x = y"
begin

lemma sorted_unique:
  assumes "sorted_wrt (\<lambda>a b. \<not> lt b a) xs" and "sorted_wrt (\<lambda>a b. \<not> lt b a) ys"
    and "mset xs = mset ys"
  shows "xs = ys"
  using assms
proof (induction xs arbitrary: ys)
  case (Cons x xs)
  then obtain y ys' where ys: "ys = y # ys'"
    by (cases ys) auto
  from Cons.prems(3) have "x \<in> set ys" and "y \<in> set (x # xs)"
    by (metis list.set_intros(1) set_mset_mset)
      (metis Cons.prems(3) list.set_intros(1) set_mset_mset ys)
  then have "x = y"
    using Cons.prems(1,2) ys tie_eq by auto
  with Cons ys show ?case by simp
qed simp

lemma strictly_sorted:
  "distinct xs \<Longrightarrow> sorted_wrt (\<lambda>a b. \<not> lt b a) xs \<Longrightarrow> sorted_wrt lt xs"
  by (induction xs) (auto dest: tie_eq)

text \<open>In a strictly sorted list, the elements beyond one of them are those that follow it.\<close>

lemma filter_after:
  assumes "sorted_wrt lt (xs @ x # ys)"
  shows "filter (lt x) (xs @ x # ys) = ys"
proof -
  from assms have "\<And>z. z \<in> set xs \<Longrightarrow> \<not> lt x z" and "\<And>z. z \<in> set ys \<Longrightarrow> lt x z"
    by (auto simp: sorted_wrt_append dest: asym)
  then show ?thesis
    by (auto simp: filter_empty_conv)
qed

end

text \<open>A comparison of values through a key inherits the order of the keys.\<close>

lemma weak_order_key: "weak_order lt \<Longrightarrow> weak_order (\<lambda>a b. lt (f a) (f b))"
  by (auto simp: weak_order_def)

text \<open>The order of Postgres' \<^verbatim>\<open>ORDER BY c, id\<close>: the first component decides, the second breaks ties.\<close>

definition lex_lt :: "('a \<Rightarrow> 'a \<Rightarrow> bool) \<Rightarrow> ('b \<Rightarrow> 'b \<Rightarrow> bool) \<Rightarrow> 'a \<times> 'b \<Rightarrow> 'a \<times> 'b \<Rightarrow> bool" where
  "lex_lt lt1 lt2 p q \<longleftrightarrow> lt1 (fst p) (fst q) \<or> (fst p = fst q \<and> lt2 (snd p) (snd q))"

lemma key_order_lex:
  assumes one: "key_order lt1" and two: "key_order lt2"
  shows "key_order (lex_lt lt1 lt2)"
proof (unfold_locales, goal_cases)
  case (1 x y)
  then show ?case
    using key_order.axioms(1) [OF one, THEN weak_order.asym]
      key_order.axioms(1) [OF two, THEN weak_order.asym]
      key_order.axioms(1) [OF one, THEN weak_order.irrefl]
    by (auto simp: lex_lt_def)
next
  case (2 x z y)
  then show ?case
    using key_order.axioms(1) [OF one, THEN weak_order.neg_trans]
      key_order.axioms(1) [OF two, THEN weak_order.neg_trans]
      key_order.tie_eq [OF one]
    unfolding lex_lt_def by metis
next
  case (3 x y)
  then show ?case
    using key_order.tie_eq [OF one, of "fst x" "fst y"]
      key_order.tie_eq [OF two, of "snd x" "snd y"]
    by (auto simp: lex_lt_def prod_eq_iff)
qed

lemma key_order_converse:
  assumes "key_order lt"
  shows "key_order (\<lambda>x y. lt y x)"
proof (unfold_locales, goal_cases)
  case (1 x y)
  with assms show ?case
    by (meson key_order.axioms(1) weak_order.asym)
next
  case (2 x z y)
  then show ?case
    using weak_order.neg_trans [OF key_order.axioms(1) [OF assms]] by blast
next
  case (3 x y)
  with assms show ?case
    by (metis key_order.tie_eq)
qed

interpretation int_order: key_order "(<) :: int \<Rightarrow> int \<Rightarrow> bool"
  by unfold_locales auto


section \<open>Keyset paging\<close>

text \<open>
  A client reads a sorted list in pages: each request names the last row it has, the answer is
  the next \<open>n\<close> rows after it. \<open>page_walk\<close> is the client's loop: it stops at the first empty page.
  The fuel bounds the number of requests.
\<close>

definition page_after :: "('k \<Rightarrow> 'k \<Rightarrow> bool) \<Rightarrow> ('r \<Rightarrow> 'k) \<Rightarrow> nat \<Rightarrow> 'r list \<Rightarrow> 'k option \<Rightarrow> 'r list" where
  "page_after lt key n rows cur =
     take n (sort_by (\<lambda>a b. lt (key a) (key b))
       (filter (\<lambda>r. case cur of None \<Rightarrow> True | Some k \<Rightarrow> lt k (key r)) rows))"

fun page_walk :: "('c \<Rightarrow> 'r list) \<Rightarrow> ('r \<Rightarrow> 'c) \<Rightarrow> nat \<Rightarrow> 'c \<Rightarrow> 'r list list" where
  "page_walk fetch next 0 cur = []"
| "page_walk fetch next (Suc fuel) cur =
     (let page = fetch cur in
      if page = [] then [] else page # page_walk fetch next fuel (next (last page)))"

text \<open>Two clients whose cursors name the same rows read the same pages.\<close>

lemma page_walk_sim:
  assumes "\<And>r. r \<in> R \<Longrightarrow> f (nxt r) = g (nxt' r)" and "\<And>c. set (g c) \<subseteq> R" and "f c = g c'"
  shows "page_walk f nxt fuel c = page_walk g nxt' fuel c'"
  using assms(3)
proof (induction fuel arbitrary: c c')
  case (Suc fuel)
  have "f (nxt (last (g c'))) = g (nxt' (last (g c')))" if "g c' \<noteq> []"
    using assms(1) assms(2) [of c'] last_in_set [OF that] by blast
  with Suc show ?case by (auto simp: Let_def)
qed simp

lemma page_walk_map:
  "page_walk (\<lambda>c. map mk (g c)) nxt fuel c = map (map mk) (page_walk g (\<lambda>r. nxt (mk r)) fuel c)"
  by (induction fuel arbitrary: c) (auto simp: Let_def last_map)

lemma set_page_after: "set (page_after lt key n rows c) \<subseteq> set rows"
  by (auto simp: page_after_def dest: in_set_takeD)

context key_order
begin

lemma weak_order_by_key: "weak_order (\<lambda>a b. lt (key a) (key b))"
  by (rule weak_order_key) unfold_locales

lemma sorted_by_key:
  assumes "distinct (map key rows)"
  shows "sorted_wrt lt (map key (sort_by (\<lambda>a b. lt (key a) (key b)) rows))"
  proof (rule strictly_sorted)
  show "distinct (map key (sort_by (\<lambda>a b. lt (key a) (key b)) rows))"
    using assms by (simp only: distinct_map_sort_by)
qed (simp add: map_sort_by sorted_sort_by)

text \<open>The page after the last row of a page is what follows that row in the whole sorted list.\<close>

lemma page_after_split:
  assumes "distinct (map key rows)"
    and "sort_by (\<lambda>a b. lt (key a) (key b)) rows = pre @ r # suf"
  shows "page_after lt key n rows (Some (key r)) = take n suf"
proof -
  let ?S = "sort_by (\<lambda>a b. lt (key a) (key b)) rows"
  have sw: "sorted_wrt (\<lambda>a b. lt (key a) (key b)) (pre @ r # suf)"
    using sorted_by_key [OF assms(1)] by (simp only: assms(2) sorted_wrt_map)
  have "filter (\<lambda>x. lt (key r) (key x)) ?S = suf"
  proof -
    from sw have "\<And>z. z \<in> set pre \<Longrightarrow> \<not> lt (key r) (key z)"
      and "\<And>z. z \<in> set suf \<Longrightarrow> lt (key r) (key z)"
      by (auto simp: sorted_wrt_append dest: asym)
    then show ?thesis
      by (auto simp: assms(2) filter_empty_conv)
  qed
  then show ?thesis
    by (simp add: page_after_def weak_order.filter_sort_by [OF weak_order_by_key, symmetric])
qed

lemma page_walk_from:
  assumes "0 < n" and "distinct (map key rows)"
    and "sort_by (\<lambda>a b. lt (key a) (key b)) rows = pre @ suf"
    and "pre = [] \<longrightarrow> cur = None" and "pre \<noteq> [] \<longrightarrow> cur = Some (key (last pre))"
    and "length suf \<le> fuel"
  shows "concat (page_walk (page_after lt key n rows) (\<lambda>r. Some (key r)) fuel cur) = suf"
  using assms(3-)
proof (induction fuel arbitrary: pre suf cur)
  case (Suc fuel)
  have page: "page_after lt key n rows cur = take n suf"
  proof (cases pre rule: rev_cases)
    case Nil
    with Suc.prems show ?thesis by (simp add: page_after_def)
  next
    case (snoc pre' r)
    with Suc.prems show ?thesis
      using page_after_split [OF assms(2), of pre' r suf n] by simp
  qed
  show ?case
  proof (cases "suf = []")
    case False
    with assms(1) have ne: "take n suf \<noteq> []" by simp
    with Suc.prems False assms(1)
    have "concat (page_walk (page_after lt key n rows) (\<lambda>r. Some (key r)) fuel
        (Some (key (last (take n suf))))) = drop n suf"
      by (intro Suc.IH [of "pre @ take n suf"]) auto
    with page ne show ?thesis by (simp add: Let_def)
  qed (use page in \<open>simp add: Let_def\<close>)
qed simp

text \<open>
  Reading page by page from the start gives every row exactly once, in order: nothing is skipped
  or repeated at a page boundary. One request more than there are rows is enough.
\<close>

lemma page_walk_complete:
  assumes "0 < n" and "distinct (map key rows)" and "length rows \<le> fuel"
  shows "concat (page_walk (page_after lt key n rows) (\<lambda>r. Some (key r)) fuel None)
    = sort_by (\<lambda>a b. lt (key a) (key b)) rows"
  by (rule page_walk_from [where pre = "[]"]) (use assms in auto)

end

end
