(* ===== verification/Go_Strings.thy ===== *)
theory Go_Strings
  imports Prelude "HOL-Library.Sublist" "HOL-Library.Char_ord"
begin

text \<open>
  The parts of Go's standard library the program uses on strings. A Go string is a sequence of
  bytes, so it is a \<^typ>\<open>string\<close> (a character of HOL is a byte). Case mapping beyond ASCII needs the
  Unicode tables: \<^verbatim>\<open>strings.ToLower\<close> and \<^verbatim>\<open>strings.EqualFold\<close> take the ASCII path of the library as
  it is written and hand the rest to a table \<open>unicode\<close>, which every theorem quantifies over.
\<close>

record unicode =
  map_to_lower :: "string \<Rightarrow> string"       \<comment> \<open>\<^verbatim>\<open>strings.Map(unicode.ToLower, s)\<close>\<close>
  fold_equal :: "string \<Rightarrow> string \<Rightarrow> bool" \<comment> \<open>\<^verbatim>\<open>EqualFold\<close> from the first non-ASCII byte on\<close>

abbreviation byte_of :: "char \<Rightarrow> nat" where
  "byte_of c \<equiv> of_char c"

definition is_ascii :: "char \<Rightarrow> bool" where
  "is_ascii c \<longleftrightarrow> byte_of c < 128"


section \<open>Searching and cutting\<close>

definition HasPrefix :: "string \<Rightarrow> string \<Rightarrow> bool" where
  "HasPrefix s p \<longleftrightarrow> take (length p) s = p"

definition HasSuffix :: "string \<Rightarrow> string \<Rightarrow> bool" where
  "HasSuffix s p \<longleftrightarrow> length p \<le> length s \<and> drop (length s - length p) s = p"

definition CutPrefix :: "string \<Rightarrow> string \<Rightarrow> string option" where
  "CutPrefix s p = (if HasPrefix s p then Some (drop (length p) s) else None)"

definition TrimSuffix :: "string \<Rightarrow> string \<Rightarrow> string" where
  "TrimSuffix s p = (if HasSuffix s p then take (length s - length p) s else s)"

fun Contains :: "string \<Rightarrow> string \<Rightarrow> bool" where
  "Contains [] t \<longleftrightarrow> t = []"
| "Contains (c # s) t \<longleftrightarrow> HasPrefix (c # s) t \<or> Contains s t"

fun IndexByte :: "string \<Rightarrow> char \<Rightarrow> nat option" where
  "IndexByte [] c = None"
| "IndexByte (d # s) c = (if d = c then Some 0 else map_option Suc (IndexByte s c))"

fun LastIndexByte :: "string \<Rightarrow> char \<Rightarrow> nat option" where
  "LastIndexByte [] c = None"
| "LastIndexByte (d # s) c =
     (case LastIndexByte s c of
        Some i \<Rightarrow> Some (Suc i)
      | None \<Rightarrow> if d = c then Some 0 else None)"

fun Join :: "string list \<Rightarrow> string \<Rightarrow> string" where
  "Join [] sep = []"
| "Join [s] sep = s"
| "Join (s # ss) sep = s @ sep @ Join ss sep"

lemma HasPrefix_iff: "HasPrefix s p \<longleftrightarrow> prefix p s"
  by (metis HasPrefix_def append_eq_conv_conj prefix_def)

lemma Contains_iff: "Contains s t \<longleftrightarrow> (\<exists>p q. s = p @ t @ q)"
proof (induction s)
  case (Cons c s)
  have "(\<exists>p q. c # s = p @ t @ q) \<longleftrightarrow> prefix t (c # s) \<or> (\<exists>p q. s = p @ t @ q)"
    by (auto simp: prefix_def Cons_eq_append_conv)
  with Cons show ?case by (simp add: HasPrefix_iff)
qed auto

lemma Contains_refl [simp]: "Contains s s"
  by (auto simp: Contains_iff intro: exI [of _ "[]"])

lemma CutPrefix_append [simp]: "CutPrefix (p @ s) p = Some s"
  by (simp add: CutPrefix_def HasPrefix_def)

lemma IndexByte_append: "c \<notin> set s \<Longrightarrow> IndexByte (s @ c # t) c = Some (length s)"
  by (induction s) auto

lemma IndexByte_None: "IndexByte s c = None \<longleftrightarrow> c \<notin> set s"
  by (induction s) auto

lemma IndexByte_Some:
  "IndexByte s c = Some i \<Longrightarrow> s = take i s @ c # drop (Suc i) s \<and> c \<notin> set (take i s) \<and> i < length s"
  by (induction s arbitrary: i) (auto split: if_splits)

lemma LastIndexByte_None: "LastIndexByte s c = None \<longleftrightarrow> c \<notin> set s"
  by (induction s) (auto split: option.splits)

lemma LastIndexByte_append: "c \<notin> set t \<Longrightarrow> LastIndexByte (s @ c # t) c = Some (length s)"
  by (induction s) (auto simp: LastIndexByte_None split: option.splits)

lemma Join_eq_Nil: "Join ss sep = [] \<longleftrightarrow> ss = [] \<or> ss = [[]] \<or> (sep = [] \<and> concat ss = [])"
  by (induction ss sep rule: Join.induct) auto


section \<open>Whitespace\<close>

text \<open>
  \<^verbatim>\<open>unicode.IsSpace\<close> by the UTF-8 bytes of the code points it accepts: the ASCII spaces, U+0085,
  U+00A0, U+1680, U+2000 to U+200A, U+2028, U+2029, U+202F, U+205F and U+3000. No such sequence
  starts with a continuation byte, so scanning byte by byte finds the same runes as decoding.
\<close>

definition ascii_space :: "nat \<Rightarrow> bool" where
  "ascii_space b \<longleftrightarrow> (9 \<le> b \<and> b \<le> 13) \<or> b = 32"

fun space_rune :: "nat list \<Rightarrow> bool" where
  "space_rune [b] \<longleftrightarrow> ascii_space b"
| "space_rune [a, b] \<longleftrightarrow> a = 194 \<and> (b = 133 \<or> b = 160)"
| "space_rune [a, b, c] \<longleftrightarrow>
     (a = 225 \<and> b = 154 \<and> c = 128) \<or>
     (a = 226 \<and> b = 128 \<and> ((128 \<le> c \<and> c \<le> 138) \<or> c = 168 \<or> c = 169 \<or> c = 175)) \<or>
     (a = 226 \<and> b = 129 \<and> c = 159) \<or>
     (a = 227 \<and> b = 128 \<and> c = 128)"
| "space_rune _ \<longleftrightarrow> False"

text \<open>The length of the space rune at the front of a byte sequence, 0 if there is none.\<close>

definition space_at :: "string \<Rightarrow> nat" where
  "space_at s =
     (if space_rune (map of_char (take 1 s)) then 1
      else if space_rune (map of_char (take 2 s)) then 2
      else if space_rune (map of_char (take 3 s)) then 3 else 0)"

definition space_before :: "string \<Rightarrow> nat" where
  "space_before s =
     (if space_rune (rev (map of_char (take 1 (rev s)))) then 1
      else if space_rune (rev (map of_char (take 2 (rev s)))) then 2
      else if space_rune (rev (map of_char (take 3 (rev s)))) then 3 else 0)"

lemma space_at_le: "space_at s \<le> length s"
  by (cases s; cases "tl s"; cases "tl (tl s)") (auto simp: space_at_def)

lemma space_at_Nil [simp]: "space_at [] = 0"
  using space_at_le [of "[]"] by simp

lemma space_before_Nil [simp]: "space_before [] = 0"
  by (simp add: space_before_def)

function TrimLeftSpace :: "string \<Rightarrow> string" where
  "TrimLeftSpace s = (if space_at s = 0 then s else TrimLeftSpace (drop (space_at s) s))"
  by pat_completeness auto
termination
proof (relation "measure length")
  fix s assume "space_at s \<noteq> 0"
  then have "s \<noteq> []" by auto
  with \<open>space_at s \<noteq> 0\<close> show "(drop (space_at s) s, s) \<in> measure length" by simp
qed simp

function TrimRightSpace :: "string \<Rightarrow> string" where
  "TrimRightSpace s =
     (if space_before s = 0 then s else TrimRightSpace (take (length s - space_before s) s))"
  by pat_completeness auto
termination
proof (relation "measure length")
  fix s assume "space_before s \<noteq> 0"
  then have "s \<noteq> []" by auto
  with \<open>space_before s \<noteq> 0\<close> show "(take (length s - space_before s) s, s) \<in> measure length"
    by simp
qed simp

declare TrimLeftSpace.simps [simp del] TrimRightSpace.simps [simp del]

definition TrimSpace :: "string \<Rightarrow> string" where
  "TrimSpace s = TrimRightSpace (TrimLeftSpace s)"

text \<open>\<^verbatim>\<open>strings.Fields\<close>: the maximal runs of bytes outside space runes.\<close>

function fields_from :: "string \<Rightarrow> string \<Rightarrow> string list" where
  "fields_from word [] = (if word = [] then [] else [word])"
| "fields_from word (c # s) =
     (if space_at (c # s) = 0 then fields_from (word @ [c]) s
      else (if word = [] then [] else [word]) @ fields_from [] (drop (space_at (c # s)) (c # s)))"
  by pat_completeness auto
termination
  by (relation "measure (\<lambda>(w, s). length s)") auto

definition Fields :: "string \<Rightarrow> string list" where
  "Fields s = fields_from [] s"

lemma fields_from_nonempty: "w \<in> set (fields_from word s) \<Longrightarrow> w \<noteq> []"
  by (induction word s rule: fields_from.induct) (auto split: if_splits)

lemma Fields_nonempty: "w \<in> set (Fields s) \<Longrightarrow> w \<noteq> []"
  by (simp add: Fields_def fields_from_nonempty)


section \<open>Case\<close>

definition ascii_lower :: "char \<Rightarrow> char" where
  "ascii_lower c = (if 65 \<le> byte_of c \<and> byte_of c \<le> 90 then char_of (byte_of c + 32) else c)"

definition ToLower :: "unicode \<Rightarrow> string \<Rightarrow> string" where
  "ToLower u s = (if list_all is_ascii s then map ascii_lower s else map_to_lower u s)"

fun EqualFold :: "unicode \<Rightarrow> string \<Rightarrow> string \<Rightarrow> bool" where
  "EqualFold u (a # s) (b # t) \<longleftrightarrow>
     (if \<not> is_ascii a \<or> \<not> is_ascii b then fold_equal u (a # s) (b # t)
      else ascii_lower a = ascii_lower b \<and> EqualFold u s t)"
| "EqualFold u s t \<longleftrightarrow> s = [] \<and> t = []"

lemma EqualFold_refl: "list_all is_ascii s \<Longrightarrow> EqualFold u s s"
  by (induction s) auto


section \<open>Decimal and hexadecimal text\<close>

definition digit_char :: "nat \<Rightarrow> char" where
  "digit_char d = ''0123456789'' ! d"

definition is_digit :: "char \<Rightarrow> bool" where
  "is_digit c \<longleftrightarrow> 48 \<le> byte_of c \<and> byte_of c \<le> 57"

definition digit_val :: "char \<Rightarrow> nat" where
  "digit_val c = byte_of c - 48"

fun decimal :: "nat \<Rightarrow> string" where
  "decimal n = (if n < 10 then [digit_char n] else decimal (n div 10) @ [digit_char (n mod 10)])"

declare decimal.simps [simp del]

definition FormatInt :: "int \<Rightarrow> string" where
  "FormatInt i = (if i < 0 then CHR ''-'' # decimal (nat (- i)) else decimal (nat i))"

definition digits_val :: "string \<Rightarrow> nat" where
  "digits_val s = foldl (\<lambda>n c. 10 * n + digit_val c) 0 s"

text \<open>
  \<^verbatim>\<open>strconv.ParseInt(s, 10, 64)\<close> and \<^verbatim>\<open>strconv.Atoi\<close> on a 64-bit platform: an optional sign, at least
  one digit, nothing else, and a value in range; everything else is an error.
\<close>

definition parse_digits :: "string \<Rightarrow> nat option" where
  "parse_digits s = (if s \<noteq> [] \<and> list_all is_digit s then Some (digits_val s) else None)"

definition ParseInt :: "string \<Rightarrow> int option" where
  "ParseInt s =
     (let (sgn, ds) = (case s of
          [] \<Rightarrow> (1, [])
        | c # r \<Rightarrow> if c = CHR ''-'' then (-1, r) else if c = CHR ''+'' then (1, r) else (1, s))
      in case parse_digits ds of
           None \<Rightarrow> None
         | Some n \<Rightarrow> if is_int64 (sgn * int n) then Some (sgn * int n) else None)"

abbreviation Atoi :: "string \<Rightarrow> int option" where
  "Atoi \<equiv> ParseInt"

definition hex_digit :: "nat \<Rightarrow> char" where
  "hex_digit d = ''0123456789abcdef'' ! d"

definition hex_EncodeToString :: "bytes \<Rightarrow> string" where
  "hex_EncodeToString bs = concat (map (\<lambda>c. [hex_digit (byte_of c div 16), hex_digit (byte_of c mod 16)]) bs)"

lemma byte_digit_char [simp]: "d < 10 \<Longrightarrow> byte_of (digit_char d) = 48 + d"
  by (auto simp: digit_char_def less_Suc_eq numeral_eq_Suc)

lemma digit_char_inj: "d < 10 \<Longrightarrow> e < 10 \<Longrightarrow> digit_char d = digit_char e \<Longrightarrow> d = e"
  by (metis add_left_cancel byte_digit_char)

lemma decimal_nonempty [simp]: "decimal n \<noteq> []"
  by (subst decimal.simps) simp

lemma decimal_digits: "c \<in> set (decimal n) \<Longrightarrow> is_digit c"
proof (induction n rule: decimal.induct)
  case (1 n)
  then show ?case
    by (subst (asm) (2) decimal.simps) (auto simp: is_digit_def split: if_splits)
qed

lemma digits_val_snoc [simp]: "digits_val (s @ [c]) = 10 * digits_val s + digit_val c"
  by (simp add: digits_val_def)

lemma digits_val_decimal [simp]: "digits_val (decimal n) = n"
proof (induction n rule: decimal.induct)
  case (1 n)
  show ?case
  proof (cases "n < 10")
    case True
    then show ?thesis
      by (subst decimal.simps) (simp add: digits_val_def digit_val_def)
  next
    case False
    with 1 show ?thesis
      by (subst decimal.simps) (simp add: digit_val_def)
  qed
qed

lemma parse_digits_decimal [simp]: "parse_digits (decimal n) = Some n"
  by (auto simp: parse_digits_def list_all_iff decimal_digits)

lemma decimal_inj: "decimal m = decimal n \<Longrightarrow> m = n"
  by (metis digits_val_decimal)

lemma decimal_head: "\<exists>c s. decimal n = c # s \<and> is_digit c"
  by (cases "decimal n") (auto intro: decimal_digits [of _ n])

text \<open>Printing a 64-bit integer and reading it back gives it again.\<close>

lemma ParseInt_FormatInt: "is_int64 i \<Longrightarrow> ParseInt (FormatInt i) = Some i"
proof (cases "i < 0")
  case False
  obtain c s where "decimal (nat i) = c # s" and "is_digit c"
    using decimal_head by blast
  moreover from this have "c \<noteq> CHR ''-''" "c \<noteq> CHR ''+''"
    by (auto simp: is_digit_def)
  ultimately show "is_int64 i \<Longrightarrow> ?thesis"
    using False parse_digits_decimal [of "nat i"] by (simp add: FormatInt_def ParseInt_def)
qed (simp add: FormatInt_def ParseInt_def)

lemma FormatInt_inj: "FormatInt i = FormatInt j \<Longrightarrow> i = j"
proof -
  have neg: "decimal m \<noteq> CHR ''-'' # t" for m t
    using decimal_digits [of "CHR ''-''" m] by (auto simp: is_digit_def)
  assume "FormatInt i = FormatInt j"
  then show ?thesis
    using neg neg [symmetric] by (auto simp: FormatInt_def dest!: decimal_inj split: if_splits)
qed

lemma FormatInt_chars: "c \<in> set (FormatInt i) \<Longrightarrow> is_digit c \<or> c = CHR ''-''"
  by (auto simp: FormatInt_def decimal_digits split: if_splits)

lemma byte_hex_digit: "d < 16 \<Longrightarrow> byte_of (hex_digit d) = (if d < 10 then 48 + d else 87 + d)"
  by (auto simp: hex_digit_def less_Suc_eq numeral_eq_Suc)

lemma hex_chars: "c \<in> set (hex_EncodeToString bs) \<Longrightarrow> 48 \<le> byte_of c \<and> byte_of c \<le> 102"
proof -
  assume "c \<in> set (hex_EncodeToString bs)"
  then obtain b where "c = hex_digit (byte_of b div 16) \<or> c = hex_digit (byte_of b mod 16)"
    by (auto simp: hex_EncodeToString_def)
  moreover have "byte_of b div 16 < 16" "byte_of b mod 16 < 16"
    using nat_of_char_less_256 [of b] by linarith+
  ultimately show ?thesis
    by (auto simp: byte_hex_digit split: if_splits)
qed

lemma hex_length: "length (hex_EncodeToString bs) = 2 * length bs"
  by (induction bs) (auto simp: hex_EncodeToString_def)

end
