(* ===== verification/Encodings.thy ===== *)
theory Encodings
  imports Go_Strings
begin

text \<open>
  Text encodings of the standard library that travel between the plugin and its clients: unpadded
  URL-safe base64 (page cursors), padded base64 (the signing secret), and RFC 3339 timestamps
  (cursors of the time-sorted listings).
\<close>


section \<open>Base64\<close>

text \<open>The 6-bit digits of a byte sequence, without padding.\<close>

fun sextets :: "nat list \<Rightarrow> nat list" where
  "sextets [] = []"
| "sextets [a] = [a div 4, (a mod 4) * 16]"
| "sextets [a, b] = [a div 4, (a mod 4) * 16 + b div 16, (b mod 16) * 4]"
| "sextets (a # b # c # r) =
     a div 4 # ((a mod 4) * 16 + b div 16) # ((b mod 16) * 4 + c div 64) # (c mod 64) # sextets r"

text \<open>Back to bytes; the decoder is not strict, so stray bits of a last partial group are dropped.\<close>

fun unsextets :: "nat list \<Rightarrow> nat list option" where
  "unsextets [] = Some []"
| "unsextets [a] = None"
| "unsextets [a, b] = Some [a * 4 + b div 16]"
| "unsextets [a, b, c] = Some [a * 4 + b div 16, (b mod 16) * 16 + c div 4]"
| "unsextets (a # b # c # d # r) =
     map_option (\<lambda>bs. (a * 4 + b div 16) # ((b mod 16) * 16 + c div 4) # ((c mod 4) * 64 + d) # bs)
       (unsextets r)"

definition url_alphabet :: string where
  "url_alphabet = ''ABCDEFGHIJKLMNOPQRSTUVWXYZabcdefghijklmnopqrstuvwxyz0123456789-_''"

definition std_alphabet :: string where
  "std_alphabet = ''ABCDEFGHIJKLMNOPQRSTUVWXYZabcdefghijklmnopqrstuvwxyz0123456789+/''"

fun all_values :: "(char \<Rightarrow> nat option) \<Rightarrow> string \<Rightarrow> nat list option" where
  "all_values f [] = Some []"
| "all_values f (c # s) =
     (case f c of None \<Rightarrow> None | Some d \<Rightarrow> map_option (\<lambda>ds. d # ds) (all_values f s))"

definition drop_newlines :: "string \<Rightarrow> string" where
  "drop_newlines s = filter (\<lambda>c. byte_of c \<noteq> 10 \<and> byte_of c \<noteq> 13) s"

definition RawURL_EncodeToString :: "bytes \<Rightarrow> string" where
  "RawURL_EncodeToString bs = map ((!) url_alphabet) (sextets (map of_char bs))"

definition RawURL_DecodeString :: "string \<Rightarrow> bytes option" where
  "RawURL_DecodeString s =
     (case all_values (IndexByte url_alphabet) (drop_newlines s) of
        None \<Rightarrow> None
      | Some ds \<Rightarrow> map_option (map char_of) (unsextets ds))"

text \<open>
  \<^verbatim>\<open>base64.StdEncoding\<close>: groups of four, the last one padded with \<^verbatim>\<open>=\<close>; one or two padding
  characters, and nothing after them.
\<close>

definition Std_DecodeString :: "string \<Rightarrow> bytes option" where
  "Std_DecodeString s =
     (let t = drop_newlines s;
          body = takeWhile (\<lambda>c. c \<noteq> CHR ''='') t;
          pad = dropWhile (\<lambda>c. c \<noteq> CHR ''='') t
      in if length t mod 4 \<noteq> 0 \<or> pad \<notin> {[], ''='', ''==''} then None
         else case all_values (IndexByte std_alphabet) body of
                None \<Rightarrow> None
              | Some ds \<Rightarrow> map_option (map char_of) (unsextets ds))"

lemma join_digits:
  fixes x y k :: nat
  assumes "y < k"
  shows "(x * k + y) div k = x" and "(x * k + y) mod k = y"
  using assms by simp_all

lemma high_digit: "(b :: nat) < 256 \<Longrightarrow> b div 16 < 16" "(c :: nat) < 256 \<Longrightarrow> c div 64 < 4"
    "(a :: nat) < 256 \<Longrightarrow> a div 4 < 64"
  by simp_all

lemma sextets_less:
  "(\<And>b. b \<in> set bs \<Longrightarrow> b < 256) \<Longrightarrow> d \<in> set (sextets bs) \<Longrightarrow> d < 64"
proof (induction bs rule: sextets.induct)
  case (4 a b c r)
  then have lt: "a < 256" "b < 256" "c < 256" and r: "\<And>x. x \<in> set r \<Longrightarrow> x < 256"
    by simp_all
  have "a mod 4 < 4" "b mod 16 < 16" "c mod 64 < 64"
    by simp_all
  with high_digit lt have "a mod 4 * 16 + b div 16 < 64" "b mod 16 * 4 + c div 64 < 64"
    by fastforce+
  with high_digit(3) [OF lt(1)] "4.IH" [OF r] "4.prems"(2) show ?case by auto
next
  case (3 a b)
  then have lt: "a < 256" "b < 256" by simp_all
  have "a mod 4 < 4" "b mod 16 < 16"
    by simp_all
  with high_digit lt have "a mod 4 * 16 + b div 16 < 64" "b mod 16 * 4 < 64"
    by fastforce+
  with high_digit(3) [OF lt(1)] "3.prems"(2) show ?case by auto
qed auto

lemma unsextets_sextets: "(\<And>b. b \<in> set bs \<Longrightarrow> b < 256) \<Longrightarrow> unsextets (sextets bs) = Some bs"
proof (induction bs rule: sextets.induct)
  case (4 a b c r)
  then have "unsextets (sextets r) = Some r" and "a < 256" "b < 256" "c < 256"
    by auto
  with high_digit show ?case by (simp add: join_digits)
next
  case (3 a b)
  with high_digit show ?case by (simp add: join_digits)
qed auto

lemma IndexByte_nth: "distinct s \<Longrightarrow> i < length s \<Longrightarrow> IndexByte s (s ! i) = Some i"
  by (induction s arbitrary: i) (auto simp: nth_Cons split: nat.splits)

lemma url_alphabet_facts [simp]: "distinct url_alphabet" "length url_alphabet = 64"
  by (simp_all add: url_alphabet_def)

lemma all_values_url:
  "(\<And>d. d \<in> set ds \<Longrightarrow> d < 64) \<Longrightarrow>
     all_values (IndexByte url_alphabet) (map ((!) url_alphabet) ds) = Some ds"
  by (induction ds) (auto simp: IndexByte_nth)

lemma url_alphabet_no_newline: "c \<in> set url_alphabet \<Longrightarrow> byte_of c \<noteq> 10 \<and> byte_of c \<noteq> 13"
  by (auto simp: url_alphabet_def)

text \<open>Decoding what was encoded gives the bytes back, whatever they are.\<close>

lemma RawURL_roundtrip: "RawURL_DecodeString (RawURL_EncodeToString bs) = Some bs"
proof -
  let ?ds = "sextets (map of_char bs)"
  have less: "d < 64" if "d \<in> set ?ds" for d
    by (rule sextets_less [OF _ that]) auto
  then have "drop_newlines (map ((!) url_alphabet) ?ds) = map ((!) url_alphabet) ?ds"
    using url_alphabet_no_newline by (auto simp: drop_newlines_def filter_id_conv)
  moreover have "unsextets ?ds = Some (map of_char bs)"
    by (rule unsextets_sextets) auto
  ultimately show ?thesis
    by (simp add: RawURL_EncodeToString_def RawURL_DecodeString_def all_values_url less comp_def)
qed

lemma RawURL_encode_inj: "RawURL_EncodeToString a = RawURL_EncodeToString b \<Longrightarrow> a = b"
  by (metis RawURL_roundtrip option.inject)

text \<open>Four characters of padded base64 carry three bytes.\<close>

lemma length_unsextets: "unsextets ds = Some bs \<Longrightarrow> length bs = length ds * 3 div 4"
  by (induction ds arbitrary: bs rule: unsextets.induct) auto


section \<open>RFC 3339 timestamps\<close>

text \<open>The civil date of a day number (days since 1970-01-01, proleptic Gregorian calendar).\<close>

definition civil_of_days :: "int \<Rightarrow> int \<times> int \<times> int" where
  "civil_of_days days =
     (let z = days + 719468;
          era = z div 146097;
          doe = z mod 146097;
          yoe = (doe - doe div 1460 + doe div 36524 - doe div 146096) div 365;
          doy = doe - (365 * yoe + yoe div 4 - yoe div 100);
          mp = (5 * doy + 2) div 153;
          d = doy - (153 * mp + 2) div 5 + 1;
          m = (if mp < 10 then mp + 3 else mp - 9);
          y = yoe + era * 400 + (if m \<le> 2 then 1 else 0)
      in (y, m, d))"

definition zero_pad :: "nat \<Rightarrow> int \<Rightarrow> string" where
  "zero_pad w i =
     (let s = decimal (nat \<bar>i\<bar>) in
      (if i < 0 then ''-'' else []) @ replicate (w - length s) (CHR ''0'') @ s)"

text \<open>\<^verbatim>\<open>.999999999\<close>: a dot and the nanoseconds without trailing zeros, nothing for a whole second.\<close>

definition trimmed_fraction :: "int \<Rightarrow> string" where
  "trimmed_fraction ns =
     (if ns = 0 then []
      else CHR ''.'' # rev (dropWhile (\<lambda>c. c = CHR ''0'') (rev (zero_pad 9 ns))))"

definition FormatRFC3339Nano :: "time \<Rightarrow> string" where
  "FormatRFC3339Nano t =
     (let secs = t div 1000000000;
          (y, mo, d) = civil_of_days (secs div 86400);
          sod = secs mod 86400
      in zero_pad 4 y @ ''-'' @ zero_pad 2 mo @ ''-'' @ zero_pad 2 d @ ''T'' @
         zero_pad 2 (sod div 3600) @ '':'' @ zero_pad 2 (sod div 60 mod 60) @ '':'' @
         zero_pad 2 (sod mod 60) @ trimmed_fraction (t mod 1000000000) @ ''Z'')"

end
