(* ===== verification/Database.thy ===== *)
theory Database
  imports Encodings
begin

text \<open>
  The Postgres schema of the plugin (\<^verbatim>\<open>internal/migrate/files\<close>) as a record of tables, its constraints
  as an invariant, and what it means to run one statement. A statement sees the transaction time and
  the tables; it either fails and leaves the tables as they were, or returns a value and the new
  tables. Transactions of several statements are atomic, so they are one \<open>stmt\<close> here.
\<close>


section \<open>Rows\<close>

record LibraryPath =
  lp_ID :: int
  lp_Path :: string
  lp_Enabled :: bool
  lp_LastScannedAt :: "time option"
  lp_CreatedAt :: time

record Audiobook =
  ab_ID :: string
  ab_LibraryPathID :: int
  ab_Path :: string
  ab_FileSize :: int
  ab_MTime :: time
  ab_Title :: string
  ab_Author :: string
  ab_Narrator :: string
  ab_Album :: string
  ab_Year :: string
  ab_Genre :: string
  ab_ISBN :: string
  ab_ASIN :: string
  ab_Description :: string
  ab_DurationMs :: int
  ab_Deleted :: bool
  ab_DeletedAt :: "time option"
  ab_ScannedAt :: time
  ab_CreatedAt :: time
  ab_UpdatedAt :: time
  ab_ContentSig :: string

record Chapter =
  ch_AudiobookID :: string
  ch_Idx :: int
  ch_Title :: string
  ch_StartMs :: int
  ch_EndMs :: int

record Cover =
  cv_AudiobookID :: string
  cv_ContentType :: string
  cv_Bytes :: bytes
  cv_Source :: string

record ScanEvent =
  se_ID :: int
  se_LibraryPathID :: "int option"
  se_StartedAt :: time
  se_FinishedAt :: "time option"
  se_BooksAdded :: int
  se_BooksChanged :: int
  se_BooksDeleted :: int
  se_ErrorText :: "string option"

text \<open>The \<^verbatim>\<open>CHECK\<close> on \<^verbatim>\<open>metadata_enrichment_job.status\<close> admits three values.\<close>

datatype job_status = Pending | Completed | Failed

record EnrichmentJob =
  jb_AudiobookID :: string
  jb_Status :: job_status
  jb_Attempts :: int
  jb_RunAfter :: time
  jb_LastError :: string
  jb_EnqueuedAt :: time
  jb_FinishedAt :: "time option"

record 'j cache_row =
  mc_Key :: string
  mc_Source :: string
  mc_Region :: string
  mc_Response :: 'j
  mc_NotFound :: bool
  mc_FetchedAt :: time


section \<open>The database\<close>

text \<open>
  \<open>'j\<close> is the type of a JSON document in \<^verbatim>\<open>metadata_cache.response_json\<close>, \<open>'c\<close> that of the one in
  \<^verbatim>\<open>app_config.data\<close>. \<open>t_schema_migration\<close> holds the recorded versions, \<open>None\<close> when there is no such table;
  any other table without rows is an empty list. \<open>lp_seq\<close> and \<open>se_seq\<close> are the next values of the two \<^verbatim>\<open>BIGSERIAL\<close> sequences.
\<close>

record ('j, 'c) db =
  t_library_path :: "LibraryPath list"
  t_audiobook :: "Audiobook list"
  t_chapter :: "Chapter list"
  t_cover :: "Cover list"
  t_scan_event :: "ScanEvent list"
  t_job :: "EnrichmentJob list"
  t_cache :: "'j cache_row list"
  t_app_config :: "'c option"
  t_schema_migration :: "string list option"
  lp_seq :: int
  se_seq :: int

definition empty_db :: "('j, 'c) db" where
  "empty_db = \<lparr>t_library_path = [], t_audiobook = [], t_chapter = [], t_cover = [],
     t_scan_event = [], t_job = [], t_cache = [], t_app_config = None, t_schema_migration = None,
     lp_seq = 1, se_seq = 1\<rparr>"

datatype sql_error =
    ConnFailed          \<comment> \<open>the statement did not reach the server or the server refused it\<close>
  | NoRows              \<comment> \<open>\<^verbatim>\<open>pgx.ErrNoRows\<close>\<close>
  | UniqueViolation
  | ForeignKeyViolation
  | CheckViolation
  | InvalidTimestamp    \<comment> \<open>a \<^verbatim>\<open>::timestamptz\<close> cast of a text that is not one\<close>

type_synonym ('a, 'j, 'c) stmt = "time \<Rightarrow> ('j, 'c) db \<Rightarrow> sql_error + ('a \<times> ('j, 'c) db)"

text \<open>\<^verbatim>\<open>TIMESTAMPTZ\<close> keeps microseconds.\<close>

definition pg_time :: "time \<Rightarrow> time" where
  "pg_time t = t div 1000 * 1000"

lemma pg_time_micro [simp]: "pg_time t mod 1000 = 0"
  by (simp add: pg_time_def)

lemma pg_time_id [simp]: "t mod 1000 = 0 \<Longrightarrow> pg_time t = t"
  by (auto simp: pg_time_def)

text \<open>
  What the server does with text: its collation (a strict order), its reading of timestamps and its
  lower-casing. These are Postgres', not the plugin's: every theorem holds for all of them, under the
  hypotheses it states.
\<close>

record postgres =
  pg_collate :: "string \<Rightarrow> string \<Rightarrow> bool"
  pg_timestamptz :: "string \<Rightarrow> time option"
  pg_lower :: "string \<Rightarrow> string"


section \<open>The constraints\<close>

definition library_ids :: "('j, 'c) db \<Rightarrow> int set" where
  "library_ids d = lp_ID ` set (t_library_path d)"

definition audiobook_ids :: "('j, 'c) db \<Rightarrow> string set" where
  "audiobook_ids d = ab_ID ` set (t_audiobook d)"

definition path_key :: "Audiobook \<Rightarrow> int \<times> string" where
  "path_key a = (ab_LibraryPathID a, ab_Path a)"

definition library_path_ok :: "('j, 'c) db \<Rightarrow> bool" where
  "library_path_ok d \<longleftrightarrow>
     distinct (map lp_ID (t_library_path d)) \<and> distinct (map lp_Path (t_library_path d)) \<and>
     (\<forall>l\<in>set (t_library_path d). 0 < lp_ID l \<and> lp_ID l < lp_seq d) \<and> 0 < lp_seq d"

definition audiobook_ok :: "('j, 'c) db \<Rightarrow> bool" where
  "audiobook_ok d \<longleftrightarrow>
     distinct (map ab_ID (t_audiobook d)) \<and> distinct (map path_key (t_audiobook d)) \<and>
     (\<forall>a\<in>set (t_audiobook d). ab_LibraryPathID a \<in> library_ids d)"

definition times_ok :: "('j, 'c) db \<Rightarrow> bool" where
  "times_ok d \<longleftrightarrow>
     (\<forall>a\<in>set (t_audiobook d). ab_CreatedAt a mod 1000 = 0 \<and> ab_UpdatedAt a mod 1000 = 0)"

definition chapter_ok :: "('j, 'c) db \<Rightarrow> bool" where
  "chapter_ok d \<longleftrightarrow>
     distinct (map (\<lambda>c. (ch_AudiobookID c, ch_Idx c)) (t_chapter d)) \<and>
     (\<forall>c\<in>set (t_chapter d). ch_AudiobookID c \<in> audiobook_ids d)"

definition cover_ok :: "('j, 'c) db \<Rightarrow> bool" where
  "cover_ok d \<longleftrightarrow>
     distinct (map cv_AudiobookID (t_cover d)) \<and>
     (\<forall>c\<in>set (t_cover d). cv_AudiobookID c \<in> audiobook_ids d \<and>
        (cv_Source c = ''embedded'' \<or> cv_Source c = ''sidecar''))"

definition scan_event_ok :: "('j, 'c) db \<Rightarrow> bool" where
  "scan_event_ok d \<longleftrightarrow>
     distinct (map se_ID (t_scan_event d)) \<and>
     (\<forall>e\<in>set (t_scan_event d). se_ID e < se_seq d \<and>
        set_option (se_LibraryPathID e) \<subseteq> library_ids d)"

definition job_ok :: "('j, 'c) db \<Rightarrow> bool" where
  "job_ok d \<longleftrightarrow>
     distinct (map jb_AudiobookID (t_job d)) \<and>
     (\<forall>j\<in>set (t_job d). jb_AudiobookID j \<in> audiobook_ids d)"

definition cache_ok :: "('j, 'c) db \<Rightarrow> bool" where
  "cache_ok d \<longleftrightarrow> distinct (map mc_Key (t_cache d))"

definition db_inv :: "('j, 'c) db \<Rightarrow> bool" where
  "db_inv d \<longleftrightarrow> library_path_ok d \<and> audiobook_ok d \<and> times_ok d \<and> chapter_ok d \<and> cover_ok d \<and>
     scan_event_ok d \<and> job_ok d \<and> cache_ok d"

lemmas constraint_defs =
  library_path_ok_def audiobook_ok_def times_ok_def chapter_ok_def cover_ok_def scan_event_ok_def
  job_ok_def cache_ok_def library_ids_def audiobook_ids_def

lemma ids_frame [simp]:
  "library_ids (d\<lparr>t_audiobook := x1\<rparr>) = library_ids d"
  "library_ids (d\<lparr>t_chapter := x2\<rparr>) = library_ids d"
  "library_ids (d\<lparr>t_cover := x3\<rparr>) = library_ids d"
  "library_ids (d\<lparr>t_scan_event := x4\<rparr>) = library_ids d"
  "library_ids (d\<lparr>t_job := x5\<rparr>) = library_ids d"
  "library_ids (d\<lparr>t_cache := x6\<rparr>) = library_ids d"
  "library_ids (d\<lparr>lp_seq := x7\<rparr>) = library_ids d"
  "library_ids (d\<lparr>se_seq := x8\<rparr>) = library_ids d"
  "library_ids (d\<lparr>t_app_config := x10\<rparr>) = library_ids d"
  "audiobook_ids (d\<lparr>t_library_path := x9\<rparr>) = audiobook_ids d"
  "audiobook_ids (d\<lparr>t_chapter := x2\<rparr>) = audiobook_ids d"
  "audiobook_ids (d\<lparr>t_cover := x3\<rparr>) = audiobook_ids d"
  "audiobook_ids (d\<lparr>t_scan_event := x4\<rparr>) = audiobook_ids d"
  "audiobook_ids (d\<lparr>t_job := x5\<rparr>) = audiobook_ids d"
  "audiobook_ids (d\<lparr>t_cache := x6\<rparr>) = audiobook_ids d"
  "audiobook_ids (d\<lparr>lp_seq := x7\<rparr>) = audiobook_ids d"
  "audiobook_ids (d\<lparr>se_seq := x8\<rparr>) = audiobook_ids d"
  "audiobook_ids (d\<lparr>t_app_config := x10\<rparr>) = audiobook_ids d"
  "library_ids (d\<lparr>t_schema_migration := x11\<rparr>) = library_ids d"
  "audiobook_ids (d\<lparr>t_schema_migration := x11\<rparr>) = audiobook_ids d"
  by (simp_all add: library_ids_def audiobook_ids_def)

lemmas table_defs =
  db_inv_def library_path_ok_def audiobook_ok_def times_ok_def chapter_ok_def cover_ok_def
  scan_event_ok_def job_ok_def cache_ok_def

lemma empty_db_inv: "db_inv empty_db"
  by (simp add: db_inv_def constraint_defs empty_db_def)

text \<open>A change of one table is checked against the constraints of that table only.\<close>

lemma one_table_inv:
  "db_inv d \<Longrightarrow> chapter_ok (d\<lparr>t_chapter := chs\<rparr>) \<Longrightarrow> db_inv (d\<lparr>t_chapter := chs\<rparr>)"
  "db_inv d \<Longrightarrow> cover_ok (d\<lparr>t_cover := cvs\<rparr>) \<Longrightarrow> db_inv (d\<lparr>t_cover := cvs\<rparr>)"
  "db_inv d \<Longrightarrow> job_ok (d\<lparr>t_job := js\<rparr>) \<Longrightarrow> db_inv (d\<lparr>t_job := js\<rparr>)"
  "db_inv d \<Longrightarrow> cache_ok (d\<lparr>t_cache := cs\<rparr>) \<Longrightarrow> db_inv (d\<lparr>t_cache := cs\<rparr>)"
  "db_inv d \<Longrightarrow> db_inv (d\<lparr>t_app_config := ac\<rparr>)"
  "db_inv d \<Longrightarrow> db_inv (d\<lparr>t_schema_migration := vs\<rparr>)"
  by (simp_all add: table_defs)

text \<open>
  A database trigger the foreign keys declare: a deleted library path takes its books along, a
  deleted book its chapters, cover and job; a scan event loses its reference.
\<close>

definition cascade_library :: "int \<Rightarrow> ('j, 'c) db \<Rightarrow> ('j, 'c) db" where
  "cascade_library i d =
     (let gone = (\<lambda>x. \<exists>a\<in>set (t_audiobook d). ab_ID a = x \<and> ab_LibraryPathID a = i)
      in d\<lparr>t_library_path := filter (\<lambda>l. lp_ID l \<noteq> i) (t_library_path d),
           t_audiobook := filter (\<lambda>a. ab_LibraryPathID a \<noteq> i) (t_audiobook d),
           t_chapter := filter (\<lambda>c. \<not> gone (ch_AudiobookID c)) (t_chapter d),
           t_cover := filter (\<lambda>c. \<not> gone (cv_AudiobookID c)) (t_cover d),
           t_job := filter (\<lambda>j. \<not> gone (jb_AudiobookID j)) (t_job d),
           t_scan_event := map (\<lambda>e. if se_LibraryPathID e = Some i
             then e\<lparr>se_LibraryPathID := None\<rparr> else e) (t_scan_event d)\<rparr>)"

lemma distinct_map_filter': "distinct (map f xs) \<Longrightarrow> distinct (map f (filter P xs))"
  by (rule distinct_map_filter)

lemma distinct_map_keep:
  "(\<And>x. f (g x) = f x) \<Longrightarrow> distinct (map f (map g xs)) \<longleftrightarrow> distinct (map f xs)"
  by (simp add: comp_def)

lemma cascade_library_inv: "db_inv d \<Longrightarrow> db_inv (cascade_library i d)"
proof -
  assume inv: "db_inv d"
  let ?d = "cascade_library i d"
  have ids: "x \<in> audiobook_ids ?d"
    if "x \<in> audiobook_ids d" and "\<not> (\<exists>a\<in>set (t_audiobook d). ab_ID a = x \<and> ab_LibraryPathID a = i)" for x
    using that by (auto simp: audiobook_ids_def cascade_library_def)
  have "library_path_ok ?d" and "audiobook_ok ?d" and "times_ok ?d" and "cache_ok ?d"
    using inv by (auto simp: db_inv_def constraint_defs cascade_library_def distinct_map_filter')
  moreover have "chapter_ok ?d" and "cover_ok ?d" and "job_ok ?d"
    using inv ids
    by (auto simp: db_inv_def chapter_ok_def cover_ok_def job_ok_def cascade_library_def
        distinct_map_filter')
  moreover have "scan_event_ok ?d"
    using inv
    by (auto simp: db_inv_def scan_event_ok_def library_ids_def cascade_library_def comp_def
        if_distrib [where f = se_ID] cong: if_cong)
  ultimately show ?thesis by (simp add: db_inv_def)
qed


section \<open>Running statements against a server\<close>

text \<open>
  The server as the plugin meets it: the tables, how many statements it has run, the clock at each of
  them, and which of them fail for reasons outside the model (a lost connection, a refused value).
\<close>

record ('j, 'c) server_state =
  sv_db :: "('j, 'c) db"
  sv_calls :: nat
  sv_clock :: "nat \<Rightarrow> time"
  sv_fault :: "nat \<Rightarrow> bool"

definition run_stmt ::
  "('a, 'j, 'c) stmt \<Rightarrow> ('j, 'c) server_state \<Rightarrow> (sql_error + 'a) \<times> ('j, 'c) server_state" where
  "run_stmt q s =
     (let s' = s\<lparr>sv_calls := Suc (sv_calls s)\<rparr> in
      if sv_fault s (sv_calls s) then (Inl ConnFailed, s')
      else case q (pg_time (sv_clock s (sv_calls s))) (sv_db s) of
             Inl e \<Rightarrow> (Inl e, s')
           | Inr (r, d) \<Rightarrow> (Inr r, s'\<lparr>sv_db := d\<rparr>))"

definition keeps_inv :: "('a, 'j, 'c) stmt \<Rightarrow> bool" where
  "keeps_inv q \<longleftrightarrow> (\<forall>now d r d'. q (pg_time now) d = Inr (r, d') \<longrightarrow> db_inv d \<longrightarrow> db_inv d')"

lemma keeps_invI [intro?]:
  "(\<And>now d r d'. now mod 1000 = 0 \<Longrightarrow> q now d = Inr (r, d') \<Longrightarrow> db_inv d \<Longrightarrow> db_inv d') \<Longrightarrow> keeps_inv q"
  unfolding keeps_inv_def by (metis pg_time_micro)

lemma run_stmt_inv:
  "keeps_inv q \<Longrightarrow> db_inv (sv_db s) \<Longrightarrow> db_inv (sv_db (snd (run_stmt q s)))"
  by (auto simp: run_stmt_def keeps_inv_def Let_def split: sum.splits)

lemma run_stmt_error: "fst (run_stmt q s) = Inl e \<Longrightarrow> sv_db (snd (run_stmt q s)) = sv_db s"
  by (auto simp: run_stmt_def Let_def split: sum.splits if_splits)

lemma run_stmt_ok:
  "\<not> sv_fault s (sv_calls s) \<Longrightarrow> q (pg_time (sv_clock s (sv_calls s))) (sv_db s) = Inr (r, d) \<Longrightarrow>
     run_stmt q s = (Inr r, s\<lparr>sv_calls := Suc (sv_calls s), sv_db := d\<rparr>)"
  by (simp add: run_stmt_def)

lemma run_stmt_frame [simp]:
  "sv_calls (snd (run_stmt q s)) = Suc (sv_calls s)"
  "sv_clock (snd (run_stmt q s)) = sv_clock s" "sv_fault (snd (run_stmt q s)) = sv_fault s"
  by (simp_all add: run_stmt_def Let_def split: sum.split)

lemma run_stmt_eqD:
  "run_stmt q s = (r, s') \<Longrightarrow> sv_calls s' = Suc (sv_calls s) \<and> sv_clock s' = sv_clock s \<and> sv_fault s' = sv_fault s"
  using run_stmt_frame by (metis snd_conv)

text \<open>The tables after a statement: its own, or the old ones when it failed.\<close>

lemma run_stmt_db:
  obtains "sv_db (snd (run_stmt q s)) = sv_db s" and "\<exists>e. fst (run_stmt q s) = Inl e"
  | r d where "\<not> sv_fault s (sv_calls s)" and "q (pg_time (sv_clock s (sv_calls s))) (sv_db s) = Inr (r, d)"
      and "fst (run_stmt q s) = Inr r" and "sv_db (snd (run_stmt q s)) = d"
  by (cases "sv_fault s (sv_calls s)"; cases "q (pg_time (sv_clock s (sv_calls s))) (sv_db s)")
    (auto simp: run_stmt_def)

text \<open>Statements that only read.\<close>

definition read_only :: "('a, 'j, 'c) stmt \<Rightarrow> bool" where
  "read_only q \<longleftrightarrow> (\<forall>now d r d'. q now d = Inr (r, d') \<longrightarrow> d' = d)"

lemma read_onlyI [intro?]: "(\<And>now d r d'. q now d = Inr (r, d') \<Longrightarrow> d' = d) \<Longrightarrow> read_only q"
  by (auto simp: read_only_def)

lemma run_read_only:
  assumes "read_only q" and "run_stmt q s = (r, s')"
  shows "s' = s\<lparr>sv_calls := Suc (sv_calls s)\<rparr> \<and>
    (\<forall>x. r = Inr x \<longrightarrow> q (pg_time (sv_clock s (sv_calls s))) (sv_db s) = Inr (x, sv_db s))"
proof (cases "q (pg_time (sv_clock s (sv_calls s))) (sv_db s)")
  case (Inl e)
  with assms(2) show ?thesis by (auto simp: run_stmt_def Let_def split: if_splits)
next
  case (Inr p)
  with assms(1) obtain x where "p = (x, sv_db s)"
    unfolding read_only_def by (metis prod.collapse)
  with Inr assms(2) show ?thesis by (auto simp: run_stmt_def Let_def split: if_splits)
qed

lemma read_only_inv: "read_only q \<Longrightarrow> keeps_inv q"
  by (auto simp: read_only_def keeps_inv_def)

end
