(* ===== verification/Store.thy ===== *)
theory Store
  imports Database
begin

text \<open>
  The data-access layer, \<^verbatim>\<open>internal/store\<close>: every statement on books, chapters, covers, library
  paths and scan events, and that each of them keeps the schema's constraints. The paged listings
  are in theory \<open>Listing\<close>, the enrichment queue in \<open>Queue\<close>.
\<close>


section \<open>audiobook.go: rows by path and by id\<close>

definition same_path :: "Audiobook \<Rightarrow> Audiobook \<Rightarrow> bool" where
  "same_path a r \<longleftrightarrow> path_key r = path_key a"

text \<open>\<^verbatim>\<open>DO UPDATE SET\<close>: the id and the creation time of the row stay, everything else is the new file's.\<close>

definition reingest :: "Audiobook \<Rightarrow> time \<Rightarrow> Audiobook \<Rightarrow> Audiobook" where
  "reingest a now r = r\<lparr>
     ab_FileSize := ab_FileSize a, ab_MTime := pg_time (ab_MTime a),
     ab_Title := ab_Title a, ab_Author := ab_Author a, ab_Narrator := ab_Narrator a,
     ab_Album := ab_Album a, ab_Year := ab_Year a, ab_Genre := ab_Genre a,
     ab_ISBN := ab_ISBN a, ab_ASIN := ab_ASIN a, ab_Description := ab_Description a,
     ab_DurationMs := ab_DurationMs a, ab_Deleted := False, ab_DeletedAt := None,
     ab_ScannedAt := pg_time (ab_ScannedAt a), ab_ContentSig := ab_ContentSig a,
     ab_UpdatedAt := now\<rparr>"

definition fresh_row :: "Audiobook \<Rightarrow> time \<Rightarrow> Audiobook" where
  "fresh_row a now = a\<lparr>
     ab_MTime := pg_time (ab_MTime a), ab_DeletedAt := map_option pg_time (ab_DeletedAt a),
     ab_ScannedAt := pg_time (ab_ScannedAt a), ab_CreatedAt := now, ab_UpdatedAt := now\<rparr>"

text \<open>
  \<^verbatim>\<open>ON CONFLICT (library_path_id, path)\<close> covers a row with the same path only: a clash of the id
  with another row is a violation of the primary key.
\<close>

definition UpsertAudiobook :: "Audiobook \<Rightarrow> (unit, 'j, 'c) stmt" where
  "UpsertAudiobook a now d =
     (if list_ex (same_path a) (t_audiobook d)
      then Inr ((), d\<lparr>t_audiobook :=
             map (\<lambda>r. if same_path a r then reingest a now r else r) (t_audiobook d)\<rparr>)
      else if list_ex (\<lambda>r. ab_ID r = ab_ID a) (t_audiobook d) then Inl UniqueViolation
      else if \<not> list_ex (\<lambda>l. lp_ID l = ab_LibraryPathID a) (t_library_path d)
      then Inl ForeignKeyViolation
      else Inr ((), d\<lparr>t_audiobook := t_audiobook d @ [fresh_row a now]\<rparr>))"

definition enabled_library :: "('j, 'c) db \<Rightarrow> int \<Rightarrow> bool" where
  "enabled_library d i \<longleftrightarrow> list_ex (\<lambda>l. lp_ID l = i \<and> lp_Enabled l) (t_library_path d)"

text \<open>The filter every read applies: not deleted, and its library path enabled.\<close>

definition visible :: "('j, 'c) db \<Rightarrow> Audiobook \<Rightarrow> bool" where
  "visible d a \<longleftrightarrow> \<not> ab_Deleted a \<and> enabled_library d (ab_LibraryPathID a)"

definition GetAudiobook :: "string \<Rightarrow> (Audiobook, 'j, 'c) stmt" where
  "GetAudiobook i now d =
     (case find (\<lambda>a. ab_ID a = i \<and> visible d a) (t_audiobook d) of
        None \<Rightarrow> Inl NoRows
      | Some a \<Rightarrow> Inr (a, d))"

record AudiobookRef =
  rf_ID :: string
  rf_ContentSig :: string

text \<open>A Go map keyed by path; the order of the list is the one a \<^verbatim>\<open>range\<close> over it happens to take.\<close>

definition ListAudiobookRefsByLibrary :: "int \<Rightarrow> ((string \<times> AudiobookRef) list, 'j, 'c) stmt" where
  "ListAudiobookRefsByLibrary i now d =
     Inr (map (\<lambda>a. (ab_Path a, \<lparr>rf_ID = ab_ID a, rf_ContentSig = ab_ContentSig a\<rparr>))
            (filter (\<lambda>a. ab_LibraryPathID a = i \<and> \<not> ab_Deleted a) (t_audiobook d)), d)"

definition SoftDeleteAudiobook :: "string \<Rightarrow> (unit, 'j, 'c) stmt" where
  "SoftDeleteAudiobook i now d =
     Inr ((), d\<lparr>t_audiobook := map (\<lambda>a. if ab_ID a = i
       then a\<lparr>ab_Deleted := True, ab_DeletedAt := Some now, ab_UpdatedAt := now\<rparr> else a)
         (t_audiobook d)\<rparr>)"


section \<open>chapter.go and cover.go\<close>

fun insert_chapters :: "string \<Rightarrow> Chapter list \<Rightarrow> ('j, 'c) db \<Rightarrow> sql_error + ('j, 'c) db" where
  "insert_chapters i [] d = Inr d"
| "insert_chapters i (c # cs) d =
     (if list_ex (\<lambda>x. ch_AudiobookID x = i \<and> ch_Idx x = ch_Idx c) (t_chapter d) then Inl UniqueViolation
      else if \<not> list_ex (\<lambda>a. ab_ID a = i) (t_audiobook d) then Inl ForeignKeyViolation
      else insert_chapters i cs (d\<lparr>t_chapter := t_chapter d @ [c\<lparr>ch_AudiobookID := i\<rparr>]\<rparr>))"

definition ReplaceChapters :: "string \<Rightarrow> Chapter list \<Rightarrow> (unit, 'j, 'c) stmt" where
  "ReplaceChapters i cs now d =
     map_sum id (Pair ())
       (insert_chapters i cs (d\<lparr>t_chapter := filter (\<lambda>c. ch_AudiobookID c \<noteq> i) (t_chapter d)\<rparr>))"

definition ListChapters :: "string \<Rightarrow> (Chapter list, 'j, 'c) stmt" where
  "ListChapters i now d =
     Inr (sort_by (\<lambda>a b. ch_Idx a < ch_Idx b) (filter (\<lambda>c. ch_AudiobookID c = i) (t_chapter d)), d)"

definition UpsertCover :: "Cover \<Rightarrow> (unit, 'j, 'c) stmt" where
  "UpsertCover c now d =
     (if cv_Source c \<noteq> ''embedded'' \<and> cv_Source c \<noteq> ''sidecar'' then Inl CheckViolation
      else if list_ex (\<lambda>x. cv_AudiobookID x = cv_AudiobookID c) (t_cover d)
      then Inr ((), d\<lparr>t_cover := map (\<lambda>x. if cv_AudiobookID x = cv_AudiobookID c
             then x\<lparr>cv_ContentType := cv_ContentType c, cv_Bytes := cv_Bytes c, cv_Source := cv_Source c\<rparr>
             else x) (t_cover d)\<rparr>)
      else if \<not> list_ex (\<lambda>a. ab_ID a = cv_AudiobookID c) (t_audiobook d) then Inl ForeignKeyViolation
      else Inr ((), d\<lparr>t_cover := t_cover d @ [c]\<rparr>))"

datatype store_error = ErrNotFound | ErrSQL sql_error

text \<open>\<^verbatim>\<open>errors.Is(err, pgx.ErrNoRows)\<close> becomes \<^verbatim>\<open>ErrNotFound\<close>, as the callers match on it.\<close>

definition GetCover :: "string \<Rightarrow> (Cover, 'j, 'c) stmt" where
  "GetCover i now d =
     (case find (\<lambda>c. cv_AudiobookID c = i \<and>
                     list_ex (\<lambda>a. ab_ID a = i \<and> visible d a) (t_audiobook d)) (t_cover d) of
        None \<Rightarrow> Inl NoRows
      | Some c \<Rightarrow> Inr (c, d))"

definition not_found_error :: "sql_error \<Rightarrow> store_error" where
  "not_found_error e = (if e = NoRows then ErrNotFound else ErrSQL e)"


section \<open>library\_path.go\<close>

text \<open>
  The no-op update of the conflict branch returns the existing row. The default of \<^verbatim>\<open>id\<close> draws from the
  sequence before the conflict is seen, so the sequence advances either way.
\<close>

definition UpsertLibraryPath :: "string \<Rightarrow> (LibraryPath, 'j, 'c) stmt" where
  "UpsertLibraryPath p now d =
     (let d' = d\<lparr>lp_seq := lp_seq d + 1\<rparr> in
      case find (\<lambda>l. lp_Path l = p) (t_library_path d) of
        Some l \<Rightarrow> Inr (l, d')
      | None \<Rightarrow>
          (let l = \<lparr>lp_ID = lp_seq d, lp_Path = p, lp_Enabled = True, lp_LastScannedAt = None,
                    lp_CreatedAt = now\<rparr>
           in Inr (l, d'\<lparr>t_library_path := t_library_path d @ [l]\<rparr>)))"

definition ListLibraryPaths :: "(LibraryPath list, 'j, 'c) stmt" where
  "ListLibraryPaths now d = Inr (sort_by (\<lambda>a b. lp_ID a < lp_ID b) (t_library_path d), d)"

text \<open>The result tells whether a row was deleted; the caller reports \<^verbatim>\<open>ErrNotFound\<close> if not.\<close>

definition DeleteLibraryPath :: "int \<Rightarrow> (bool, 'j, 'c) stmt" where
  "DeleteLibraryPath i now d =
     (if list_ex (\<lambda>l. lp_ID l = i) (t_library_path d) then Inr (True, cascade_library i d)
      else Inr (False, d))"

definition MarkLibraryScanned :: "int \<Rightarrow> (unit, 'j, 'c) stmt" where
  "MarkLibraryScanned i now d =
     Inr ((), d\<lparr>t_library_path := map (\<lambda>l. if lp_ID l = i then l\<lparr>lp_LastScannedAt := Some now\<rparr> else l)
       (t_library_path d)\<rparr>)"


section \<open>scan\_event.go\<close>

definition InsertScanEvent :: "int option \<Rightarrow> (int, 'j, 'c) stmt" where
  "InsertScanEvent lib now d =
     (if (\<exists>i\<in>set_option lib. \<not> list_ex (\<lambda>l. lp_ID l = i) (t_library_path d))
      then Inl ForeignKeyViolation
      else Inr (se_seq d, d\<lparr>se_seq := se_seq d + 1, t_scan_event := t_scan_event d @
        [\<lparr>se_ID = se_seq d, se_LibraryPathID = lib, se_StartedAt = now, se_FinishedAt = None,
          se_BooksAdded = 0, se_BooksChanged = 0, se_BooksDeleted = 0, se_ErrorText = None\<rparr>]\<rparr>))"

definition FinishScanEvent :: "int \<Rightarrow> int \<Rightarrow> int \<Rightarrow> int \<Rightarrow> string \<Rightarrow> (unit, 'j, 'c) stmt" where
  "FinishScanEvent i added changed deleted errText now d =
     Inr ((), d\<lparr>t_scan_event := map (\<lambda>e. if se_ID e = i
       then e\<lparr>se_FinishedAt := Some now, se_BooksAdded := added, se_BooksChanged := changed,
              se_BooksDeleted := deleted,
              se_ErrorText := (if errText = [] then None else Some errText)\<rparr>
       else e) (t_scan_event d)\<rparr>)"

definition ListRecentScanEvents :: "int \<Rightarrow> (ScanEvent list, 'j, 'c) stmt" where
  "ListRecentScanEvents limit now d =
     (let n = (if limit \<le> 0 \<or> limit > 500 then 50 else limit) in
      Inr (take (nat n) (sort_by (\<lambda>a b. se_StartedAt a > se_StartedAt b) (t_scan_event d)), d))"

text \<open>0 stands for no unfinished scan.\<close>

definition HasInFlightScan :: "int option \<Rightarrow> (int, 'j, 'c) stmt" where
  "HasInFlightScan lib now d =
     (case sort_by (\<lambda>a b. se_StartedAt a > se_StartedAt b)
             (filter (\<lambda>e. se_FinishedAt e = None \<and> (lib = None \<or> se_LibraryPathID e = lib))
               (t_scan_event d)) of
        [] \<Rightarrow> Inr (0, d)
      | e # _ \<Rightarrow> Inr (se_ID e, d))"


section \<open>metadata.go\<close>

text \<open>\<^verbatim>\<open>metadata.AudiobookRow\<close> (applymatch.go): the columns enrichment reads and writes.\<close>

record AudiobookRow =
  ar_ID :: string
  ar_Title :: string
  ar_Author :: string
  ar_Narrator :: string
  ar_Description :: string
  ar_Year :: string
  ar_Genre :: string
  ar_ISBN :: string
  ar_ASIN :: string
  ar_DurationMS :: int

definition write_row :: "AudiobookRow \<Rightarrow> time \<Rightarrow> Audiobook \<Rightarrow> Audiobook" where
  "write_row r now a = a\<lparr>
     ab_Title := ar_Title r, ab_Author := ar_Author r, ab_Narrator := ar_Narrator r,
     ab_Description := ar_Description r, ab_Year := ar_Year r, ab_Genre := ar_Genre r,
     ab_ISBN := ar_ISBN r, ab_ASIN := ar_ASIN r, ab_DurationMs := ar_DurationMS r,
     ab_UpdatedAt := now\<rparr>"

definition UpdateAudiobookMetadata :: "AudiobookRow \<Rightarrow> (unit, 'j, 'c) stmt" where
  "UpdateAudiobookMetadata r now d =
     Inr ((), d\<lparr>t_audiobook :=
       map (\<lambda>a. if ab_ID a = ar_ID r then write_row r now a else a) (t_audiobook d)\<rparr>)"

definition read_row :: "Audiobook \<Rightarrow> AudiobookRow" where
  "read_row a = \<lparr>ar_ID = ab_ID a, ar_Title = ab_Title a, ar_Author = ab_Author a,
     ar_Narrator = ab_Narrator a, ar_Description = ab_Description a, ar_Year = ab_Year a,
     ar_Genre = ab_Genre a, ar_ISBN = ab_ISBN a, ar_ASIN = ab_ASIN a,
     ar_DurationMS = ab_DurationMs a\<rparr>"

definition LoadAudiobookRow :: "string \<Rightarrow> (AudiobookRow, 'j, 'c) stmt" where
  "LoadAudiobookRow i now d =
     (case find (\<lambda>a. ab_ID a = i) (t_audiobook d) of
        None \<Rightarrow> Inl NoRows
      | Some a \<Rightarrow> Inr (read_row a, d))"

text \<open>Defaults of an inserted job, and the reset an existing one gets.\<close>

definition new_job :: "string \<Rightarrow> time \<Rightarrow> EnrichmentJob" where
  "new_job i now = \<lparr>jb_AudiobookID = i, jb_Status = Pending, jb_Attempts = 0, jb_RunAfter = now,
     jb_LastError = [], jb_EnqueuedAt = now, jb_FinishedAt = None\<rparr>"

definition rearm :: "time \<Rightarrow> EnrichmentJob \<Rightarrow> EnrichmentJob" where
  "rearm now j = j\<lparr>jb_Status := Pending, jb_Attempts := 0, jb_RunAfter := now, jb_LastError := [],
     jb_FinishedAt := None\<rparr>"

definition BulkEnqueueBackfill :: "(nat, 'j, 'c) stmt" where
  "BulkEnqueueBackfill now d =
     (let ids = map ab_ID (filter (\<lambda>a. \<not> ab_Deleted a) (t_audiobook d));
          have_job = (\<lambda>i. list_ex (\<lambda>j. jb_AudiobookID j = i) (t_job d))
      in Inr (length ids, d\<lparr>t_job :=
           map (\<lambda>j. if jb_AudiobookID j \<in> set ids then rearm now j else j) (t_job d) @
           map (\<lambda>i. new_job i now) (filter (\<lambda>i. \<not> have_job i) ids)\<rparr>))"

definition ListPendingBackfill :: "(string list, 'j, 'c) stmt" where
  "ListPendingBackfill now d =
     Inr (map ab_ID (filter (\<lambda>a. \<not> ab_Deleted a \<and>
            \<not> list_ex (\<lambda>j. jb_AudiobookID j = ab_ID a) (t_job d)) (t_audiobook d)), d)"


section \<open>Every statement keeps the constraints\<close>

lemmas stmt_defs [store_defs] =
  UpsertAudiobook_def GetAudiobook_def ListAudiobookRefsByLibrary_def SoftDeleteAudiobook_def
  ReplaceChapters_def ListChapters_def UpsertCover_def GetCover_def UpsertLibraryPath_def
  ListLibraryPaths_def DeleteLibraryPath_def MarkLibraryScanned_def InsertScanEvent_def
  FinishScanEvent_def ListRecentScanEvents_def HasInFlightScan_def UpdateAudiobookMetadata_def
  LoadAudiobookRow_def BulkEnqueueBackfill_def ListPendingBackfill_def

text \<open>
  Rewriting the rows of the book table in place keeps every constraint, as long as ids, library and
  path stay and the timestamps are the server's.
\<close>

lemma map_audiobooks_inv:
  assumes "db_inv d"
    and "\<And>a. ab_ID (f a) = ab_ID a" and "\<And>a. path_key (f a) = path_key a"
    and "\<And>a. ab_CreatedAt a mod 1000 = 0 \<Longrightarrow> ab_CreatedAt (f a) mod 1000 = 0"
    and "\<And>a. ab_UpdatedAt a mod 1000 = 0 \<Longrightarrow> ab_UpdatedAt (f a) mod 1000 = 0"
  shows "db_inv (d\<lparr>t_audiobook := map f (t_audiobook d)\<rparr>)"
proof -
  have lib: "ab_LibraryPathID (f a) = ab_LibraryPathID a" for a
    using assms(3) [of a] by (simp add: path_key_def)
  have ids: "audiobook_ids (d\<lparr>t_audiobook := map f (t_audiobook d)\<rparr>) = audiobook_ids d"
    by (simp add: audiobook_ids_def image_image assms(2))
  show ?thesis
    using assms(1,4,5) by (simp add: table_defs comp_def lib assms(2,3) ids)
qed

lemma reingest_keeps [simp]:
  "ab_ID (reingest a now r) = ab_ID r" "path_key (reingest a now r) = path_key r"
  "ab_LibraryPathID (reingest a now r) = ab_LibraryPathID r" "ab_Path (reingest a now r) = ab_Path r"
  "ab_CreatedAt (reingest a now r) = ab_CreatedAt r" "ab_UpdatedAt (reingest a now r) = now"
  "\<not> ab_Deleted (reingest a now r)" "ab_ContentSig (reingest a now r) = ab_ContentSig a"
  by (simp_all add: reingest_def path_key_def)

lemma fresh_row_keeps [simp]:
  "ab_ID (fresh_row a now) = ab_ID a" "path_key (fresh_row a now) = path_key a"
  "ab_LibraryPathID (fresh_row a now) = ab_LibraryPathID a" "ab_Path (fresh_row a now) = ab_Path a"
  "ab_CreatedAt (fresh_row a now) = now" "ab_UpdatedAt (fresh_row a now) = now"
  "ab_Deleted (fresh_row a now) = ab_Deleted a" "ab_ContentSig (fresh_row a now) = ab_ContentSig a"
  by (simp_all add: fresh_row_def path_key_def)

lemma write_row_keeps [simp]:
  "ab_ID (write_row r now a) = ab_ID a" "path_key (write_row r now a) = path_key a"
  "ab_Path (write_row r now a) = ab_Path a" "ab_Deleted (write_row r now a) = ab_Deleted a"
  "ab_LibraryPathID (write_row r now a) = ab_LibraryPathID a"
  "ab_CreatedAt (write_row r now a) = ab_CreatedAt a" "ab_UpdatedAt (write_row r now a) = now"
  by (simp_all add: write_row_def path_key_def)

lemma UpsertAudiobook_inv: "keeps_inv (UpsertAudiobook a)"
proof (rule keeps_invI)
  fix now r and d d' :: "('a, 'b) db"
  assume now: "now mod 1000 = 0" and up: "UpsertAudiobook a now d = Inr (r, d')" and inv: "db_inv d"
  show "db_inv d'"
  proof (cases "list_ex (same_path a) (t_audiobook d)")
    case True
    with up have "d' = d\<lparr>t_audiobook :=
        map (\<lambda>r. if same_path a r then reingest a now r else r) (t_audiobook d)\<rparr>"
      by (simp add: UpsertAudiobook_def)
    then show ?thesis
      using map_audiobooks_inv [OF inv, of "\<lambda>r. if same_path a r then reingest a now r else r"] now
      by simp
  next
    case False
    with up have d': "d' = d\<lparr>t_audiobook := t_audiobook d @ [fresh_row a now]\<rparr>"
      and new: "ab_ID a \<notin> audiobook_ids d" "ab_LibraryPathID a \<in> library_ids d"
      by (force simp: UpsertAudiobook_def audiobook_ids_def library_ids_def list_ex_iff split: if_splits)+
    from False have "path_key a \<notin> path_key ` set (t_audiobook d)"
      by (auto simp: list_ex_iff same_path_def)
    with inv new now show ?thesis
      unfolding d' by (auto simp: table_defs audiobook_ids_def)
  qed
qed

lemma SoftDeleteAudiobook_inv: "keeps_inv (SoftDeleteAudiobook i)"
  by (rule keeps_invI)
    (auto simp: SoftDeleteAudiobook_def path_key_def intro!: map_audiobooks_inv)

lemma UpdateAudiobookMetadata_inv: "keeps_inv (UpdateAudiobookMetadata r)"
  by (rule keeps_invI) (auto simp: UpdateAudiobookMetadata_def intro!: map_audiobooks_inv)

lemma insert_chapters_inv:
  "insert_chapters i cs d = Inr d' \<Longrightarrow> db_inv d \<Longrightarrow> db_inv d'"
proof (induction i cs d rule: insert_chapters.induct)
  case (2 i c cs d)
  then have "ch_AudiobookID (c\<lparr>ch_AudiobookID := i\<rparr>) \<in> audiobook_ids d"
    and "(i, ch_Idx c) \<notin> (\<lambda>c. (ch_AudiobookID c, ch_Idx c)) ` set (t_chapter d)"
    by (auto simp: list_ex_iff audiobook_ids_def split: if_splits)
  with "2.prems"(2) have "db_inv (d\<lparr>t_chapter := t_chapter d @ [c\<lparr>ch_AudiobookID := i\<rparr>]\<rparr>)"
    by (auto simp: table_defs)
  with 2 show ?case by (auto split: if_splits)
qed simp

lemma filter_chapters_inv: "db_inv d \<Longrightarrow> db_inv (d\<lparr>t_chapter := filter P (t_chapter d)\<rparr>)"
  by (auto simp: table_defs distinct_map_filter')

lemma ReplaceChapters_inv: "keeps_inv (ReplaceChapters i cs)"
proof (rule keeps_invI)
  fix now r and d d' :: "('a, 'b) db"
  assume "ReplaceChapters i cs now d = Inr (r, d')" and inv: "db_inv d"
  then have "insert_chapters i cs (d\<lparr>t_chapter := filter (\<lambda>c. ch_AudiobookID c \<noteq> i) (t_chapter d)\<rparr>) = Inr d'"
    by (cases "insert_chapters i cs (d\<lparr>t_chapter := filter (\<lambda>c. ch_AudiobookID c \<noteq> i) (t_chapter d)\<rparr>)")
      (auto simp: ReplaceChapters_def)
  then show "db_inv d'"
    by (rule insert_chapters_inv) (rule filter_chapters_inv [OF inv])
qed

lemma map_covers_inv:
  assumes "db_inv d" and "\<And>c. cv_AudiobookID (f c) = cv_AudiobookID c"
    and "\<And>c. cv_Source c = ''embedded'' \<or> cv_Source c = ''sidecar'' \<Longrightarrow>
           cv_Source (f c) = ''embedded'' \<or> cv_Source (f c) = ''sidecar''"
  shows "db_inv (d\<lparr>t_cover := map f (t_cover d)\<rparr>)"
  using assms by (intro one_table_inv) (auto simp: db_inv_def cover_ok_def comp_def)

lemma UpsertCover_inv: "keeps_inv (UpsertCover c)"
proof (rule keeps_invI)
  fix now r and d d' :: "('a, 'b) db"
  assume up: "UpsertCover c now d = Inr (r, d')" and inv: "db_inv d"
  have src: "cv_Source c = ''embedded'' \<or> cv_Source c = ''sidecar''"
    using up by (auto simp: UpsertCover_def split: if_splits)
  show "db_inv d'"
  proof (cases "list_ex (\<lambda>x. cv_AudiobookID x = cv_AudiobookID c) (t_cover d)")
    case True
    let ?f = "\<lambda>x. if cv_AudiobookID x = cv_AudiobookID c
      then x\<lparr>cv_ContentType := cv_ContentType c, cv_Bytes := cv_Bytes c, cv_Source := cv_Source c\<rparr> else x"
    from True up src have "d' = d\<lparr>t_cover := map ?f (t_cover d)\<rparr>"
      by (auto simp: UpsertCover_def)
    then show ?thesis
      using map_covers_inv [OF inv, of ?f] src by simp
  next
    case False
    with up src have "d' = d\<lparr>t_cover := t_cover d @ [c]\<rparr>" and "cv_AudiobookID c \<in> audiobook_ids d"
      by (auto simp: UpsertCover_def audiobook_ids_def list_ex_iff image_iff split: if_splits)
        (metis+)?
    moreover from this False inv src have "cover_ok (d\<lparr>t_cover := t_cover d @ [c]\<rparr>)"
      by (auto simp: db_inv_def cover_ok_def list_ex_iff)
    ultimately show ?thesis
      using one_table_inv(2) [OF inv] by simp
  qed
qed

lemma UpsertLibraryPath_inv: "keeps_inv (UpsertLibraryPath p)"
proof (rule keeps_invI)
  fix now r and d d' :: "('a, 'b) db"
  assume up: "UpsertLibraryPath p now d = Inr (r, d')" and inv: "db_inv d"
  show "db_inv d'"
  proof (cases "find (\<lambda>l. lp_Path l = p) (t_library_path d)")
    case None
    with up obtain l where d': "d' = d\<lparr>lp_seq := lp_seq d + 1, t_library_path := t_library_path d @ [l]\<rparr>"
      and l: "lp_ID l = lp_seq d" "lp_Path l = p"
      by (auto simp: UpsertLibraryPath_def Let_def)
    then have "library_ids d' = insert (lp_seq d) (library_ids d)"
      and "audiobook_ids d' = audiobook_ids d"
      by (simp_all add: library_ids_def audiobook_ids_def)
    with None l inv d' show ?thesis
      by (fastforce simp: table_defs)
  next
    case (Some l)
    with up have "d' = d\<lparr>lp_seq := lp_seq d + 1\<rparr>"
      by (simp add: UpsertLibraryPath_def Let_def)
    with inv show ?thesis by (fastforce simp: table_defs)
  qed
qed

lemma DeleteLibraryPath_inv: "keeps_inv (DeleteLibraryPath i)"
  by (rule keeps_invI) (auto simp: DeleteLibraryPath_def cascade_library_inv split: if_splits)

lemma map_library_paths_inv:
  assumes "db_inv d" and "\<And>l. lp_ID (f l) = lp_ID l" and "\<And>l. lp_Path (f l) = lp_Path l"
  shows "db_inv (d\<lparr>t_library_path := map f (t_library_path d)\<rparr>)"
proof -
  have "library_ids (d\<lparr>t_library_path := map f (t_library_path d)\<rparr>) = library_ids d"
    by (simp add: library_ids_def image_image assms(2))
  with assms show ?thesis by (simp add: table_defs comp_def)
qed

lemma MarkLibraryScanned_inv: "keeps_inv (MarkLibraryScanned i)"
  by (rule keeps_invI) (auto simp: MarkLibraryScanned_def intro!: map_library_paths_inv)

lemma InsertScanEvent_inv: "keeps_inv (InsertScanEvent lib)"
proof (rule keeps_invI)
  fix now r and d d' :: "('a, 'b) db"
  assume ins: "InsertScanEvent lib now d = Inr (r, d')" and inv: "db_inv d"
  then have lib: "set_option lib \<subseteq> library_ids d"
    by (force simp: InsertScanEvent_def list_ex_iff library_ids_def split: if_splits)
  obtain e where d': "d' = d\<lparr>se_seq := se_seq d + 1, t_scan_event := t_scan_event d @ [e]\<rparr>"
    and e: "se_ID e = se_seq d" "se_LibraryPathID e = lib"
    using ins by (auto simp: InsertScanEvent_def split: if_splits)
  have "scan_event_ok d'"
    using inv lib e unfolding d' db_inv_def scan_event_ok_def by fastforce
  with inv show "db_inv d'"
    unfolding d' by (simp add: table_defs)
qed

lemma map_scan_events_inv:
  assumes "db_inv d" and "\<And>e. se_ID (f e) = se_ID e"
    and "\<And>e. se_LibraryPathID (f e) = se_LibraryPathID e"
  shows "db_inv (d\<lparr>t_scan_event := map f (t_scan_event d)\<rparr>)"
  using assms by (simp add: table_defs comp_def)

lemma FinishScanEvent_inv: "keeps_inv (FinishScanEvent i a c del e)"
  by (rule keeps_invI) (auto simp: FinishScanEvent_def intro!: map_scan_events_inv)

lemma rearm_id [simp]: "jb_AudiobookID (rearm now j) = jb_AudiobookID j"
  by (simp add: rearm_def)

lemma new_job_id [simp]: "jb_AudiobookID (new_job i now) = i"
  by (simp add: new_job_def)

text \<open>Rewriting jobs in place keeps the constraints, as long as the jobs keep their books.\<close>

lemma map_jobs_inv:
  assumes "db_inv d" and "\<And>j. jb_AudiobookID (f j) = jb_AudiobookID j"
  shows "db_inv (d\<lparr>t_job := map f (t_job d)\<rparr>)"
  using assms by (auto simp: table_defs comp_def)

lemma add_jobs_inv:
  assumes "db_inv d" and "distinct (map jb_AudiobookID js)"
    and "\<And>j. j \<in> set js \<Longrightarrow> jb_AudiobookID j \<in> audiobook_ids d - jb_AudiobookID ` set (t_job d)"
  shows "db_inv (d\<lparr>t_job := t_job d @ js\<rparr>)"
proof (rule one_table_inv(3) [OF assms(1)])
  show "job_ok (d\<lparr>t_job := t_job d @ js\<rparr>)"
    using assms(1,2) unfolding db_inv_def job_ok_def
    by (auto dest: assms(3)) (metis DiffD2 assms(3) image_eqI)
qed

lemma BulkEnqueueBackfill_inv: "keeps_inv BulkEnqueueBackfill"
proof (rule keeps_invI)
  fix now and r :: nat and d d' :: "('a, 'b) db"
  let ?ids = "map ab_ID (filter (\<lambda>a. \<not> ab_Deleted a) (t_audiobook d))"
  let ?d = "d\<lparr>t_job := map (\<lambda>j. if jb_AudiobookID j \<in> set ?ids then rearm now j else j) (t_job d)\<rparr>"
  let ?js = "map (\<lambda>i. new_job i now)
    (filter (\<lambda>i. \<not> list_ex (\<lambda>j. jb_AudiobookID j = i) (t_job d)) ?ids)"
  assume "BulkEnqueueBackfill now d = Inr (r, d')" and inv: "db_inv d"
  then have d': "d' = ?d\<lparr>t_job := t_job ?d @ ?js\<rparr>"
    by (simp add: BulkEnqueueBackfill_def Let_def)
  have "distinct (map ab_ID (t_audiobook d))"
    using inv by (simp add: db_inv_def audiobook_ok_def)
  then have ids: "distinct ?ids"
    by (rule distinct_map_filter')
  show "db_inv d'"
    unfolding d'
  proof (rule add_jobs_inv)
    show "db_inv ?d" by (rule map_jobs_inv [OF inv]) simp
    show "distinct (map jb_AudiobookID ?js)"
      using ids by (simp add: comp_def)
  qed (auto simp: audiobook_ids_def list_ex_iff)
qed


section \<open>A small library\<close>

text \<open>Three books, one of them in a disabled path, for the concrete instances of the theorems.\<close>

definition sample_book :: "string \<Rightarrow> int \<Rightarrow> string \<Rightarrow> string \<Rightarrow> string \<Rightarrow> Audiobook" where
  "sample_book i lib path title author = \<lparr>ab_ID = i, ab_LibraryPathID = lib, ab_Path = path,
     ab_FileSize = 10, ab_MTime = 0, ab_Title = title, ab_Author = author, ab_Narrator = [],
     ab_Album = [], ab_Year = [], ab_Genre = ''Fiction'', ab_ISBN = [], ab_ASIN = [],
     ab_Description = [], ab_DurationMs = 1000, ab_Deleted = False, ab_DeletedAt = None,
     ab_ScannedAt = 0, ab_CreatedAt = 5000, ab_UpdatedAt = 7000, ab_ContentSig = i\<rparr>"

definition sample_db :: "('j, 'c) db" where
  "sample_db = empty_db\<lparr>
     t_library_path := [
       \<lparr>lp_ID = 1, lp_Path = ''/m/one'', lp_Enabled = True, lp_LastScannedAt = None, lp_CreatedAt = 0\<rparr>,
       \<lparr>lp_ID = 2, lp_Path = ''/m/two'', lp_Enabled = False, lp_LastScannedAt = None, lp_CreatedAt = 0\<rparr>],
     t_audiobook := [
       sample_book ''b2'' 1 ''/m/one/b.m4b'' ''Beta'' ''Ann'',
       sample_book ''a1'' 1 ''/m/one/a.mp3'' ''Alpha'' ''Ann'',
       sample_book ''c3'' 2 ''/m/two/c.m4b'' ''Gamma'' ''Bob''],
     t_cover := [\<lparr>cv_AudiobookID = ''a1'', cv_ContentType = ''image/png'', cv_Bytes = ''img'',
       cv_Source = ''embedded''\<rparr>],
     lp_seq := 3\<rparr>"

lemma sample_db_inv: "db_inv sample_db"
  by (simp add: db_inv_def constraint_defs sample_db_def sample_book_def empty_db_def path_key_def)

end
