(* ===== verification/Floats.thy ===== *)
theory Floats
  imports Complex_Main
begin

text \<open>
  The \<^verbatim>\<open>float64\<close> arithmetic the program does, on non-negative numbers of ordinary size: every operation
  is the exact rational result rounded to 53 significant bits, ties to even (IEEE 754, Go's
  specification). \<open>fl\<close> is the rounding. Overflow, underflow and negative numbers do not occur where it
  is used.
\<close>

section \<open>Rounding\<close>

text \<open>The exponent \<open>e\<close> with \<open>2 ^ e \<le> x < 2 ^ (e + 1)\<close>.\<close>

function binexp :: "rat \<Rightarrow> int" where
  "binexp x =
     (if x \<le> 0 then 0
      else if x < 1 then binexp (2 * x) - 1
      else if x \<ge> 2 then binexp (x / 2) + 1
      else 0)"
  by pat_completeness auto
termination
proof (relation "measure (\<lambda>x. if x < 1 then 1 + nat \<lceil>1 / x\<rceil> else if x \<ge> 2 then 1 + nat \<lceil>x\<rceil> else 0)",
    goal_cases)
  case (2 x)
  have "1 / (2 * x) + 1 \<le> 1 / x" if "2 * x < 1"
    using 2 that by (simp add: field_simps)
  then have "\<lceil>1 / (2 * x)\<rceil> < \<lceil>1 / x\<rceil>" if "2 * x < 1"
    using that by linarith
  moreover have "0 < \<lceil>1 / (2 * x)\<rceil>" using 2 by simp
  ultimately show ?case using 2 by auto
next
  case (3 x)
  then have "x / 2 + 1 \<le> x" by simp
  then have "\<lceil>x / 2\<rceil> < \<lceil>x\<rceil>" by linarith
  moreover have "0 < \<lceil>x / 2\<rceil>" using 3 by simp
  ultimately show ?case using 3 by auto
qed simp

declare binexp.simps [simp del]

lemma binexp_bounds: "0 < x \<Longrightarrow> 2 powi binexp x \<le> x \<and> x < 2 powi (binexp x + 1)"
proof (induction x rule: binexp.induct)
  case (1 x)
  consider "x < 1" | "1 \<le> x" "x < 2" | "2 \<le> x" by linarith
  then show ?case
  proof cases
    case 1
    with "1.IH"(1) "1.prems" have IH: "2 powi binexp (2 * x) \<le> 2 * x" "2 * x < 2 powi (binexp (2 * x) + 1)"
      by auto
    have "binexp x = binexp (2 * x) - 1"
      using 1 "1.prems" by (subst binexp.simps) simp
    with IH show ?thesis by (simp add: power_int_diff power_int_add)
  next
    case 2
    then have "binexp x = 0" by (subst binexp.simps) simp
    with 2 show ?thesis by simp
  next
    case 3
    with "1.IH"(2) "1.prems" have IH: "2 powi binexp (x / 2) \<le> x / 2" "x / 2 < 2 powi (binexp (x / 2) + 1)"
      by auto
    have "binexp x = binexp (x / 2) + 1"
      using 3 by (subst binexp.simps) simp
    with IH show ?thesis by (simp add: power_int_add)
  qed
qed

definition round_even :: "rat \<Rightarrow> int" where
  "round_even z =
     (let n = \<lfloor>z\<rfloor>; r = z - of_int n in
      if r < 1 / 2 then n
      else if r > 1 / 2 then n + 1
      else if even n then n else n + 1)"

definition fl :: "rat \<Rightarrow> rat" where
  "fl x =
     (if x \<le> 0 then 0
      else let e = binexp x - 52 in of_int (round_even (x / 2 powi e)) * 2 powi e)"

text \<open>\<^verbatim>\<open>int(f)\<close> of a non-negative \<^verbatim>\<open>float64\<close> truncates.\<close>

definition go_int :: "rat \<Rightarrow> int" where
  "go_int x = \<lfloor>x\<rfloor>"

lemma round_even_of_int [simp]: "round_even (of_int n) = n"
  by (simp add: round_even_def)

lemma round_even_mono_int:
  "z \<le> of_int n \<Longrightarrow> round_even z \<le> n" "of_int n \<le> z \<Longrightarrow> n \<le> round_even z"
proof -
  assume le: "z \<le> of_int n"
  show "round_even z \<le> n"
  proof (cases "z = of_int n")
    case False
    with le have "z < of_int n" by simp
    then have "\<lfloor>z\<rfloor> < n" by (simp add: floor_less_iff)
    then show ?thesis by (auto simp: round_even_def Let_def)
  qed simp
next
  assume "of_int n \<le> z"
  then have "n \<le> \<lfloor>z\<rfloor>" by (simp add: le_floor_iff)
  then show "n \<le> round_even z" by (auto simp: round_even_def Let_def)
qed

lemma fl_nonneg [simp]: "0 \<le> fl x"
proof (cases "x \<le> 0")
  case False
  then have "0 \<le> round_even (x / 2 powi (binexp x - 52))"
    by (intro round_even_mono_int(2)) simp
  with False show ?thesis by (simp add: fl_def Let_def)
qed (simp add: fl_def)

text \<open>Half-integers below \<open>2 ^ 52\<close> are exact, and rounding does not cross them.\<close>

lemma half_scaled:
  assumes "0 < x" and "x < 2 ^ 52"
  obtains m where "of_int k / 2 = (of_int m * 2 powi (binexp x - 52) :: rat)"
proof -
  have "(2 :: rat) ^ 52 \<le> 2 powi binexp x" if "52 \<le> binexp x"
    using power_int_increasing [OF that, of "2 :: rat"] by simp
  with binexp_bounds [OF assms(1)] assms(2) have "binexp x < 52" by force
  define j where "j = nat (51 - binexp x)"
  with \<open>binexp x < 52\<close> have j: "binexp x - 52 = - int j - 1" by simp
  have "of_int k / (2 :: rat) = of_int (k * 2 ^ j) * 2 powi (- int j - 1)"
    by (simp add: power_int_diff power_int_minus field_simps)
  with that [of "k * 2 ^ j"] show thesis by (simp add: j)
qed

lemma fl_le_half:
  assumes "x \<le> of_int k / 2" and "x < 2 ^ 52" and "0 \<le> k"
  shows "fl x \<le> of_int k / 2"
proof (cases "x \<le> 0")
  case False
  then have "0 < x" by simp
  then obtain m where m: "of_int k / 2 = (of_int m * 2 powi (binexp x - 52) :: rat)"
    by (rule half_scaled [OF _ assms(2)])
  have "x \<le> of_int m * 2 powi (binexp x - 52)"
    using assms(1) by (simp only: m)
  then have "x / 2 powi (binexp x - 52) \<le> of_int m"
    by (simp add: divide_le_eq)
  then have "round_even (x / 2 powi (binexp x - 52)) \<le> m"
    by (rule round_even_mono_int)
  with False show ?thesis
    unfolding m by (simp add: fl_def Let_def)
qed (use assms(3) in \<open>simp add: fl_def\<close>)

lemma fl_ge_half:
  assumes "of_int k / 2 \<le> x" and "x < 2 ^ 52" and "0 < x"
  shows "of_int k / 2 \<le> fl x"
proof -
  obtain m where m: "of_int k / 2 = (of_int m * 2 powi (binexp x - 52) :: rat)"
    by (rule half_scaled [OF assms(3,2)])
  have "of_int m * 2 powi (binexp x - 52) \<le> x"
    using assms(1) by (simp only: m)
  then have "of_int m \<le> x / 2 powi (binexp x - 52)"
    by (simp add: le_divide_eq)
  then have "m \<le> round_even (x / 2 powi (binexp x - 52))"
    by (rule round_even_mono_int)
  with assms(3) show ?thesis
    unfolding m by (simp add: fl_def Let_def)
qed

lemma fl_le_int: "x \<le> of_int k \<Longrightarrow> x < 2 ^ 52 \<Longrightarrow> 0 \<le> k \<Longrightarrow> fl x \<le> of_int k"
  using fl_le_half [of x "2 * k"] by simp

lemma fl_of_int: "0 \<le> k \<Longrightarrow> k < 2 ^ 52 \<Longrightarrow> fl (of_int k) = of_int k"
proof (cases "k = 0")
  case False
  assume "0 \<le> k" "k < 2 ^ 52"
  then have "(of_int k :: rat) < 2 ^ 52"
    by (metis of_int_less_iff of_int_numeral of_int_power)
  with False \<open>0 \<le> k\<close> show ?thesis
    using fl_le_half [of "of_int k" "2 * k"] fl_ge_half [of "2 * k" "of_int k"] by simp
qed (simp add: fl_def)

text \<open>The relative error of one rounding.\<close>

lemma round_even_error: "of_int (round_even z) \<le> z + 1 / 2"
proof -
  have "round_even z = \<lfloor>z\<rfloor> \<or> (round_even z = \<lfloor>z\<rfloor> + 1 \<and> 1 / 2 \<le> z - of_int \<lfloor>z\<rfloor>)"
    by (simp add: round_even_def Let_def)
  then show ?thesis
    using of_int_floor_le [of z] by (elim disjE conjE; simp only: of_int_add of_int_1; linarith)
qed

lemma fl_error: "0 < x \<Longrightarrow> fl x \<le> x * (1 + 1 / 2 ^ 53)"
proof -
  assume x: "0 < x"
  let ?u = "2 powi (binexp x - 52) :: rat"
  have "fl x \<le> (x / ?u + 1 / 2) * ?u"
    using x round_even_error [of "x / ?u"] by (simp add: fl_def Let_def)
  also have "\<dots> = x + ?u / 2" by (simp add: field_simps)
  also have "?u / 2 = 2 powi binexp x / 2 ^ 53"
    by (simp add: power_int_diff)
  also have "2 powi binexp x / 2 ^ 53 \<le> x / 2 ^ 53"
    using binexp_bounds [OF x] by (simp add: divide_right_mono)
  finally show ?thesis by (simp add: algebra_simps)
qed

text \<open>Rounding of a number of either sign.\<close>

definition sfl :: "rat \<Rightarrow> rat" where
  "sfl x = (if x < 0 then - fl (- x) else fl x)"

lemma sfl_nonneg [simp]: "0 \<le> x \<Longrightarrow> sfl x = fl x"
  by (simp add: sfl_def)

end
