(* ===== verification/Metadata.thy ===== *)
theory Metadata
  imports Store Floats
begin

text \<open>
  The source-agnostic part of \<^verbatim>\<open>internal/metadata\<close>: candidates (\<^verbatim>\<open>types.go\<close>), external ids
  (\<^verbatim>\<open>externalid.go\<close>), the confidence formula (\<^verbatim>\<open>confidence.go\<close>) with its \<^verbatim>\<open>float64\<close> divisions, and
  merging a candidate into a book (\<^verbatim>\<open>applymatch.go\<close>).
\<close>


section \<open>types.go\<close>

record CandidateChapter =
  cc_Title :: string
  cc_StartMS :: int
  cc_EndMS :: int

record Candidate =
  cd_Source :: string
  cd_ExternalID :: string
  cd_Title :: string
  cd_Authors :: "string list"
  cd_Narrators :: "string list"
  cd_Description :: string
  cd_ASIN :: string
  cd_ISBN :: string
  cd_CoverURL :: string
  cd_PublishedAt :: string
  cd_Publisher :: string
  cd_Language :: string
  cd_Genres :: "string list"
  cd_RuntimeMin :: int
  cd_Series :: string
  cd_SeriesPos :: string
  cd_Chapters :: "CandidateChapter list"
  cd_Region :: string
  cd_Raw :: bytes

definition zero_candidate :: Candidate where
  "zero_candidate = \<lparr>cd_Source = [], cd_ExternalID = [], cd_Title = [], cd_Authors = [],
     cd_Narrators = [], cd_Description = [], cd_ASIN = [], cd_ISBN = [], cd_CoverURL = [],
     cd_PublishedAt = [], cd_Publisher = [], cd_Language = [], cd_Genres = [], cd_RuntimeMin = 0,
     cd_Series = [], cd_SeriesPos = [], cd_Chapters = [], cd_Region = [], cd_Raw = []\<rparr>"

record Match =
  mt_Source :: string
  mt_Confidence :: int
  mt_Candidate :: Candidate


section \<open>externalid.go\<close>

definition FormatExternalID :: "string \<Rightarrow> string \<Rightarrow> string" where
  "FormatExternalID source nativeID = source @ '':'' @ nativeID"

text \<open>\<^verbatim>\<open>None\<close> is \<^verbatim>\<open>ErrBadExternalID\<close>.\<close>

definition ParseExternalID :: "string \<Rightarrow> (string \<times> string) option" where
  "ParseExternalID i =
     (case IndexByte i (CHR '':'') of
        None \<Rightarrow> None
      | Some k \<Rightarrow>
          if k \<le> 0 \<or> Suc k = length i then None else Some (take k i, drop (k + 1) i))"


section \<open>confidence.go\<close>

text \<open>
  \<^verbatim>\<open>int(float64(m) / float64(n) * w)\<close>: two roundings. The counts are lengths of slices, which
  \<^verbatim>\<open>float64\<close> holds exactly.
\<close>

definition weighted :: "nat \<Rightarrow> nat \<Rightarrow> nat \<Rightarrow> int" where
  "weighted m n w = go_int (fl (fl (of_nat m / of_nat n) * of_nat w))"

definition normalized :: "unicode \<Rightarrow> string \<Rightarrow> string" where
  "normalized u s = ToLower u (TrimSpace s)"

definition either_contains :: "string \<Rightarrow> string \<Rightarrow> bool" where
  "either_contains a b \<longleftrightarrow> Contains a b \<or> Contains b a"

definition titleScore :: "unicode \<Rightarrow> string \<Rightarrow> string \<Rightarrow> int" where
  "titleScore u query title =
     (let q = normalized u query; t = normalized u title in
      if q = t then 30
      else if either_contains t q then 22
      else let qw = Fields q; tw = Fields t in
           if length qw = 0 then 0
           else weighted (length (filter (\<lambda>w. \<exists>x\<in>set tw. either_contains x w) qw)) (length qw) 30)"

definition matchingNames :: "unicode \<Rightarrow> string list \<Rightarrow> string list \<Rightarrow> nat" where
  "matchingNames u original candidates =
     length (filter (\<lambda>o'. normalized u o' \<noteq> [] \<and>
       (\<exists>c\<in>set candidates. normalized u c \<noteq> [] \<and> either_contains (normalized u c) (normalized u o')))
       original)"

definition completenessScore :: "Candidate \<Rightarrow> int" where
  "completenessScore c =
     weighted (length (filter id [cd_Title c \<noteq> [], cd_Authors c \<noteq> [], cd_Narrators c \<noteq> [],
         cd_Description c \<noteq> [], cd_CoverURL c \<noteq> [], cd_ASIN c \<noteq> [] \<or> cd_ISBN c \<noteq> [],
         cd_Publisher c \<noteq> [], cd_Language c \<noteq> [], cd_RuntimeMin c > 0])) 9 5"

definition CalculateConfidence :: "unicode \<Rightarrow> string \<Rightarrow> Candidate \<Rightarrow> Candidate option \<Rightarrow> int" where
  "CalculateConfidence u query candidate original =
     (let title = (if cd_Title candidate \<noteq> [] \<and> query \<noteq> []
                   then titleScore u query (cd_Title candidate) else 0);
          asin = (case original of None \<Rightarrow> 0 | Some o' \<Rightarrow>
                    if cd_ASIN o' \<noteq> [] \<and> cd_ASIN candidate \<noteq> [] \<and>
                       EqualFold u (cd_ASIN o') (cd_ASIN candidate) then 35 else 0);
          author = (case original of None \<Rightarrow> 0 | Some o' \<Rightarrow>
                    if cd_Authors o' \<noteq> [] \<and> cd_Authors candidate \<noteq> []
                    then weighted (matchingNames u (cd_Authors o') (cd_Authors candidate))
                           (length (cd_Authors o')) 15 else 0);
          isbn = (case original of None \<Rightarrow> 0 | Some o' \<Rightarrow>
                    if cd_ISBN o' \<noteq> [] \<and> cd_ISBN candidate \<noteq> [] \<and>
                       cd_ISBN o' = cd_ISBN candidate then 15 else 0);
          narrator = (case original of None \<Rightarrow> 0 | Some o' \<Rightarrow>
                    if cd_Narrators o' \<noteq> [] \<and> cd_Narrators candidate \<noteq> []
                    then weighted (matchingNames u (cd_Narrators o') (cd_Narrators candidate))
                           (length (cd_Narrators o')) 10 else 0);
          score = title + asin + author + isbn + narrator + completenessScore candidate
      in if score > 100 then 100 else score)"


section \<open>applymatch.go\<close>

definition yearOf :: "string \<Rightarrow> string" where
  "yearOf s = (if length s \<ge> 4 then take 4 s else [])"

definition overwrite :: "string \<Rightarrow> string \<Rightarrow> string" where
  "overwrite old new = (if new \<noteq> [] then new else old)"

definition ApplyMatch :: "AudiobookRow \<Rightarrow> Candidate \<Rightarrow> AudiobookRow" where
  "ApplyMatch row c = row\<lparr>
     ar_Title := overwrite (ar_Title row) (cd_Title c),
     ar_Author := overwrite (ar_Author row) (Join (cd_Authors c) '', ''),
     ar_Narrator := overwrite (ar_Narrator row) (Join (cd_Narrators c) '', ''),
     ar_Description := overwrite (ar_Description row) (cd_Description c),
     ar_Year := overwrite (ar_Year row) (yearOf (cd_PublishedAt c)),
     ar_Genre := overwrite (ar_Genre row) (Join (cd_Genres c) '', ''),
     ar_ISBN := overwrite (ar_ISBN row) (cd_ISBN c),
     ar_ASIN := overwrite (ar_ASIN row) (cd_ASIN c),
     ar_DurationMS := (if cd_RuntimeMin c > 0 then wrap64 (cd_RuntimeMin c * 60000)
                       else ar_DurationMS row)\<rparr>"


section \<open>Bounds of the score\<close>

lemma weighted_bounds:
  assumes "m \<le> n" and "w \<le> 100"
  shows "0 \<le> weighted m n w" and "weighted m n w \<le> int w"
proof -
  let ?r = "fl (of_nat m / of_nat n)"
  have "(of_nat w :: rat) \<le> of_nat 100"
    using assms(2) by (simp only: of_nat_le_iff)
  then have w: "(of_nat w :: rat) < 2 ^ 52" by simp
  have q: "of_nat m / of_nat n \<le> (1 :: rat)"
    using assms(1) by (simp add: divide_le_eq)
  then have "of_nat m / of_nat n < (2 ^ 52 :: rat)"
    by (rule le_less_trans) simp
  with q have "?r \<le> of_int 1"
    by (intro fl_le_int) simp_all
  then have "?r * of_nat w \<le> of_int (int w)"
    using mult_right_mono [of ?r 1 "of_nat w"] by simp
  moreover from this w have "?r * of_nat w < 2 ^ 52" by simp
  ultimately have "fl (?r * of_nat w) \<le> of_int (int w)"
    by (intro fl_le_int) simp_all
  then show "weighted m n w \<le> int w"
    by (simp add: weighted_def go_int_def floor_le_iff le_less_trans)
  show "0 \<le> weighted m n w"
    by (simp add: weighted_def go_int_def)
qed

lemma weighted_full: "0 < n \<Longrightarrow> w \<le> 100 \<Longrightarrow> weighted n n w = int w"
proof -
  assume "0 < n" "w \<le> 100"
  moreover have "fl 1 = 1" using fl_of_int [of 1] by simp
  moreover have "fl (of_nat w) = of_nat w"
    using fl_of_int [of "int w"] \<open>w \<le> 100\<close> by simp
  ultimately show ?thesis by (simp add: weighted_def go_int_def)
qed

lemma titleScore_bounds: "0 \<le> titleScore u q t" "titleScore u q t \<le> 30"
  using weighted_bounds [OF length_filter_le, of 30 "\<lambda>w. \<exists>x\<in>set (Fields (normalized u t)). either_contains x w"
      "Fields (normalized u q)"]
  by (auto simp: titleScore_def Let_def)

lemma matchingNames_le: "matchingNames u os cs \<le> length os"
  by (simp add: matchingNames_def)

lemma names_bounds:
  assumes "w \<le> 100"
  shows "0 \<le> weighted (matchingNames u os cs) (length os) w"
    and "weighted (matchingNames u os cs) (length os) w \<le> int w"
  using weighted_bounds [OF matchingNames_le assms] by simp_all

lemma completeness_bounds: "0 \<le> completenessScore c" "completenessScore c \<le> 5"
proof -
  let ?fs = "[cd_Title c \<noteq> [], cd_Authors c \<noteq> [], cd_Narrators c \<noteq> [],
         cd_Description c \<noteq> [], cd_CoverURL c \<noteq> [], cd_ASIN c \<noteq> [] \<or> cd_ISBN c \<noteq> [],
         cd_Publisher c \<noteq> [], cd_Language c \<noteq> [], cd_RuntimeMin c > 0]"
  have "length (filter id ?fs) \<le> 9"
    using length_filter_le [of id ?fs] by (simp only: list.size)
  from weighted_bounds [OF this, of 5]
  show "0 \<le> completenessScore c" "completenessScore c \<le> 5"
    unfolding completenessScore_def by simp_all
qed


lemma matchingNames_self:
  "(\<And>x. x \<in> set os \<Longrightarrow> normalized u x \<noteq> []) \<Longrightarrow> matchingNames u os os = length os"
proof -
  assume "\<And>x. x \<in> set os \<Longrightarrow> normalized u x \<noteq> []"
  then have "filter (\<lambda>o'. normalized u o' \<noteq> [] \<and>
      (\<exists>c\<in>set os. normalized u c \<noteq> [] \<and> either_contains (normalized u c) (normalized u o'))) os = os"
    by (intro filter_True ballI conjI bexI) (simp_all add: either_contains_def)
  then show ?thesis by (simp only: matchingNames_def)
qed


section \<open>Properties\<close>

text \<open>
  C31. The confidence of a match is a percentage: whatever the query, the candidate and the book's
  current metadata, it lies between 0 and 100, the \<^verbatim>\<open>float64\<close> divisions and truncations included.
  Without current metadata to compare with, the ceiling is 35 (title and completeness).
\<close>

theorem confidence_bounds:
  "0 \<le> CalculateConfidence u query c original \<and> CalculateConfidence u query c original \<le> 100 \<and>
   CalculateConfidence u query c None \<le> 35"
  using titleScore_bounds [of u query "cd_Title c"] completeness_bounds [of c]
    names_bounds [of 15 u] names_bounds [of 10 u]
  by (cases original) (auto simp: CalculateConfidence_def Let_def)

text \<open>
  A candidate that agrees with the book on every identifier and name and whose title is the query
  gets the full 100, and a candidate with the book's ASIN gets at least 35, the weight that no title
  match alone reaches.
\<close>

theorem confidence_of_identifiers:
  assumes "cd_ASIN o' \<noteq> []" and "cd_ASIN c \<noteq> []" and "EqualFold u (cd_ASIN o') (cd_ASIN c)"
  shows "35 \<le> CalculateConfidence u query c (Some o') \<and> titleScore u query (cd_Title c) < 35 \<and>
    (cd_Title c \<noteq> [] \<and> query \<noteq> [] \<and> normalized u query = normalized u (cd_Title c) \<and>
     cd_ISBN o' = cd_ISBN c \<and> cd_ISBN c \<noteq> [] \<and>
     cd_Authors o' = cd_Authors c \<and> cd_Authors c \<noteq> [] \<and> (\<forall>x\<in>set (cd_Authors c). normalized u x \<noteq> []) \<and>
     cd_Narrators o' = cd_Narrators c \<and> cd_Narrators c \<noteq> [] \<and> (\<forall>x\<in>set (cd_Narrators c). normalized u x \<noteq> [])
     \<longrightarrow> CalculateConfidence u query c (Some o') = 100)"
proof -
  have "titleScore u query (cd_Title c) = 30" if "normalized u query = normalized u (cd_Title c)"
    using that by (simp add: titleScore_def)
  moreover have "weighted (matchingNames u xs xs) (length xs) w = int w"
    if "xs \<noteq> []" "\<forall>x\<in>set xs. normalized u x \<noteq> []" "w \<le> 100" for xs w
    using that matchingNames_self [of xs u] weighted_full [of "length xs" w] by simp
  ultimately show ?thesis
    using assms titleScore_bounds [of u query "cd_Title c"] completeness_bounds [of c]
      names_bounds [of 15 u] names_bounds [of 10 u]
    by (auto simp: CalculateConfidence_def Let_def)
qed

definition sample_candidate :: Candidate where
  "sample_candidate = zero_candidate\<lparr>cd_Title := ''Dune'', cd_ASIN := ''B000000001'', cd_ISBN := ''123'',
     cd_Authors := [''Frank''], cd_Narrators := [''Scott''], cd_PublishedAt := ''1965-08-01'',
     cd_RuntimeMin := 90\<rparr>"

definition ascii_unicode :: unicode where
  "ascii_unicode = \<lparr>map_to_lower = (\<lambda>s. s), fold_equal = (=)\<rparr>"

lemma normalized_ascii:
  "normalized ascii_unicode ''Frank'' \<noteq> []" "normalized ascii_unicode ''Scott'' \<noteq> []"
  by code_simp+

theorem confidence_of_identifiers_witness:
  "CalculateConfidence ascii_unicode ''Dune'' sample_candidate (Some sample_candidate) = 100"
  using confidence_of_identifiers [of sample_candidate sample_candidate ascii_unicode "''Dune''"]
    EqualFold_refl [of "''B000000001''" ascii_unicode] normalized_ascii
  by (simp add: sample_candidate_def zero_candidate_def is_ascii_def)

text \<open>
  Merging a candidate never loses information and settles at once: the id stays, a field that had
  text still has text, every non-empty field of the candidate wins, and merging the same candidate
  again changes nothing.
\<close>

theorem apply_match_merges:
  "ar_ID (ApplyMatch row c) = ar_ID row \<and>
   (ar_Title row \<noteq> [] \<longrightarrow> ar_Title (ApplyMatch row c) \<noteq> []) \<and>
   (ar_Author row \<noteq> [] \<longrightarrow> ar_Author (ApplyMatch row c) \<noteq> []) \<and>
   (ar_ASIN row \<noteq> [] \<longrightarrow> ar_ASIN (ApplyMatch row c) \<noteq> []) \<and>
   (ar_ISBN row \<noteq> [] \<longrightarrow> ar_ISBN (ApplyMatch row c) \<noteq> []) \<and>
   (cd_Title c \<noteq> [] \<longrightarrow> ar_Title (ApplyMatch row c) = cd_Title c) \<and>
   (cd_ASIN c \<noteq> [] \<longrightarrow> ar_ASIN (ApplyMatch row c) = cd_ASIN c) \<and>
   (0 < cd_RuntimeMin c \<and> cd_RuntimeMin c < 153722867280912 \<longrightarrow>
      ar_DurationMS (ApplyMatch row c) = cd_RuntimeMin c * 60000) \<and>
   ApplyMatch (ApplyMatch row c) c = ApplyMatch row c"
proof -
  have "wrap64 (n * 60000) = n * 60000" if "0 < n" "n < 153722867280912" for n
    using that by (intro wrap64_id) (simp add: is_int64_def)
  then show ?thesis
    by (simp add: ApplyMatch_def overwrite_def)
qed

theorem apply_match_merges_witness:
  "ar_DurationMS (ApplyMatch (read_row (sample_book ''b2'' 1 ''/m/b.m4b'' ''Old'' ''Ann'')) sample_candidate) = 5400000"
  using apply_match_merges [of "read_row (sample_book ''b2'' 1 ''/m/b.m4b'' ''Old'' ''Ann'')" sample_candidate]
  by (simp add: sample_candidate_def)

text \<open>
  External ids are unambiguous: a source name without a colon and a native id, joined and read
  back, come apart as they were, even if the native id contains colons; and whatever parses is the
  joined form of its two parts, neither of them empty.
\<close>

theorem external_id_roundtrip:
  "(CHR '':'' \<notin> set source \<and> source \<noteq> [] \<and> native \<noteq> [] \<longrightarrow>
      ParseExternalID (FormatExternalID source native) = Some (source, native)) \<and>
   (ParseExternalID i = Some (a, b) \<longrightarrow> FormatExternalID a b = i \<and> a \<noteq> [] \<and> b \<noteq> [] \<and> CHR '':'' \<notin> set a)"
proof (intro conjI impI)
  assume "CHR '':'' \<notin> set source \<and> source \<noteq> [] \<and> native \<noteq> []"
  then show "ParseExternalID (FormatExternalID source native) = Some (source, native)"
    by (auto simp: ParseExternalID_def FormatExternalID_def IndexByte_append)
next
  assume "ParseExternalID i = Some (a, b)"
  then obtain k where k: "IndexByte i (CHR '':'') = Some k" "0 < k" "Suc k \<noteq> length i"
    and ab: "a = take k i" "b = drop (Suc k) i"
    by (auto simp: ParseExternalID_def split: option.splits if_splits)
  from IndexByte_Some [OF k(1)] have i: "i = a @ CHR '':'' # b" and a: "CHR '':'' \<notin> set a"
    and "k < length i"
    unfolding ab by simp_all
  then have "length a = k" "length b = length i - Suc k"
    by (simp_all add: ab)
  with k(2,3) \<open>k < length i\<close> show "a \<noteq> []" "b \<noteq> []" by auto
  show "FormatExternalID a b = i"
    using i by (simp only: FormatExternalID_def append.simps)
  show "CHR '':'' \<notin> set a" by (fact a)
qed

theorem external_id_roundtrip_witness:
  "ParseExternalID (FormatExternalID ''audnexus'' ''B0:1'') = Some (''audnexus'', ''B0:1'')"
  using external_id_roundtrip [of "''audnexus''" "''B0:1''" "[]" "[]" "[]"] by simp

end
