(* ===== verification/Listing.thy ===== *)
theory Listing
  imports Store
begin

text \<open>
  The paged reads of \<^verbatim>\<open>internal/store\<close>: page cursors (\<^verbatim>\<open>cursor.go\<close>) and the catalog, search and facet
  queries of \<^verbatim>\<open>audiobook.go\<close>. The SQL text these functions assemble is read as the query it denotes: a
  conjunction of conditions on a row, an \<^verbatim>\<open>ORDER BY\<close> and a \<^verbatim>\<open>LIMIT\<close>.
\<close>


section \<open>Columns and their order\<close>

datatype sql_value = VText string | VTime time

text \<open>Text compares by the server's collation, time by its value. A query never mixes the two.\<close>

fun sql_lt :: "postgres \<Rightarrow> sql_value \<Rightarrow> sql_value \<Rightarrow> bool" where
  "sql_lt pg (VText a) (VText b) \<longleftrightarrow> pg_collate pg a b"
| "sql_lt pg (VTime a) (VTime b) \<longleftrightarrow> a < b"
| "sql_lt pg (VText a) (VTime b) \<longleftrightarrow> True"
| "sql_lt pg (VTime a) (VText b) \<longleftrightarrow> False"

definition column :: "string \<Rightarrow> Audiobook \<Rightarrow> sql_value" where
  "column col a =
     (if col = ''author'' then VText (ab_Author a)
      else if col = ''created_at'' then VTime (ab_CreatedAt a)
      else if col = ''updated_at'' then VTime (ab_UpdatedAt a)
      else VText (ab_Title a))"

definition dir_lt :: "postgres \<Rightarrow> string \<Rightarrow> sql_value \<Rightarrow> sql_value \<Rightarrow> bool" where
  "dir_lt pg dir x y \<longleftrightarrow> (if dir = ''DESC'' then sql_lt pg y x else sql_lt pg x y)"

text \<open>The key of \<^verbatim>\<open>ORDER BY <col> <dir>, id\<close> and its comparison.\<close>

definition row_key :: "string \<Rightarrow> Audiobook \<Rightarrow> sql_value \<times> string" where
  "row_key col a = (column col a, ab_ID a)"

definition row_lt :: "postgres \<Rightarrow> string \<Rightarrow> sql_value \<times> string \<Rightarrow> sql_value \<times> string \<Rightarrow> bool" where
  "row_lt pg dir = lex_lt (dir_lt pg dir) (pg_collate pg)"


section \<open>cursor.go\<close>

definition cursorSep :: string where
  "cursorSep = [CHR 0x1F]"

definition cursorMagic :: string where
  "cursorMagic = ''lab1''"

definition resolveSort :: "string \<Rightarrow> string \<times> bool" where
  "resolveSort srt =
     (if srt = ''author'' then (''author'', False)
      else if srt = ''added'' then (''created_at'', True)
      else if srt = ''updated'' then (''updated_at'', True)
      else (''title'', False))"

definition sortValueOf :: "Audiobook \<Rightarrow> string \<Rightarrow> string" where
  "sortValueOf a srt =
     (if srt = ''author'' then ab_Author a
      else if srt = ''added'' then FormatRFC3339Nano (ab_CreatedAt a)
      else if srt = ''updated'' then FormatRFC3339Nano (ab_UpdatedAt a)
      else ab_Title a)"

definition EncodeCursor :: "Audiobook \<Rightarrow> string \<Rightarrow> string" where
  "EncodeCursor a srt =
     RawURL_EncodeToString (cursorMagic @ cursorSep @ sortValueOf a srt @ cursorSep @ ab_ID a)"

definition decodeCursor :: "string \<Rightarrow> (string \<times> string) option" where
  "decodeCursor s =
     (case RawURL_DecodeString s of
        None \<Rightarrow> None
      | Some b \<Rightarrow>
          (case CutPrefix b (cursorMagic @ cursorSep) of
             None \<Rightarrow> None
           | Some rest \<Rightarrow>
               (case LastIndexByte rest (hd cursorSep) of
                  None \<Rightarrow> None
                | Some i \<Rightarrow> Some (take i rest, drop (i + 1) rest))))"

text \<open>The parameter \<^verbatim>\<open>$n\<close> or \<^verbatim>\<open>$n::timestamptz\<close> that carries the sort value.\<close>

definition cursor_param :: "postgres \<Rightarrow> bool \<Rightarrow> string \<Rightarrow> sql_value option" where
  "cursor_param pg isTime v =
     (if isTime then map_option VTime (pg_timestamptz pg v) else Some (VText v))"

text \<open>
  The keyset predicate of the page after a cursor; \<open>Inr None\<close> when the cursor is absent or not one of
  ours, so that the caller starts from the first page.
\<close>

definition keysetClause ::
  "postgres \<Rightarrow> string \<Rightarrow> string \<Rightarrow> string \<Rightarrow> bool \<Rightarrow> sql_error + (Audiobook \<Rightarrow> bool) option" where
  "keysetClause pg cursor col dir isTime =
     (case decodeCursor cursor of
        None \<Rightarrow> Inr None
      | Some (v, i) \<Rightarrow>
          (case cursor_param pg isTime v of
             None \<Rightarrow> Inl InvalidTimestamp
           | Some x \<Rightarrow>
               Inr (Some (\<lambda>a. (if dir = ''DESC'' then sql_lt pg (column col a) x
                               else sql_lt pg x (column col a)) \<or>
                              (column col a = x \<and> pg_collate pg i (ab_ID a))))))"


section \<open>LIKE patterns\<close>

definition is_continuation :: "char \<Rightarrow> bool" where
  "is_continuation c \<longleftrightarrow> 128 \<le> byte_of c \<and> byte_of c < 192"

text \<open>
  \<^verbatim>\<open>LIKE\<close>: \<^verbatim>\<open>%\<close> matches any text, \<^verbatim>\<open>_\<close> one character, a backslash makes the next pattern character
  literal; everything else matches itself.
\<close>

function like :: "string \<Rightarrow> string \<Rightarrow> bool" where
  "like [] t \<longleftrightarrow> t = []"
| "like (c # p) t \<longleftrightarrow>
     (if c = CHR ''%'' then like p t \<or> (case t of [] \<Rightarrow> False | x # t' \<Rightarrow> like (c # p) t')
      else if c = CHR ''_'' then
        (case t of [] \<Rightarrow> False | x # t' \<Rightarrow> like p (dropWhile is_continuation t'))
      else if c = CHR 0x5C then
        (case (p, t) of (e # p', x # t') \<Rightarrow> x = e \<and> like p' t' | _ \<Rightarrow> False)
      else (case t of [] \<Rightarrow> False | x # t' \<Rightarrow> x = c \<and> like p t'))"
  by pat_completeness auto
termination
  by (relation "measure (\<lambda>(p, t). length p + length t)")
    (auto simp: less_Suc_eq_le intro: le_SucI length_dropWhile_le)

declare like.simps [simp del]

definition ilike :: "postgres \<Rightarrow> string \<Rightarrow> string \<Rightarrow> bool" where
  "ilike pg pattern t \<longleftrightarrow> like (pg_lower pg pattern) (pg_lower pg t)"


section \<open>Catalog and search pages\<close>

record ListAudiobooksParams =
  p_Cursor :: string
  p_Limit :: int
  p_Sort :: string
  p_Order :: string
  p_LibraryPathID :: int

definition page_limit :: "int \<Rightarrow> int" where
  "page_limit l = (if l \<le> 0 \<or> l > 200 then 50 else l)"

definition order_dir :: "string \<Rightarrow> string" where
  "order_dir ord = (if ord = ''desc'' then ''DESC'' else ''ASC'')"

text \<open>
  The two listings share the shape of their query; \<open>extra\<close> is the condition search adds.
\<close>

definition list_query ::
  "postgres \<Rightarrow> (Audiobook \<Rightarrow> bool) \<Rightarrow> ListAudiobooksParams \<Rightarrow> (Audiobook list, 'j, 'c) stmt" where
  "list_query pg extra p now d =
     (let (col, isTime) = resolveSort (p_Sort p);
          dir = order_dir (p_Order p)
      in case keysetClause pg (p_Cursor p) col dir isTime of
           Inl e \<Rightarrow> Inl e
         | Inr c \<Rightarrow>
             Inr (take (nat (page_limit (p_Limit p)))
               (sort_by (\<lambda>a b. row_lt pg dir (row_key col a) (row_key col b))
                 (filter (\<lambda>a. visible d a \<and> extra a \<and>
                              (case c of None \<Rightarrow> True | Some q \<Rightarrow> q a) \<and>
                              (p_LibraryPathID p > 0 \<longrightarrow> ab_LibraryPathID a = p_LibraryPathID p))
                   (t_audiobook d))), d))"

definition ListActiveAudiobooks ::
  "postgres \<Rightarrow> ListAudiobooksParams \<Rightarrow> (Audiobook list, 'j, 'c) stmt" where
  "ListActiveAudiobooks pg p = list_query pg (\<lambda>a. True) p"

definition SearchAudiobooks ::
  "postgres \<Rightarrow> string \<Rightarrow> ListAudiobooksParams \<Rightarrow> (Audiobook list, 'j, 'c) stmt" where
  "SearchAudiobooks pg query p =
     list_query pg (\<lambda>a. ilike pg (''%'' @ query @ ''%'') (ab_Title a) \<or>
                       ilike pg (''%'' @ query @ ''%'') (ab_Author a)) p"


section \<open>Facets\<close>

record FacetCount =
  fc_Value :: string
  fc_Count :: int

definition facet_limit :: "int \<Rightarrow> int" where
  "facet_limit l = (if l \<le> 0 \<or> l > 500 then 100 else l)"

text \<open>\<^verbatim>\<open>SELECT f, COUNT(*) ... GROUP BY f ORDER BY f LIMIT n\<close> over the visible rows with a non-empty \<open>f\<close>.\<close>

definition facet_query ::
  "postgres \<Rightarrow> (Audiobook \<Rightarrow> string) \<Rightarrow> string \<Rightarrow> int \<Rightarrow> int \<Rightarrow> (FacetCount list, 'j, 'c) stmt" where
  "facet_query pg f cursor limit libraryPathID now d =
     (let n = facet_limit limit;
          vals = map f (filter (\<lambda>a. visible d a \<and> f a \<noteq> [] \<and>
                     (cursor \<noteq> [] \<longrightarrow> pg_collate pg cursor (f a)) \<and>
                     (libraryPathID > 0 \<longrightarrow> ab_LibraryPathID a = libraryPathID)) (t_audiobook d))
      in Inr (map (\<lambda>v. \<lparr>fc_Value = v, fc_Count = int (count_list vals v)\<rparr>)
               (take (nat n) (sort_by (pg_collate pg) (remdups vals))), d))"

definition ListAuthorsWithCounts ::
  "postgres \<Rightarrow> string \<Rightarrow> int \<Rightarrow> int \<Rightarrow> (FacetCount list, 'j, 'c) stmt" where
  "ListAuthorsWithCounts pg = facet_query pg ab_Author"

definition ListGenresWithCounts ::
  "postgres \<Rightarrow> string \<Rightarrow> int \<Rightarrow> int \<Rightarrow> (FacetCount list, 'j, 'c) stmt" where
  "ListGenresWithCounts pg = facet_query pg ab_Genre"


section \<open>What the queries rely on\<close>

text \<open>
  A deterministic collation is a strict total order on texts in which only equal texts tie. It gives a
  total order on the sort keys of every listing, because the id breaks ties.
\<close>

locale catalog_order =
  fixes pg :: postgres
  assumes collation: "key_order (pg_collate pg)"
begin

lemma collate_asym: "pg_collate pg a b \<Longrightarrow> \<not> pg_collate pg b a"
  using collation by (metis key_order.axioms(1) weak_order.asym)

lemma collate_split: "pg_collate pg a c \<Longrightarrow> pg_collate pg a b \<or> pg_collate pg b c"
  using collation by (metis key_order.axioms(1) weak_order.neg_trans)

lemma collate_tie: "\<not> pg_collate pg a b \<Longrightarrow> \<not> pg_collate pg b a \<Longrightarrow> a = b"
  using collation by (metis key_order.tie_eq)

lemma value_order: "key_order (sql_lt pg)"
proof (unfold_locales, goal_cases)
  case (1 x y)
  then show ?case by (cases x; cases y) (auto dest: collate_asym)
next
  case (2 x z y)
  then show ?case by (cases x; cases y; cases z) (auto dest: collate_split)
next
  case (3 x y)
  then show ?case by (cases x; cases y) (auto dest: collate_tie)
qed

lemma dir_order: "key_order (dir_lt pg dir)"
proof (cases "dir = ''DESC''")
  case True
  then have "dir_lt pg dir = (\<lambda>x y. sql_lt pg y x)"
    by (simp add: dir_lt_def fun_eq_iff)
  then show ?thesis
    using key_order_converse [OF value_order] by simp
next
  case False
  then have "dir_lt pg dir = sql_lt pg"
    by (simp add: dir_lt_def fun_eq_iff)
  then show ?thesis
    using value_order by simp
qed

lemma row_order: "key_order (row_lt pg dir)"
  unfolding row_lt_def by (rule key_order_lex [OF dir_order collation])

end

sublocale catalog_order \<subseteq> rows: key_order "row_lt pg dir" for dir
  by (rule row_order)

sublocale catalog_order \<subseteq> texts: key_order "pg_collate pg"
  by (rule collation)

text \<open>The collation \<^verbatim>\<open>C\<close>: byte by byte, a proper prefix first.\<close>

fun byte_lt :: "string \<Rightarrow> string \<Rightarrow> bool" where
  "byte_lt [] t \<longleftrightarrow> t \<noteq> []"
| "byte_lt (a # s) [] \<longleftrightarrow> False"
| "byte_lt (a # s) (b # t) \<longleftrightarrow> byte_of a < byte_of b \<or> (a = b \<and> byte_lt s t)"

lemma byte_lt_asym: "byte_lt s t \<Longrightarrow> \<not> byte_lt t s"
  by (induction s t rule: byte_lt.induct) (auto elim: byte_lt.elims)

lemma byte_lt_split: "byte_lt s u \<Longrightarrow> byte_lt s t \<or> byte_lt t u"
proof (induction s u arbitrary: t rule: byte_lt.induct)
  case (3 a s b u)
  then show ?case
    by (cases t) (auto simp: neq_iff)
qed (auto elim: byte_lt.elims)

lemma byte_lt_tie: "\<not> byte_lt s t \<Longrightarrow> \<not> byte_lt t s \<Longrightarrow> s = t"
  by (induction s t rule: byte_lt.induct) (auto simp: neq_iff)

definition c_server :: "(string \<Rightarrow> time option) \<Rightarrow> postgres" where
  "c_server ts = \<lparr>pg_collate = byte_lt, pg_timestamptz = ts, pg_lower = map ascii_lower\<rparr>"

interpretation c_locale: catalog_order "c_server ts" for ts
proof (rule catalog_order.intro)
  show "key_order (pg_collate (c_server ts))"
    by unfold_locales (auto simp: c_server_def dest: byte_lt_asym byte_lt_split byte_lt_tie)
qed


section \<open>Cursors\<close>

text \<open>A cursor read back gives the sort value and the id it was made of.\<close>

lemma decodeCursor_EncodeCursor:
  assumes "CHR 0x1F \<notin> set (ab_ID a)"
  shows "decodeCursor (EncodeCursor a srt) = Some (sortValueOf a srt, ab_ID a)"
  using assms CutPrefix_append [of "cursorMagic @ cursorSep" "sortValueOf a srt @ cursorSep @ ab_ID a"]
  by (simp add: decodeCursor_def EncodeCursor_def RawURL_roundtrip cursorSep_def LastIndexByte_append)

lemma decodeCursor_Nil [simp]: "decodeCursor [] = None"
  by (simp add: decodeCursor_def RawURL_DecodeString_def drop_newlines_def CutPrefix_def
      HasPrefix_def cursorMagic_def)

text \<open>The timestamp in a cursor is one the server reads as it was written.\<close>

definition reads_back :: "postgres \<Rightarrow> string \<Rightarrow> Audiobook \<Rightarrow> bool" where
  "reads_back pg srt a \<longleftrightarrow>
     (case column (fst (resolveSort srt)) a of
        VTime t \<Rightarrow> pg_timestamptz pg (FormatRFC3339Nano t) = Some t
      | VText _ \<Rightarrow> True)"

lemma keysetClause_Nil [simp]: "keysetClause pg [] col dir isTime = Inr None"
  by (simp add: keysetClause_def)

text \<open>The predicate of the page after a row is the order of the listing.\<close>

lemma keysetClause_EncodeCursor:
  assumes "CHR 0x1F \<notin> set (ab_ID a)" and "reads_back pg srt a"
    and "resolveSort srt = (col, isTime)"
  shows "keysetClause pg (EncodeCursor a srt) col dir isTime =
    Inr (Some (\<lambda>b. row_lt pg dir (row_key col a) (row_key col b)))"
proof -
  have "cursor_param pg isTime (sortValueOf a srt) = Some (column col a)"
    using assms(2,3)
    by (auto simp: cursor_param_def reads_back_def resolveSort_def column_def sortValueOf_def split: if_splits)
  then show ?thesis
    by (simp add: keysetClause_def decodeCursor_EncodeCursor [OF assms(1)] fun_eq_iff
        row_lt_def lex_lt_def dir_lt_def row_key_def eq_commute [of "column col a"])
qed


section \<open>Pages as windows of the sorted listing\<close>

text \<open>The rows a listing ranges over, and the answer a client sees.\<close>

definition listed :: "(Audiobook \<Rightarrow> bool) \<Rightarrow> ListAudiobooksParams \<Rightarrow> ('j, 'c) db \<Rightarrow> Audiobook list" where
  "listed extra p d =
     filter (\<lambda>a. visible d a \<and> extra a \<and>
       (p_LibraryPathID p > 0 \<longrightarrow> ab_LibraryPathID a = p_LibraryPathID p)) (t_audiobook d)"

definition listing_order :: "postgres \<Rightarrow> ListAudiobooksParams \<Rightarrow> Audiobook \<Rightarrow> Audiobook \<Rightarrow> bool" where
  "listing_order pg p a b \<longleftrightarrow>
     row_lt pg (order_dir (p_Order p)) (row_key (fst (resolveSort (p_Sort p))) a)
       (row_key (fst (resolveSort (p_Sort p))) b)"

definition rows_of :: "sql_error + ('a list \<times> ('j, 'c) db) \<Rightarrow> 'a list" where
  "rows_of r = (case r of Inl _ \<Rightarrow> [] | Inr (rows, _) \<Rightarrow> rows)"

lemma page_limit_bounds: "0 < page_limit l" "page_limit l \<le> 200"
  by (auto simp: page_limit_def)

lemma distinct_row_key: "db_inv d \<Longrightarrow> distinct (map (row_key col) (listed extra p d))"
proof -
  assume "db_inv d"
  then have "distinct (map ab_ID (listed extra p d))"
    by (simp add: db_inv_def audiobook_ok_def listed_def distinct_map_filter)
  then have "distinct (map snd (map (row_key col) (listed extra p d)))"
    by (simp add: comp_def row_key_def)
  then show ?thesis
    by (simp only: distinct_map)
qed

lemma list_query_page_after:
  assumes "resolveSort (p_Sort p) = (col, isTime)" and "dir = order_dir (p_Order p)"
    and "keysetClause pg cur col dir isTime =
      Inr (map_option (\<lambda>a b. row_lt pg dir (row_key col a) (row_key col b)) c)"
  shows "rows_of (list_query pg extra (p\<lparr>p_Cursor := cur\<rparr>) now d) =
    page_after (row_lt pg dir) (row_key col) (nat (page_limit (p_Limit p))) (listed extra p d)
      (map_option (row_key col) c)"
proof -
  let ?after = "\<lambda>a. case c of None \<Rightarrow> True | Some r \<Rightarrow> row_lt pg dir (row_key col r) (row_key col a)"
  have q: "(case map_option (\<lambda>a b. row_lt pg dir (row_key col a) (row_key col b)) c of
      None \<Rightarrow> True | Some q \<Rightarrow> q a) = ?after a"
    "(case map_option (row_key col) c of None \<Rightarrow> True | Some k \<Rightarrow> row_lt pg dir k (row_key col a)) =
      ?after a" for a
    by (simp_all split: option.split)
  have "filter (\<lambda>a. visible d a \<and> extra a \<and> ?after a \<and>
        (p_LibraryPathID p > 0 \<longrightarrow> ab_LibraryPathID a = p_LibraryPathID p)) (t_audiobook d) =
      filter ?after (listed extra p d)"
    unfolding listed_def filter_filter by (rule filter_cong) auto
  moreover have "p_Sort (p\<lparr>p_Cursor := cur\<rparr>) = p_Sort p" "p_Order (p\<lparr>p_Cursor := cur\<rparr>) = p_Order p"
    "p_Limit (p\<lparr>p_Cursor := cur\<rparr>) = p_Limit p" "p_Cursor (p\<lparr>p_Cursor := cur\<rparr>) = cur"
    "p_LibraryPathID (p\<lparr>p_Cursor := cur\<rparr>) = p_LibraryPathID p"
    by simp_all
  ultimately show ?thesis
    unfolding list_query_def rows_of_def page_after_def q
    by (simp only: assms(1) assms(2) [symmetric] assms(3) q split_conv Let_def sum.case prod.case)
qed

context catalog_order
begin

lemma list_query_walk:
  assumes "db_inv d" and "\<And>a. a \<in> set (t_audiobook d) \<Longrightarrow> CHR 0x1F \<notin> set (ab_ID a)"
    and "\<And>a. a \<in> set (t_audiobook d) \<Longrightarrow> reads_back pg (p_Sort p) a"
    and "length (t_audiobook d) \<le> fuel"
  shows "concat (page_walk (\<lambda>cur. rows_of (list_query pg extra (p\<lparr>p_Cursor := cur\<rparr>) now d))
      (\<lambda>a. EncodeCursor a (p_Sort p)) fuel []) = sort_by (listing_order pg p) (listed extra p d)"
proof -
  obtain col isTime where rs: "resolveSort (p_Sort p) = (col, isTime)"
    by (cases "resolveSort (p_Sort p)")
  let ?dir = "order_dir (p_Order p)" and ?R = "listed extra p d" and ?n = "nat (page_limit (p_Limit p))"
  have sub: "set ?R \<subseteq> set (t_audiobook d)"
    by (auto simp: listed_def)
  have "page_walk (\<lambda>cur. rows_of (list_query pg extra (p\<lparr>p_Cursor := cur\<rparr>) now d))
      (\<lambda>a. EncodeCursor a (p_Sort p)) fuel [] =
    page_walk (page_after (row_lt pg ?dir) (row_key col) ?n ?R) (\<lambda>a. Some (row_key col a)) fuel None"
  proof (rule page_walk_sim)
    show "rows_of (list_query pg extra (p\<lparr>p_Cursor := EncodeCursor a (p_Sort p)\<rparr>) now d) =
        page_after (row_lt pg ?dir) (row_key col) ?n ?R (Some (row_key col a))" if "a \<in> set ?R" for a
    proof -
      from that sub have "a \<in> set (t_audiobook d)" by blast
      then have "keysetClause pg (EncodeCursor a (p_Sort p)) col ?dir isTime =
          Inr (Some (\<lambda>b. row_lt pg ?dir (row_key col a) (row_key col b)))"
        by (intro keysetClause_EncodeCursor rs assms(2,3))
      then show ?thesis
        using list_query_page_after [OF rs refl, where c = "Some a"] by simp
    qed
    show "rows_of (list_query pg extra (p\<lparr>p_Cursor := []\<rparr>) now d) =
        page_after (row_lt pg ?dir) (row_key col) ?n ?R None"
      by (rule list_query_page_after [OF rs refl, where c = None, simplified option.map]) simp
  qed (rule set_page_after)
  moreover have "length ?R \<le> fuel"
    using assms(4) length_filter_le le_trans unfolding listed_def by blast
  ultimately show ?thesis
    using rows.page_walk_complete [OF _ distinct_row_key [OF assms(1)], of ?n extra p fuel ?dir col]
      page_limit_bounds(1) [of "p_Limit p"] rs
    by (simp add: listing_order_def [abs_def])
qed

end


section \<open>Facet pages\<close>

definition facet_values ::
  "(Audiobook \<Rightarrow> string) \<Rightarrow> int \<Rightarrow> ('j, 'c) db \<Rightarrow> string list" where
  "facet_values f lib d =
     map f (filter (\<lambda>a. visible d a \<and> f a \<noteq> [] \<and> (lib > 0 \<longrightarrow> ab_LibraryPathID a = lib))
       (t_audiobook d))"

definition facet_count :: "string list \<Rightarrow> string \<Rightarrow> FacetCount" where
  "facet_count vals v = \<lparr>fc_Value = v, fc_Count = int (count_list vals v)\<rparr>"

lemma count_list_filter: "P v \<Longrightarrow> count_list (filter P xs) v = count_list xs v"
  by (induction xs) auto

lemma facet_query_page_after:
  "rows_of (facet_query pg f cur limit lib now d) =
     map (facet_count (facet_values f lib d))
       (page_after (pg_collate pg) id (nat (facet_limit limit)) (remdups (facet_values f lib d))
         (if cur = [] then None else Some cur))"
proof -
  let ?V = "facet_values f lib d" and ?P = "\<lambda>v. cur \<noteq> [] \<longrightarrow> pg_collate pg cur v"
  have vals: "map f (filter (\<lambda>a. visible d a \<and> f a \<noteq> [] \<and> ?P (f a) \<and>
      (lib > 0 \<longrightarrow> ab_LibraryPathID a = lib)) (t_audiobook d)) = filter ?P ?V"
    by (simp add: facet_values_def filter_map comp_def) (metis (mono_tags, lifting))
  have page: "page_after (pg_collate pg) id n (remdups ?V) (if cur = [] then None else Some cur) =
      take n (sort_by (pg_collate pg) (remdups (filter ?P ?V)))" for n
    by (auto simp: page_after_def remdups_filter)
  have "int (count_list (filter ?P ?V) v) = int (count_list ?V v)"
    if "v \<in> set (take n (sort_by (pg_collate pg) (remdups (filter ?P ?V))))" for v n
    using that by (auto dest!: in_set_takeD simp: count_list_filter)
  then show ?thesis
    unfolding facet_query_def vals page rows_of_def facet_count_def Let_def
    by (simp cong: map_cong)
qed

lemma facet_value_nonempty: "v \<in> set (facet_values f lib d) \<Longrightarrow> v \<noteq> []"
  by (auto simp: facet_values_def)

context catalog_order
begin

lemma facet_walk:
  assumes "length (t_audiobook d) \<le> fuel"
  shows "concat (page_walk (\<lambda>cur. rows_of (facet_query pg f cur limit lib now d)) fc_Value fuel []) =
    map (facet_count (facet_values f lib d))
      (sort_by (pg_collate pg) (remdups (facet_values f lib d)))"
proof -
  let ?V = "facet_values f lib d" and ?n = "nat (facet_limit limit)"
  let ?key = "\<lambda>cur. if cur = [] then None else Some cur"
  have "page_walk (\<lambda>cur. page_after (pg_collate pg) id ?n (remdups ?V) (?key cur)) (\<lambda>v. v) fuel [] =
      page_walk (page_after (pg_collate pg) id ?n (remdups ?V)) (\<lambda>v. Some (id v)) fuel None"
  proof (rule page_walk_sim [where R = "set ?V"])
    show "set (page_after (pg_collate pg) id ?n (remdups ?V) c) \<subseteq> set ?V" for c
      using set_page_after by fastforce
  qed (use facet_value_nonempty in \<open>auto dest: facet_value_nonempty\<close>)
  moreover have "length (remdups ?V) \<le> fuel"
    using assms length_remdups_leq [of ?V] length_filter_le
    unfolding facet_values_def by (metis (no_types, lifting) le_trans length_map)
  moreover have "0 < ?n"
    by (simp add: facet_limit_def)
  ultimately show ?thesis
    using texts.page_walk_complete [of ?n id "remdups ?V" fuel]
    by (simp add: facet_query_page_after page_walk_map facet_count_def map_concat [symmetric])
qed

end


section \<open>Search\<close>

definition plain :: "string \<Rightarrow> bool" where
  "plain q \<longleftrightarrow> CHR ''%'' \<notin> set q \<and> CHR ''_'' \<notin> set q \<and> CHR 0x5C \<notin> set q"

lemma like_plain: "plain q \<Longrightarrow> like (q @ p) t \<longleftrightarrow> (\<exists>t'. t = q @ t' \<and> like p t')"
proof (induction q arbitrary: t)
  case (Cons c q)
  then have "c \<noteq> CHR ''%''" "c \<noteq> CHR ''_''" "c \<noteq> CHR 0x5C" and "plain q"
    by (auto simp: plain_def)
  with Cons.IH show ?case
    by (auto simp: like.simps(2) split: list.split)
qed simp

lemma like_percent: "like (CHR ''%'' # p) t \<longleftrightarrow> (\<exists>u v. t = u @ v \<and> like p v)"
proof (induction t)
  case (Cons c t)
  have "like (CHR ''%'' # p) (c # t) \<longleftrightarrow> like p (c # t) \<or> like (CHR ''%'' # p) t"
    by (simp add: like.simps(2))
  with Cons show ?case
    by (metis (no_types, lifting) append_Nil append_eq_Cons_conv)
qed (simp add: like.simps(2))

text \<open>Without the pattern characters, \<^verbatim>\<open>LIKE '%q%'\<close> is the substring test.\<close>

lemma like_substring: "plain q \<Longrightarrow> like (''%'' @ q @ ''%'') t \<longleftrightarrow> Contains t q"
proof -
  assume "plain q"
  have "like ''%'' v" for v
    by (auto simp: like_percent like.simps(1) intro: exI [of _ v])
  with \<open>plain q\<close> show ?thesis
    by (auto simp: like_percent like_plain Contains_iff)
qed


section \<open>Properties\<close>

text \<open>
  The opaque next-page cursor is lossless: for every sort, decoding the cursor made from a row
  gives back exactly that row's sort value and id, even if the sort value itself contains the
  separator byte. Ids are hexadecimal, so they never contain it.
\<close>

theorem cursor_roundtrip:
  assumes "CHR 0x1F \<notin> set (ab_ID a)"
  shows "decodeCursor (EncodeCursor a srt) = Some (sortValueOf a srt, ab_ID a)"
  using assms by (rule decodeCursor_EncodeCursor)

theorem cursor_roundtrip_witness:
  "decodeCursor (EncodeCursor (sample_book ''0af3'' 1 ''/m/x.m4b'' [CHR 0x1F, CHR ''T''] ''Ann'') ''title'')
     = Some ([CHR 0x1F, CHR ''T''], ''0af3'')"
  using cursor_roundtrip [of "sample_book ''0af3'' 1 ''/m/x.m4b'' [CHR 0x1F, CHR ''T''] ''Ann''" "''title''"]
  by (simp add: sample_book_def sortValueOf_def)

text \<open>
  C2. Reading the catalog page by page, each time with the cursor of the last row received, yields
  every visible book of the (optionally one) library exactly once and in the order of the listing,
  for every sort, direction and page size: nothing is skipped or repeated at a page boundary, ties
  in the sort column included.
\<close>

theorem catalog_paging_complete:
  assumes "catalog_order pg" and "db_inv d"
    and "\<forall>a\<in>set (t_audiobook d). CHR 0x1F \<notin> set (ab_ID a) \<and> reads_back pg (p_Sort p) a"
    and "length (t_audiobook d) \<le> fuel"
  shows "concat (page_walk (\<lambda>cur. rows_of (ListActiveAudiobooks pg (p\<lparr>p_Cursor := cur\<rparr>) now d))
      (\<lambda>a. EncodeCursor a (p_Sort p)) fuel []) =
    sort_by (listing_order pg p) (filter (\<lambda>a. visible d a \<and>
      (p_LibraryPathID p > 0 \<longrightarrow> ab_LibraryPathID a = p_LibraryPathID p)) (t_audiobook d))"
  using catalog_order.list_query_walk [OF assms(1,2) _ _ assms(4), of p "\<lambda>a. True" now] assms(3)
  by (simp add: ListActiveAudiobooks_def listed_def)

definition one_per_page :: "string \<Rightarrow> ListAudiobooksParams" where
  "one_per_page srt = \<lparr>p_Cursor = [], p_Limit = 1, p_Sort = srt, p_Order = ''desc'', p_LibraryPathID = 0\<rparr>"

theorem catalog_paging_complete_witness:
  "concat (page_walk (\<lambda>cur. rows_of (ListActiveAudiobooks (c_server (\<lambda>s. Some 5000))
       (one_per_page ''added''\<lparr>p_Cursor := cur\<rparr>) 0 (sample_db :: (unit, unit) db)))
      (\<lambda>a. EncodeCursor a ''added'') 3 []) =
     [sample_book ''a1'' 1 ''/m/one/a.mp3'' ''Alpha'' ''Ann'', sample_book ''b2'' 1 ''/m/one/b.m4b'' ''Beta'' ''Ann'']"
  using catalog_paging_complete [of "c_server (\<lambda>s. Some 5000)" "sample_db :: (unit, unit) db" "one_per_page ''added''" 3 0,
      OF c_locale.catalog_order_axioms sample_db_inv]
  by (simp add: sample_db_def empty_db_def sample_book_def one_per_page_def reads_back_def resolveSort_def
      column_def c_server_def visible_def enabled_library_def listing_order_def row_lt_def lex_lt_def
      row_key_def order_dir_def dir_lt_def)



text \<open>
  Paging through the authors (or the genres) lists every non-empty value that some visible book
  carries exactly once, in order, each with the number of visible books that carry it.
\<close>

theorem facet_paging_complete:
  assumes "catalog_order pg" and "length (t_audiobook d) \<le> fuel"
  shows "concat (page_walk (\<lambda>cur. rows_of (ListAuthorsWithCounts pg cur limit lib now d)) fc_Value fuel [])
      = map (facet_count (facet_values ab_Author lib d))
          (sort_by (pg_collate pg) (remdups (facet_values ab_Author lib d))) \<and>
    concat (page_walk (\<lambda>cur. rows_of (ListGenresWithCounts pg cur limit lib now d)) fc_Value fuel [])
      = map (facet_count (facet_values ab_Genre lib d))
          (sort_by (pg_collate pg) (remdups (facet_values ab_Genre lib d)))"
  unfolding ListAuthorsWithCounts_def ListGenresWithCounts_def
  using catalog_order.facet_walk [OF assms] by blast

theorem facet_paging_complete_witness:
  "concat (page_walk (\<lambda>cur. rows_of (ListAuthorsWithCounts (c_server (\<lambda>s. None)) cur 1 0 0 (sample_db :: (unit, unit) db)))
     fc_Value 3 []) = [\<lparr>fc_Value = ''Ann'', fc_Count = 2\<rparr>]"
  using facet_paging_complete [of "c_server (\<lambda>s. None)" "sample_db :: (unit, unit) db" 3 1 0 0,
      OF c_locale.catalog_order_axioms]
  by (simp add: sample_db_def empty_db_def sample_book_def facet_values_def facet_count_def visible_def
      enabled_library_def)

end
