(* ===== verification/Cache.thy ===== *)
theory Cache
  imports Metadata Listing
begin

text \<open>
  The response cache of the metadata sources, \<^verbatim>\<open>internal/metadata/cache.go\<close>, over the table
  \<^verbatim>\<open>metadata_cache\<close>. Hits live for the configured time, negative answers for a day. \<open>Get\<close> judges age
  by the plugin's clock, \<open>EvictExpired\<close> by the server's. SHA-1 and the stored JSON are parameters.
\<close>

datatype LookupKind = LookupKindASIN | LookupKindISBN | LookupKindSearch

fun kind_text :: "LookupKind \<Rightarrow> string" where
  "kind_text LookupKindASIN = ''asin''"
| "kind_text LookupKindISBN = ''isbn''"
| "kind_text LookupKindSearch = ''search''"

definition NotFoundTTL :: time where
  "NotFoundTTL = 24 * 60 * 60 * 1000000000"

definition Key :: "(bytes \<Rightarrow> bytes) \<Rightarrow> string \<Rightarrow> LookupKind \<Rightarrow> string \<Rightarrow> string \<Rightarrow> string" where
  "Key sha1 source kind region query =
     source @ '':'' @ kind_text kind @ '':'' @ region @ '':'' @ hex_EncodeToString (sha1 query)"

record 'j Entry =
  en_Source :: string
  en_Region :: string
  en_NotFound :: bool
  en_Response :: 'j
  en_FetchedAt :: time

definition entry_ttl :: "time \<Rightarrow> bool \<Rightarrow> time" where
  "entry_ttl ttl notFound = (if notFound then NotFoundTTL else ttl)"

text \<open>\<^verbatim>\<open>None\<close> is \<^verbatim>\<open>ErrCacheMiss\<close>; \<open>clock\<close> is the plugin's time when the row has been read.\<close>

definition cache_Get :: "time \<Rightarrow> time \<Rightarrow> string \<Rightarrow> ('j Entry option, 'j, 'c) stmt" where
  "cache_Get ttl clock key now d =
     (case find (\<lambda>r. mc_Key r = key) (t_cache d) of
        None \<Rightarrow> Inr (None, d)
      | Some r \<Rightarrow>
          if clock - mc_FetchedAt r > entry_ttl ttl (mc_NotFound r) then Inr (None, d)
          else Inr (Some \<lparr>en_Source = mc_Source r, en_Region = mc_Region r, en_NotFound = mc_NotFound r,
                  en_Response = mc_Response r, en_FetchedAt = mc_FetchedAt r\<rparr>, d))"

text \<open>On a conflict the source and the region of the row stay.\<close>

definition refresh :: "'j \<Rightarrow> bool \<Rightarrow> time \<Rightarrow> 'j cache_row \<Rightarrow> 'j cache_row" where
  "refresh response notFound now r =
     r\<lparr>mc_Response := response, mc_NotFound := notFound, mc_FetchedAt := now\<rparr>"

definition cache_put :: "string \<Rightarrow> string \<Rightarrow> string \<Rightarrow> 'j \<Rightarrow> bool \<Rightarrow> (unit, 'j, 'c) stmt" where
  "cache_put key source region response notFound now d =
     (if list_ex (\<lambda>r. mc_Key r = key) (t_cache d)
      then Inr ((), d\<lparr>t_cache := map (\<lambda>r. if mc_Key r = key
             then refresh response notFound now r else r) (t_cache d)\<rparr>)
      else Inr ((), d\<lparr>t_cache := t_cache d @ [\<lparr>mc_Key = key, mc_Source = source, mc_Region = region,
             mc_Response = response, mc_NotFound = notFound, mc_FetchedAt = now\<rparr>]\<rparr>))"

definition PutHit :: "string \<Rightarrow> string \<Rightarrow> string \<Rightarrow> 'j \<Rightarrow> (unit, 'j, 'c) stmt" where
  "PutHit key source region response = cache_put key source region response False"

text \<open>\<open>braces\<close> is the JSON document \<^verbatim>\<open>{}\<close>.\<close>

definition PutNotFound :: "'j \<Rightarrow> string \<Rightarrow> string \<Rightarrow> string \<Rightarrow> (unit, 'j, 'c) stmt" where
  "PutNotFound braces key source region = cache_put key source region braces True"

definition expired :: "time \<Rightarrow> time \<Rightarrow> 'j cache_row \<Rightarrow> bool" where
  "expired ttl now r \<longleftrightarrow>
     (\<not> mc_NotFound r \<and> mc_FetchedAt r < now - ttl) \<or> (mc_NotFound r \<and> mc_FetchedAt r < now - NotFoundTTL)"

definition EvictExpired :: "time \<Rightarrow> (int, 'j, 'c) stmt" where
  "EvictExpired ttl now d =
     Inr (int (length (filter (expired ttl now) (t_cache d))),
          d\<lparr>t_cache := filter (\<lambda>r. \<not> expired ttl now r) (t_cache d)\<rparr>)"


section \<open>The constraints are kept\<close>

lemma refresh_simps [simp]:
  "mc_Key (refresh response nf now r) = mc_Key r" "mc_Response (refresh response nf now r) = response"
  "mc_NotFound (refresh response nf now r) = nf" "mc_FetchedAt (refresh response nf now r) = now"
  by (simp_all add: refresh_def)

lemma map_cache_inv:
  assumes "db_inv d" and "\<And>r. mc_Key (f r) = mc_Key r"
  shows "db_inv (d\<lparr>t_cache := map f (t_cache d)\<rparr>)"
  using assms by (intro one_table_inv) (simp_all add: db_inv_def cache_ok_def comp_def)

lemma cache_put_inv: "keeps_inv (cache_put key source region response nf)"
proof (rule keeps_invI)
  fix now r and d d' :: "('a, 'b) db"
  assume put: "cache_put key source region response nf now d = Inr (r, d')" and inv: "db_inv d"
  show "db_inv d'"
  proof (cases "list_ex (\<lambda>r. mc_Key r = key) (t_cache d)")
    case True
    with put inv show ?thesis
      by (auto simp: cache_put_def intro!: map_cache_inv)
  next
    case False
    obtain row where d': "d' = d\<lparr>t_cache := t_cache d @ [row]\<rparr>" and "mc_Key row = key"
      using False put by (auto simp: cache_put_def)
    with False inv show ?thesis
      unfolding d' by (intro one_table_inv) (auto simp: db_inv_def cache_ok_def list_ex_iff)
  qed
qed

lemma PutHit_inv: "keeps_inv (PutHit key source region response)"
  by (simp add: PutHit_def cache_put_inv)

lemma PutNotFound_inv: "keeps_inv (PutNotFound braces key source region)"
  by (simp add: PutNotFound_def cache_put_inv)

lemma EvictExpired_inv: "keeps_inv (EvictExpired ttl)"
proof (rule keeps_invI)
  fix now r and d d' :: "('a, 'b) db"
  assume "EvictExpired ttl now d = Inr (r, d')" and inv: "db_inv d"
  then show "db_inv d'"
    using one_table_inv(4) [OF inv, of "filter (\<lambda>r. \<not> expired ttl now r) (t_cache d)"]
    by (auto simp: EvictExpired_def cache_ok_def db_inv_def distinct_map_filter)
qed


section \<open>Reading what was written\<close>

lemma expired_ttl: "expired ttl now r \<longleftrightarrow> now - mc_FetchedAt r > entry_ttl ttl (mc_NotFound r)"
  by (auto simp: expired_def entry_ttl_def)

lemma find_refresh:
  "find (\<lambda>r. mc_Key r = key) (map (\<lambda>r. if mc_Key r = key then refresh x nf now r else r) rs) =
     map_option (refresh x nf now) (find (\<lambda>r. mc_Key r = key) rs)"
  by (induction rs) auto

lemma cache_put_find:
  assumes "cache_put key source region response nf now d = Inr (u, d')"
  obtains r where "find (\<lambda>r. mc_Key r = key) (t_cache d') = Some r" and "mc_Response r = response"
    and "mc_NotFound r = nf" and "mc_FetchedAt r = now"
proof (cases "list_ex (\<lambda>r. mc_Key r = key) (t_cache d)")
  case True
  then obtain r where "find (\<lambda>r. mc_Key r = key) (t_cache d) = Some r"
    by (cases "find (\<lambda>r. mc_Key r = key) (t_cache d)") (auto simp: list_ex_iff)
  with True assms show thesis
    using that [of "refresh response nf now r"] by (auto simp: cache_put_def find_refresh)
next
  case False
  then have "find (\<lambda>r. mc_Key r = key) (t_cache d) = None"
    by (auto simp: list_ex_iff)
  with False assms show thesis
    using that by (auto simp: cache_put_def find_append simp del: find_None find_None')
qed

lemma find_key_filter:
  assumes "distinct (map mc_Key rs)"
  shows "find (\<lambda>r. mc_Key r = key) (filter P rs) =
    (case find (\<lambda>r. mc_Key r = key) rs of Some r \<Rightarrow> if P r then Some r else None | None \<Rightarrow> None)"
  using assms
proof (induction rs)
  case (Cons r rs)
  then have "mc_Key r \<notin> mc_Key ` set rs" by simp
  then have "\<forall>x\<in>set rs. mc_Key x \<noteq> mc_Key r" by (metis imageI)
  then have "find (\<lambda>x. mc_Key x = mc_Key r) (filter P rs) = None" by simp
  with Cons show ?case by (auto simp del: find_None find_None')
qed simp

lemma split_colon: "CHR '':'' \<notin> set a \<Longrightarrow> CHR '':'' \<notin> set b \<Longrightarrow> a @ CHR '':'' # s = b @ CHR '':'' # t \<Longrightarrow> a = b \<and> s = t"
  by (induction a b rule: list_induct2') auto


section \<open>Properties\<close>

text \<open>
  The cache answers with what was last stored under a key for exactly its lifetime: until the
  configured time has passed for a hit, a day for a negative answer, and with a miss after that.
\<close>

theorem cache_put_get:
  assumes "cache_put key source region response nf t0 d = Inr (u, d')"
  shows "\<exists>e. en_Response e = response \<and> en_NotFound e = nf \<and> en_FetchedAt e = t0 \<and>
    (\<forall>ttl clock t1. cache_Get ttl clock key t1 d' =
       (if clock - t0 > (if nf then 86400000000000 else ttl) then Inr (None, d') else Inr (Some e, d')))"
proof -
  obtain r where r: "find (\<lambda>r. mc_Key r = key) (t_cache d') = Some r" "mc_Response r = response"
    "mc_NotFound r = nf" "mc_FetchedAt r = t0"
    using cache_put_find [OF assms] by blast
  let ?e = "\<lparr>en_Source = mc_Source r, en_Region = mc_Region r, en_NotFound = nf,
              en_Response = response, en_FetchedAt = t0\<rparr>"
  have "cache_Get ttl clock key t1 d' =
      (if clock - t0 > (if nf then 86400000000000 else ttl) then Inr (None, d') else Inr (Some ?e, d'))" for ttl clock t1
    using r by (simp add: cache_Get_def entry_ttl_def NotFoundTTL_def)
  then show ?thesis by (intro exI [of _ ?e]) simp
qed

theorem cache_put_get_witness:
  "\<exists>e d'. cache_put ''k'' ''itunes'' ''us'' (7 :: nat) True 0 (empty_db :: (nat, unit) db) = Inr ((), d') \<and>
     cache_Get 5 86400000000000 ''k'' 9 d' = Inr (Some e, d') \<and> en_Response e = 7 \<and>
     cache_Get 5 86400000000001 ''k'' 9 d' = Inr (None, d')"
proof -
  obtain d' where put: "cache_put ''k'' ''itunes'' ''us'' (7 :: nat) True 0 (empty_db :: (nat, unit) db) = Inr ((), d')"
    by (simp add: cache_put_def empty_db_def)
  from cache_put_get [OF put] put show ?thesis by auto
qed

text \<open>
  Eviction removes exactly the dead entries: right after it, a lookup gives the same answer for
  every key as before it (the clocks of server and plugin agreeing), every entry left is one a lookup
  would still return, and the number reported is the number of rows removed.
\<close>

theorem evict_removes_dead_only:
  assumes "db_inv d" and "EvictExpired ttl now d = Inr (n, d')"
  shows "(\<forall>key. map_sum id fst (cache_Get ttl now key now d') = map_sum id fst (cache_Get ttl now key now d)) \<and>
    (\<forall>r\<in>set (t_cache d'). now - mc_FetchedAt r \<le> entry_ttl ttl (mc_NotFound r)) \<and>
    n = int (length (t_cache d)) - int (length (t_cache d'))"
proof (intro conjI allI)
  have d': "d' = d\<lparr>t_cache := filter (\<lambda>r. \<not> expired ttl now r) (t_cache d)\<rparr>"
    and n: "n = int (length (filter (expired ttl now) (t_cache d)))"
    using assms(2) by (simp_all add: EvictExpired_def)
  show "\<forall>r\<in>set (t_cache d'). now - mc_FetchedAt r \<le> entry_ttl ttl (mc_NotFound r)"
    by (auto simp: d' expired_ttl)
  show "n = int (length (t_cache d)) - int (length (t_cache d'))"
    using sum_length_filter_compl [of "expired ttl now" "t_cache d"] by (simp add: d' n)
  fix key
  have "distinct (map mc_Key (t_cache d))"
    using assms(1) by (simp add: db_inv_def cache_ok_def)
  from find_key_filter [OF this, of key "\<lambda>r. \<not> expired ttl now r"]
  show "map_sum id fst (cache_Get ttl now key now d') = map_sum id fst (cache_Get ttl now key now d)"
    by (auto simp: d' cache_Get_def expired_ttl split: option.split simp del: find_None find_None')
qed

definition sample_cache :: "(nat, unit) db" where
  "sample_cache = empty_db\<lparr>t_cache := [
     \<lparr>mc_Key = ''old'', mc_Source = ''s'', mc_Region = ''us'', mc_Response = 1, mc_NotFound = False, mc_FetchedAt = 0\<rparr>,
     \<lparr>mc_Key = ''new'', mc_Source = ''s'', mc_Region = ''us'', mc_Response = 2, mc_NotFound = False, mc_FetchedAt = 50\<rparr>]\<rparr>"

theorem evict_removes_dead_only_witness:
  "\<exists>d'. EvictExpired 10 55 sample_cache = Inr (1, d') \<and>
     (\<forall>key. map_sum id fst (cache_Get 10 55 key 55 d') = map_sum id fst (cache_Get 10 55 key 55 sample_cache))"
proof -
  obtain d' where evict: "EvictExpired 10 55 sample_cache = Inr (1, d')"
    by (simp add: EvictExpired_def sample_cache_def expired_def)
  have "db_inv sample_cache"
    unfolding sample_cache_def by (rule one_table_inv(4) [OF empty_db_inv]) (simp add: cache_ok_def)
  from evict_removes_dead_only [OF this evict] evict show ?thesis by auto
qed

text \<open>
  Cache keys partition the lookups: two lookups share a key only if they have the same source, the
  same kind and the same region, and queries with the same hash; in particular an identifier lookup
  and a text search for the same string never meet. (Source and region names contain no colon.)
\<close>

theorem cache_key_injective:
  assumes "Key sha1 s k r q = Key sha1 s' k' r' q'"
    and "CHR '':'' \<notin> set s" and "CHR '':'' \<notin> set s'" and "CHR '':'' \<notin> set r" and "CHR '':'' \<notin> set r'"
  shows "s = s' \<and> k = k' \<and> r = r' \<and> hex_EncodeToString (sha1 q) = hex_EncodeToString (sha1 q')"
proof -
  have kind: "CHR '':'' \<notin> set (kind_text x)" for x
    by (cases x) simp_all
  have "s @ CHR '':'' # kind_text k @ CHR '':'' # r @ CHR '':'' # hex_EncodeToString (sha1 q) =
      s' @ CHR '':'' # kind_text k' @ CHR '':'' # r' @ CHR '':'' # hex_EncodeToString (sha1 q')"
    using assms(1) by (simp add: Key_def)
  note one = split_colon [OF assms(2,3) this]
  note two = split_colon [OF kind kind one [THEN conjunct2]]
  note three = split_colon [OF assms(4,5) two [THEN conjunct2]]
  have "kind_text k = kind_text k' \<Longrightarrow> k = k'"
    by (cases k; cases k') simp_all
  with one two three show ?thesis by blast
qed

theorem cache_key_injective_witness:
  "Key (\<lambda>b. b) ''itunes'' LookupKindASIN ''us'' ''B0'' \<noteq> Key (\<lambda>b. b) ''itunes'' LookupKindSearch ''us'' ''B0''"
  using cache_key_injective [of "\<lambda>b. b" "''itunes''" LookupKindASIN "''us''" "''B0''" "''itunes''" LookupKindSearch "''us''" "''B0''"]
  by auto

end
