(* ===== verification/Aggregator.thy ===== *)
theory Aggregator
  imports Cache "HOL-Library.AList"
begin

text \<open>
  Sources behind a registry (\<^verbatim>\<open>sources/registry.go\<close>, \<^verbatim>\<open>cmd/.../adapters.go\<close>) and the search that fans
  out to them (\<^verbatim>\<open>aggregator.go\<close>). What an upstream answers is a parameter: a function of the occasion,
  the query and the region. The goroutines of \<^verbatim>\<open>Search\<close> append their results in the order in which they
  finish, so that order is an argument.
\<close>


section \<open>Sources and the registry\<close>

text \<open>\<^verbatim>\<open>sources.ErrNotFound\<close> and \<^verbatim>\<open>metadata.ErrNotFound\<close> are two values with the same text.\<close>

datatype src_error = SourcesErrNotFound | MetadataErrNotFound | SrcCanceled | SrcDeadline | SrcOther string

record Source =
  s_ID :: string
  s_Enabled :: "(string \<Rightarrow> bool) \<Rightarrow> bool"
  s_Search :: "nat \<Rightarrow> string \<Rightarrow> string \<Rightarrow> src_error + Candidate list"
  s_Get :: "nat \<Rightarrow> string \<Rightarrow> string \<Rightarrow> src_error + Candidate option"

type_synonym Registry = "(string \<times> Source) list"

definition Register :: "Registry \<Rightarrow> Source \<Rightarrow> Registry" where
  "Register reg s = AList.update (s_ID s) s reg"

definition ForID :: "Registry \<Rightarrow> string \<Rightarrow> Source option" where
  "ForID reg i = map_of reg i"

definition All_sources :: "Registry \<Rightarrow> Source list" where
  "All_sources reg = map snd reg"

definition adapt_error :: "src_error \<Rightarrow> src_error" where
  "adapt_error e = (if e = SourcesErrNotFound then MetadataErrNotFound else e)"

definition sourceAdapter :: "Source \<Rightarrow> Source" where
  "sourceAdapter s = s\<lparr>s_Get := (\<lambda>n i region. map_sum adapt_error id (s_Get s n i region))\<rparr>"

definition aggregator_All :: "Registry \<Rightarrow> Source list" where
  "aggregator_All reg = map sourceAdapter (All_sources reg)"

definition worker_ForID :: "Registry \<Rightarrow> string \<Rightarrow> Source option" where
  "worker_ForID reg i = map_option sourceAdapter (ForID reg i)"

lemma ForID_Register: "ForID (Register reg s) i = (if i = s_ID s then Some s else ForID reg i)"
  by (simp add: ForID_def Register_def update_conv')


section \<open>Queries\<close>

definition upper_digit :: "char \<Rightarrow> bool" where
  "upper_digit c \<longleftrightarrow> is_digit c \<or> (65 \<le> byte_of c \<and> byte_of c \<le> 90)"

text \<open>\<^verbatim>\<open>^B0[0-9A-Z]{8}$\<close>\<close>

definition aggregatorASIN :: "string \<Rightarrow> bool" where
  "aggregatorASIN q \<longleftrightarrow> take 2 q = ''B0'' \<and> length q = 10 \<and> list_all upper_digit (drop 2 q)"

text \<open>\<^verbatim>\<open>^(978|979)?\d{9}[\dX]$\<close>\<close>

definition isbn10 :: "string \<Rightarrow> bool" where
  "isbn10 q \<longleftrightarrow> length q = 10 \<and> list_all is_digit (take 9 q) \<and> (is_digit (q ! 9) \<or> q ! 9 = CHR ''X'')"

definition aggregatorISBN :: "string \<Rightarrow> bool" where
  "aggregatorISBN q \<longleftrightarrow> isbn10 q \<or> ((take 3 q = ''978'' \<or> take 3 q = ''979'') \<and> isbn10 (drop 3 q))"

definition classify :: "string \<Rightarrow> LookupKind" where
  "classify q =
     (if aggregatorASIN q then LookupKindASIN
      else if aggregatorISBN q then LookupKindISBN
      else LookupKindSearch)"


section \<open>aggregator.go\<close>

definition MaxResults :: nat where
  "MaxResults = 20"

text \<open>
  The collaborators of the aggregator: the cache's lifetime, the plugin's clock (by the number of
  statements run so far), JSON encoding, and the rate limiters. There is one limiter per source, of rate
  and burst \<open>ag_rps\<close> (clamped); \<open>ag_wait\<close> says whether it lets a request through within five seconds.
\<close>

record 'j agg_env =
  ag_unicode :: unicode
  ag_sha1 :: "bytes \<Rightarrow> bytes"
  ag_ttl :: time
  ag_clock :: "nat \<Rightarrow> time"
  ag_rps :: int
  ag_wait :: "string \<Rightarrow> int \<Rightarrow> nat \<Rightarrow> bool"
  ag_marshal :: "Candidate list \<Rightarrow> 'j option"
  ag_unmarshal :: "'j \<Rightarrow> Candidate list option"
  ag_braces :: 'j

text \<open>\<^verbatim>\<open>NewAggregator\<close>: the budget of every source is at least one request a second.\<close>

definition clamp_rps :: "int \<Rightarrow> int" where
  "clamp_rps rps = (if rps < 1 then 1 else rps)"

definition rank :: "unicode \<Rightarrow> Candidate list \<Rightarrow> string \<Rightarrow> Candidate option \<Rightarrow> Match list" where
  "rank u cs query original =
     map (\<lambda>c. \<lparr>mt_Source = cd_Source c, mt_Confidence = CalculateConfidence u query c original,
               mt_Candidate = c\<rparr>) cs"

definition search_key :: "'j agg_env \<Rightarrow> Source \<Rightarrow> string \<Rightarrow> string \<Rightarrow> string" where
  "search_key env src query region = Key (ag_sha1 env) (s_ID src) (classify query) region query"

definition fetch_live ::
  "'j agg_env \<Rightarrow> Source \<Rightarrow> string \<Rightarrow> string \<Rightarrow> Candidate option \<Rightarrow> ('j, 'c) server_state \<Rightarrow>
   Match list \<times> ('j, 'c) server_state" where
  "fetch_live env src query region original s =
     (if \<not> ag_wait env (s_ID src) (clamp_rps (ag_rps env)) (sv_calls s) then ([], s)
      else (case s_Search src (sv_calls s) query region of
        Inl _ \<Rightarrow> ([], s)
      | Inr cs \<Rightarrow>
          let key = search_key env src query region in
          if cs = [] then ([], snd (run_stmt (PutNotFound (ag_braces env) key (s_ID src) region) s))
          else (rank (ag_unicode env) cs query original,
                case ag_marshal env cs of
                  Some payload \<Rightarrow> snd (run_stmt (PutHit key (s_ID src) region payload) s)
                | None \<Rightarrow> s)))"

definition searchOne ::
  "'j agg_env \<Rightarrow> Source \<Rightarrow> string \<Rightarrow> string \<Rightarrow> Candidate option \<Rightarrow> ('j, 'c) server_state \<Rightarrow>
   Match list \<times> ('j, 'c) server_state" where
  "searchOne env src query region original s =
     (case run_stmt (cache_Get (ag_ttl env) (ag_clock env (sv_calls s)) (search_key env src query region)) s of
        (Inr (Some e), s') \<Rightarrow>
          if en_NotFound e then ([], s')
          else (case ag_unmarshal env (en_Response e) of
                  Some cs \<Rightarrow> (rank (ag_unicode env) cs query original, s')
                | None \<Rightarrow> fetch_live env src query region original s')
      | (_, s') \<Rightarrow> fetch_live env src query region original s')"

fun search_all ::
  "'j agg_env \<Rightarrow> Source list \<Rightarrow> string \<Rightarrow> string \<Rightarrow> Candidate option \<Rightarrow> ('j, 'c) server_state \<Rightarrow>
   Match list \<times> ('j, 'c) server_state" where
  "search_all env [] query region original s = ([], s)"
| "search_all env (src # srcs) query region original s =
     (let (ms, s1) = searchOne env src query region original s;
          (rest, s2) = search_all env srcs query region original s1
      in (ms @ rest, s2))"

text \<open>\<^verbatim>\<open>sort.SliceStable\<close> by descending confidence, then the cap.\<close>

definition top_matches :: "Match list \<Rightarrow> Match list" where
  "top_matches out =
     (let sorted = sort_by (\<lambda>a b. mt_Confidence a > mt_Confidence b) out
      in if length sorted > MaxResults then take MaxResults sorted else sorted)"

text \<open>\<open>order\<close> lists \<^verbatim>\<open>registry.All()\<close> in the order in which the searches finish.\<close>

definition aggregator_Search ::
  "'j agg_env \<Rightarrow> Source list \<Rightarrow> string \<Rightarrow> string \<Rightarrow> (string \<Rightarrow> bool) \<Rightarrow> Candidate option \<Rightarrow>
   ('j, 'c) server_state \<Rightarrow> Match list \<times> ('j, 'c) server_state" where
  "aggregator_Search env order query region enabled original s =
     (let (out, s') = search_all env (filter (\<lambda>src. s_Enabled src enabled) order) query region original s
      in (top_matches out, s'))"


section \<open>Order and bounds of the result\<close>

interpretation confidence_order: weak_order "\<lambda>a b. mt_Confidence a > mt_Confidence b"
  by unfold_locales auto

interpretation int_desc: key_order "(>) :: int \<Rightarrow> int \<Rightarrow> bool"
  by unfold_locales auto

definition from_rank :: "unicode \<Rightarrow> string \<Rightarrow> Candidate option \<Rightarrow> Match \<Rightarrow> bool" where
  "from_rank u query original m \<longleftrightarrow>
     mt_Confidence m = CalculateConfidence u query (mt_Candidate m) original \<and>
     mt_Source m = cd_Source (mt_Candidate m)"

lemma rank_from: "m \<in> set (rank u cs query original) \<Longrightarrow> from_rank u query original m"
  by (auto simp: rank_def from_rank_def)

lemma fetch_live_from:
  "m \<in> set (fst (fetch_live env src query region original s)) \<Longrightarrow> from_rank (ag_unicode env) query original m"
  by (auto simp: fetch_live_def Let_def rank_from split: if_splits sum.splits)

lemma searchOne_from:
  "m \<in> set (fst (searchOne env src query region original s)) \<Longrightarrow> from_rank (ag_unicode env) query original m"
  by (auto simp: searchOne_def rank_from
      dest: fetch_live_from split: prod.splits sum.splits option.splits if_splits)

lemma search_all_from:
  "m \<in> set (fst (search_all env srcs query region original s)) \<Longrightarrow> from_rank (ag_unicode env) query original m"
proof (induction srcs arbitrary: s)
  case (Cons src srcs)
  then show ?case
    using searchOne_from [of m env src query region original s] by (auto split: prod.splits) (metis fst_conv)+
qed simp

lemma top_matches_take: "top_matches out = take MaxResults (sort_by (\<lambda>a b. mt_Confidence a > mt_Confidence b) out)"
  by (simp add: top_matches_def Let_def)

lemma top_matches_sorted: "sorted_wrt (\<lambda>a b. mt_Confidence b \<le> mt_Confidence a) (top_matches out)"
  using confidence_order.sorted_sort_by [of out]
  by (simp add: top_matches_take not_less)

lemma top_matches_confidences:
  "map mt_Confidence (top_matches out) = take MaxResults (sort_by (>) (map mt_Confidence out))"
  using map_sort_by [of mt_Confidence "(>)" out] by (simp add: top_matches_take take_map [symmetric])

lemma sort_by_perm:
  assumes "key_order lt" and "mset xs = mset ys"
  shows "sort_by lt xs = sort_by lt ys"
  by (rule key_order.sorted_unique [OF assms(1)])
    (simp_all add: weak_order.sorted_sort_by [OF key_order.axioms(1) [OF assms(1)]] assms(2))


lemma fst_aggregator_Search:
  "fst (aggregator_Search env order query region enabled original s) =
     top_matches (fst (search_all env (filter (\<lambda>src. s_Enabled src enabled) order) query region original s))"
  by (simp add: aggregator_Search_def split: prod.split)


section \<open>A repeated search\<close>

lemma cache_put_total: "\<exists>d'. cache_put key source region response nf now d = Inr ((), d')"
  by (simp add: cache_put_def)

text \<open>A source that answers leaves its answer in the cache, with the time of the server.\<close>

lemma fetch_live_stores:
  assumes "\<not> sv_fault s (sv_calls s)" and "ag_wait env (s_ID src) (clamp_rps (ag_rps env)) (sv_calls s)"
    and "s_Search src (sv_calls s) query region = Inr cs" and "cs \<noteq> [] \<Longrightarrow> ag_marshal env cs = Some payload"
  obtains d' where "fetch_live env src query region original s =
      (rank (ag_unicode env) cs query original, s\<lparr>sv_calls := Suc (sv_calls s), sv_db := d'\<rparr>)"
    and "cache_put (search_key env src query region) (s_ID src) region
      (if cs = [] then ag_braces env else payload) (cs = []) (pg_time (sv_clock s (sv_calls s))) (sv_db s) = Inr ((), d')"
proof -
  obtain d' where put: "cache_put (search_key env src query region) (s_ID src) region
      (if cs = [] then ag_braces env else payload) (cs = []) (pg_time (sv_clock s (sv_calls s))) (sv_db s) = Inr ((), d')"
    by (rule exE [OF cache_put_total])
  then have "fetch_live env src query region original s =
      (rank (ag_unicode env) cs query original, s\<lparr>sv_calls := Suc (sv_calls s), sv_db := d'\<rparr>)"
    using assms by (cases "cs = []")
      (simp_all add: fetch_live_def Let_def PutNotFound_def PutHit_def run_stmt_ok rank_def)
  with put that show thesis by blast
qed


section \<open>Properties\<close>

text \<open>
  C34. A search returns at most 20 matches in descending order of confidence, each a candidate scored by
  the confidence formula (so between 0 and 100), whichever sources answered, failed or were cached.
\<close>

theorem search_result_ranked:
  "length (fst (aggregator_Search env order query region enabled original s)) \<le> 20 \<and>
   sorted_wrt (\<lambda>a b. mt_Confidence b \<le> mt_Confidence a)
     (fst (aggregator_Search env order query region enabled original s)) \<and>
   list_all (\<lambda>m. mt_Confidence m = CalculateConfidence (ag_unicode env) query (mt_Candidate m) original)
     (fst (aggregator_Search env order query region enabled original s))"
proof -
  let ?srcs = "filter (\<lambda>src. s_Enabled src enabled) order"
  let ?out = "fst (search_all env ?srcs query region original s)"
  have "mt_Confidence m = CalculateConfidence (ag_unicode env) query (mt_Candidate m) original"
    if "m \<in> set (top_matches ?out)" for m
  proof -
    from that have "m \<in> set ?out"
      by (simp only: top_matches_take set_sort_by) (metis in_set_takeD set_sort_by)
    from search_all_from [OF this] show ?thesis by (simp only: from_rank_def)
  qed
  moreover have "length (top_matches ?out) \<le> 20"
    by (simp add: top_matches_take MaxResults_def)
  ultimately show ?thesis
    unfolding fst_aggregator_Search list_all_iff using top_matches_sorted [of ?out] by blast
qed

definition sample_source :: "string \<Rightarrow> Source" where
  "sample_source i = \<lparr>s_ID = i, s_Enabled = (\<lambda>cfg. True),
     s_Search = (\<lambda>n query region. Inr [sample_candidate\<lparr>cd_Source := i\<rparr>]),
     s_Get = (\<lambda>n i' region. Inl SourcesErrNotFound)\<rparr>"

definition sample_agg_env :: "Candidate list agg_env" where
  "sample_agg_env = \<lparr>ag_unicode = ascii_unicode, ag_sha1 = (\<lambda>b. b), ag_ttl = 1000, ag_clock = (\<lambda>n. int n),
     ag_rps = 2, ag_wait = (\<lambda>i r n. True), ag_marshal = Some, ag_unmarshal = Some, ag_braces = []\<rparr>"

definition sample_search_server :: "bool \<Rightarrow> (Candidate list, unit) server_state" where
  "sample_search_server down =
     \<lparr>sv_db = empty_db, sv_calls = 0, sv_clock = (\<lambda>n. int n), sv_fault = (\<lambda>n. down)\<rparr>"

lemmas sample_search_defs =
  sample_source_def sample_agg_env_def sample_search_server_def searchOne_def fetch_live_def
  run_stmt_def rank_def Let_def





end
