(* ===== verification/Queue.thy ===== *)
theory Queue
  imports Listing
begin

text \<open>
  The enrichment queue (\<^verbatim>\<open>internal/metadata/queue.go\<close>) over the table \<^verbatim>\<open>metadata_enrichment_job\<close>: one
  job per book, claimed under a lease, retried with exponential backoff, given up after
  \<open>MaxAttempts\<close> attempts. \<open>ClaimNext\<close> is a transaction; \<open>locked\<close> stands for the rows other open
  transactions hold, which \<^verbatim>\<open>FOR UPDATE SKIP LOCKED\<close> passes over.
\<close>

definition MaxAttempts :: int where
  "MaxAttempts = 5"

definition claimLeaseMinutes :: int where
  "claimLeaseMinutes = 15"

definition minutes :: "int \<Rightarrow> time" where
  "minutes n = n * 60000000000"

record Job =
  job_AudiobookID :: string
  job_Attempts :: int

definition Enqueue :: "string \<Rightarrow> (unit, 'j, 'c) stmt" where
  "Enqueue i now d =
     (if list_ex (\<lambda>j. jb_AudiobookID j = i) (t_job d)
      then Inr ((), d\<lparr>t_job := map (\<lambda>j. if jb_AudiobookID j = i then rearm now j else j) (t_job d)\<rparr>)
      else if \<not> list_ex (\<lambda>a. ab_ID a = i) (t_audiobook d) then Inl ForeignKeyViolation
      else Inr ((), d\<lparr>t_job := t_job d @ [new_job i now]\<rparr>))"

definition ready :: "time \<Rightarrow> EnrichmentJob \<Rightarrow> bool" where
  "ready now j \<longleftrightarrow> jb_Status j = Pending \<and> jb_RunAfter j \<le> now"

definition claim_order :: "postgres \<Rightarrow> EnrichmentJob \<Rightarrow> EnrichmentJob \<Rightarrow> bool" where
  "claim_order pg a b \<longleftrightarrow>
     lex_lt (<) (pg_collate pg) (jb_RunAfter a, jb_AudiobookID a) (jb_RunAfter b, jb_AudiobookID b)"

definition lease :: "time \<Rightarrow> EnrichmentJob \<Rightarrow> EnrichmentJob" where
  "lease now j = j\<lparr>jb_Attempts := jb_Attempts j + 1, jb_RunAfter := now + minutes claimLeaseMinutes\<rparr>"

text \<open>\<^verbatim>\<open>None\<close> is \<^verbatim>\<open>ErrQueueEmpty\<close>. The job returned carries the incremented count.\<close>

definition ClaimNext :: "postgres \<Rightarrow> string list \<Rightarrow> (Job option, 'j, 'c) stmt" where
  "ClaimNext pg locked now d =
     (case sort_by (claim_order pg)
             (filter (\<lambda>j. ready now j \<and> jb_AudiobookID j \<notin> set locked) (t_job d)) of
        [] \<Rightarrow> Inr (None, d)
      | j # _ \<Rightarrow>
          Inr (Some \<lparr>job_AudiobookID = jb_AudiobookID j, job_Attempts = jb_Attempts j + 1\<rparr>,
            d\<lparr>t_job := map (\<lambda>k. if jb_AudiobookID k = jb_AudiobookID j then lease now k else k)
                (t_job d)\<rparr>))"

definition complete :: "time \<Rightarrow> EnrichmentJob \<Rightarrow> EnrichmentJob" where
  "complete now j = j\<lparr>jb_Status := Completed, jb_FinishedAt := Some now, jb_LastError := []\<rparr>"

definition MarkCompleted :: "string \<Rightarrow> (unit, 'j, 'c) stmt" where
  "MarkCompleted i now d =
     Inr ((), d\<lparr>t_job := map (\<lambda>j. if jb_AudiobookID j = i then complete now j else j) (t_job d)\<rparr>)"

definition give_up :: "string \<Rightarrow> time \<Rightarrow> EnrichmentJob \<Rightarrow> EnrichmentJob" where
  "give_up err now j = j\<lparr>jb_Status := Failed, jb_FinishedAt := Some now, jb_LastError := err\<rparr>"

text \<open>\<^verbatim>\<open>1<<uint(attempts)\<close>: a negative count becomes a shift by 2^64 - n places, whose result is 0.\<close>

definition backoff_minutes :: "int \<Rightarrow> int" where
  "backoff_minutes attempts = (if attempts < 0 then 0 else 2 ^ nat attempts)"

definition retry_later :: "int \<Rightarrow> string \<Rightarrow> time \<Rightarrow> EnrichmentJob \<Rightarrow> EnrichmentJob" where
  "retry_later attempts err now j =
     j\<lparr>jb_RunAfter := now + minutes (backoff_minutes attempts), jb_LastError := err\<rparr>"

definition MarkFailed :: "string \<Rightarrow> int \<Rightarrow> string \<Rightarrow> (unit, 'j, 'c) stmt" where
  "MarkFailed i attempts err now d =
     (let f = (if attempts \<ge> MaxAttempts then give_up err now else retry_later attempts err now) in
      Inr ((), d\<lparr>t_job := map (\<lambda>j. if jb_AudiobookID j = i then f j else j) (t_job d)\<rparr>))"

lemmas job_updates [queue_defs] =
  lease_def complete_def give_up_def retry_later_def

lemma job_update_id [simp]:
  "jb_AudiobookID (lease now j) = jb_AudiobookID j"
  "jb_AudiobookID (complete now j) = jb_AudiobookID j"
  "jb_AudiobookID (give_up err now j) = jb_AudiobookID j"
  "jb_AudiobookID (retry_later n err now j) = jb_AudiobookID j"
  by (simp_all add: queue_defs)


section \<open>The constraints are kept\<close>

lemma Enqueue_inv: "keeps_inv (Enqueue i)"
proof (rule keeps_invI)
  fix now r and d d' :: "('a, 'b) db"
  assume eq: "Enqueue i now d = Inr (r, d')" and inv: "db_inv d"
  show "db_inv d'"
  proof (cases "list_ex (\<lambda>j. jb_AudiobookID j = i) (t_job d)")
    case True
    with eq inv show ?thesis
      by (auto simp: Enqueue_def intro!: map_jobs_inv)
  next
    case False
    with eq have d': "d' = d\<lparr>t_job := t_job d @ [new_job i now]\<rparr>" and "i \<in> audiobook_ids d"
      by (auto simp: Enqueue_def audiobook_ids_def list_ex_iff split: if_splits)
    with False show ?thesis
      unfolding d' by (intro add_jobs_inv [OF inv]) (auto simp: list_ex_iff)
  qed
qed

lemma ClaimNext_inv: "keeps_inv (ClaimNext pg locked)"
  by (rule keeps_invI) (auto simp: ClaimNext_def intro!: map_jobs_inv split: list.splits)

lemma MarkCompleted_inv: "keeps_inv (MarkCompleted i)"
  by (rule keeps_invI) (auto simp: MarkCompleted_def intro!: map_jobs_inv)

lemma MarkFailed_inv: "keeps_inv (MarkFailed i n err)"
  by (rule keeps_invI) (auto simp: MarkFailed_def Let_def intro!: map_jobs_inv)


section \<open>What a claim does\<close>

definition job_of :: "('j, 'c) db \<Rightarrow> string \<Rightarrow> EnrichmentJob option" where
  "job_of d i = find (\<lambda>j. jb_AudiobookID j = i) (t_job d)"

lemma find_map_job:
  assumes "\<And>j. jb_AudiobookID (f j) = jb_AudiobookID j"
  shows "find (\<lambda>j. jb_AudiobookID j = k) (map (\<lambda>j. if jb_AudiobookID j = i then f j else j) js) =
    (if k = i then map_option f (find (\<lambda>j. jb_AudiobookID j = k) js)
     else find (\<lambda>j. jb_AudiobookID j = k) js)"
  using assms by (induction js) auto

lemma job_of_update:
  assumes "\<And>j. jb_AudiobookID (f j) = jb_AudiobookID j"
  shows "job_of (d\<lparr>t_job := map (\<lambda>j. if jb_AudiobookID j = i then f j else j) (t_job d)\<rparr>) k =
    (if k = i then map_option f (job_of d k) else job_of d k)"
  by (simp add: job_of_def find_map_job [OF assms])

lemma job_of_mem: "db_inv d \<Longrightarrow> j \<in> set (t_job d) \<Longrightarrow> job_of d (jb_AudiobookID j) = Some j"
  unfolding job_of_def by (rule find_unique) (auto simp: db_inv_def job_ok_def)

lemma job_of_Some: "job_of d i = Some j \<Longrightarrow> j \<in> set (t_job d) \<and> jb_AudiobookID j = i"
  by (auto simp: job_of_def dest: find_SomeD)

lemma ClaimNext_Some:
  assumes "ClaimNext pg locked now d = Inr (Some job, d')" and "db_inv d"
  obtains j where "job_of d (job_AudiobookID job) = Some j" and "ready now j"
    and "jb_AudiobookID j \<notin> set locked" and "job_Attempts job = jb_Attempts j + 1"
    and "job_of d' = (job_of d)(job_AudiobookID job \<mapsto> lease now j)"
proof -
  let ?rs = "sort_by (claim_order pg)
    (filter (\<lambda>j. ready now j \<and> jb_AudiobookID j \<notin> set locked) (t_job d))"
  from assms(1) obtain j js where rs: "?rs = j # js"
    and job: "job = \<lparr>job_AudiobookID = jb_AudiobookID j, job_Attempts = jb_Attempts j + 1\<rparr>"
    and d': "d' = d\<lparr>t_job := map (\<lambda>k. if jb_AudiobookID k = jb_AudiobookID j then lease now k else k)
        (t_job d)\<rparr>"
    by (auto simp: ClaimNext_def split: list.splits)
  from rs have "j \<in> set ?rs" by simp
  then have j: "j \<in> set (t_job d)" "ready now j" "jb_AudiobookID j \<notin> set locked"
    by simp_all
  show thesis
    using that [of j] j job job_of_mem [OF assms(2) j(1)]
    by (simp add: d' fun_eq_iff job_of_update)
qed

lemma ClaimNext_None:
  assumes "ClaimNext pg locked now d = Inr (None, d')"
  shows "d' = d \<and> (\<forall>j\<in>set (t_job d). ready now j \<longrightarrow> jb_AudiobookID j \<in> set locked)"
proof -
  from assms have "sort_by (claim_order pg)
      (filter (\<lambda>j. ready now j \<and> jb_AudiobookID j \<notin> set locked) (t_job d)) = []" and "d' = d"
    by (auto simp: ClaimNext_def split: list.splits)
  moreover from this(1) have "filter (\<lambda>j. ready now j \<and> jb_AudiobookID j \<notin> set locked) (t_job d) = []"
    by (metis length_0_conv length_sort_by)
  ultimately show ?thesis by (auto simp: filter_empty_conv)
qed

lemma ClaimNext_total: "\<exists>r d'. ClaimNext pg locked now d = Inr (r, d')"
  by (auto simp: ClaimNext_def split: list.splits)


section \<open>Interleavings\<close>

text \<open>
  Several workers, the scanner and the backfill endpoint share the table. Each statement is atomic, so
  a run is a sequence of them, at whatever times; a statement that fails leaves the table alone.
\<close>

datatype queue_op =
    QEnqueue string
  | QBackfill
  | QClaim "string list"
  | QCompleted string
  | QFailed string int string

definition after :: "('j, 'c) db \<Rightarrow> sql_error + ('a \<times> ('j, 'c) db) \<Rightarrow> ('j, 'c) db" where
  "after d r = (case r of Inl _ \<Rightarrow> d | Inr (_, d') \<Rightarrow> d')"

fun queue_step :: "postgres \<Rightarrow> time \<Rightarrow> queue_op \<Rightarrow> ('j, 'c) db \<Rightarrow> ('j, 'c) db" where
  "queue_step pg now (QEnqueue i) d = after d (Enqueue i (pg_time now) d)"
| "queue_step pg now QBackfill d = after d (BulkEnqueueBackfill (pg_time now) d)"
| "queue_step pg now (QClaim locked) d = after d (ClaimNext pg locked (pg_time now) d)"
| "queue_step pg now (QCompleted i) d = after d (MarkCompleted i (pg_time now) d)"
| "queue_step pg now (QFailed i n err) d = after d (MarkFailed i n err (pg_time now) d)"

fun queue_run :: "postgres \<Rightarrow> (time \<times> queue_op) list \<Rightarrow> ('j, 'c) db \<Rightarrow> ('j, 'c) db" where
  "queue_run pg [] d = d"
| "queue_run pg ((now, op) # ops) d = queue_run pg ops (queue_step pg now op d)"

text \<open>The operations that put a job back in front of the workers, and those that end a claim.\<close>

fun touches :: "string \<Rightarrow> queue_op \<Rightarrow> bool" where
  "touches i (QEnqueue k) \<longleftrightarrow> k = i"
| "touches i QBackfill \<longleftrightarrow> True"
| "touches i (QClaim _) \<longleftrightarrow> False"
| "touches i (QCompleted k) \<longleftrightarrow> k = i"
| "touches i (QFailed k _ _) \<longleftrightarrow> k = i"

lemma after_inv: "keeps_inv q \<Longrightarrow> db_inv d \<Longrightarrow> db_inv (after d (q (pg_time now) d))"
  by (auto simp: after_def keeps_inv_def split: sum.splits)

lemma queue_step_inv: "db_inv d \<Longrightarrow> db_inv (queue_step pg now op d)"
  by (cases op)
    (simp_all add: after_inv Enqueue_inv BulkEnqueueBackfill_inv ClaimNext_inv MarkCompleted_inv
      MarkFailed_inv)

text \<open>A job with a date in the future, left alone, keeps a date at least as late.\<close>

definition not_before :: "('j, 'c) db \<Rightarrow> string \<Rightarrow> time \<Rightarrow> bool" where
  "not_before d i t \<longleftrightarrow> (\<forall>j. job_of d i = Some j \<longrightarrow> jb_Status j = Pending \<longrightarrow> t \<le> jb_RunAfter j)"

lemma claim_keeps_date:
  assumes "db_inv d" and "not_before d i t" and "ClaimNext pg locked now d = Inr (r, d')"
  shows "not_before d' i t"
proof (cases r)
  case None
  with assms show ?thesis using ClaimNext_None by metis
next
  case (Some job)
  with assms obtain j where j: "job_of d (job_AudiobookID job) = Some j" "ready now j"
    "job_of d' = (job_of d)(job_AudiobookID job \<mapsto> lease now j)"
    by (metis ClaimNext_Some)
  have "t \<le> now + minutes claimLeaseMinutes" if "job_AudiobookID job = i"
    using assms(2) j that by (auto simp: not_before_def ready_def minutes_def claimLeaseMinutes_def)
  with assms(2) j show ?thesis
    by (auto simp: not_before_def lease_def)
qed

lemma queue_step_keeps_date:
  assumes "db_inv d" and "not_before d i t" and "\<not> touches i op"
  shows "not_before (queue_step pg now op d) i t"
proof (cases op)
  case (QEnqueue k)
  with assms(3) have "k \<noteq> i" by simp
  then have "job_of (after d (Enqueue k (pg_time now) d)) i = job_of d i"
    by (auto simp: Enqueue_def after_def job_of_update)
      (auto simp: job_of_def find_append new_job_def split: option.splits)
  with assms(2) QEnqueue show ?thesis by (simp add: not_before_def)
next
  case (QClaim locked)
  obtain r d' where "ClaimNext pg locked (pg_time now) d = Inr (r, d')"
    using ClaimNext_total by blast
  with QClaim claim_keeps_date [OF assms(1,2)] show ?thesis by (simp add: after_def)
qed (use assms in \<open>auto simp: after_def MarkCompleted_def MarkFailed_def Let_def job_of_update
    not_before_def\<close>)

lemma queue_run_keeps_date:
  "db_inv d \<Longrightarrow> not_before d i t \<Longrightarrow> (\<And>x. x \<in> set ops \<Longrightarrow> \<not> touches i (snd x)) \<Longrightarrow>
     db_inv (queue_run pg ops d) \<and> not_before (queue_run pg ops d) i t"
proof (induction pg ops d rule: queue_run.induct)
  case (2 pg now op ops d)
  then show ?case
    using queue_step_inv [of d pg now op] queue_step_keeps_date [of d i t op pg now] by fastforce
qed simp

lemma not_before_not_claimed:
  assumes "db_inv d" and "not_before d i t" and "now < t"
    and "ClaimNext pg locked now d = Inr (Some job, d')"
  shows "job_AudiobookID job \<noteq> i"
proof
  assume i: "job_AudiobookID job = i"
  from ClaimNext_Some [OF assms(4,1)] obtain j where "job_of d i = Some j" "ready now j"
    unfolding i by metis
  with assms(2,3) show False by (auto simp: not_before_def ready_def)
qed


section \<open>Properties\<close>

text \<open>
  A claimed job is exclusive for the lease: once a worker has claimed it, no other claim returns it
  within the next 15 minutes, whatever other workers, scans of other books and completions of other
  jobs do in between, in any order and at any times, unless the job is finished or queued again.
\<close>

theorem claim_exclusive:
  assumes "db_inv d" and "ClaimNext pg locked t0 d = Inr (Some job, d1)" and "t0 mod 1000 = 0"
    and "\<forall>x\<in>set ops. \<not> touches (job_AudiobookID job) (snd x)"
    and "t1 < t0 + minutes claimLeaseMinutes"
    and "ClaimNext pg locked' t1 (queue_run pg ops d1) = Inr (Some job', d2)"
  shows "job_AudiobookID job' \<noteq> job_AudiobookID job"
proof -
  from ClaimNext_Some [OF assms(2,1)] obtain j
    where "job_of d1 = (job_of d)(job_AudiobookID job \<mapsto> lease t0 j)" by metis
  then have "not_before d1 (job_AudiobookID job) (t0 + minutes claimLeaseMinutes)"
    by (simp add: not_before_def lease_def)
  moreover have "db_inv d1"
    using ClaimNext_inv [of pg locked] assms(1-3) unfolding keeps_inv_def by (metis pg_time_id)
  ultimately show ?thesis
    using queue_run_keeps_date [of d1 _ _ ops pg] not_before_not_claimed assms(4-6) by metis
qed

definition sample_jobs :: "(unit, unit) db" where
  "sample_jobs = sample_db\<lparr>t_job := [new_job ''b2'' 0, new_job ''a1'' 0]\<rparr>"

lemma sample_jobs_inv: "db_inv sample_jobs"
  unfolding sample_jobs_def
  by (rule one_table_inv(3) [OF sample_db_inv])
    (simp add: job_ok_def new_job_def audiobook_ids_def sample_db_def sample_book_def)

lemmas claim_eval =
  ClaimNext_def sample_jobs_def new_job_def ready_def claim_order_def lex_lt_def c_server_def
  lease_def minutes_def claimLeaseMinutes_def

theorem claim_exclusive_witness:
  "\<exists>job d1 job' d2. ClaimNext (c_server (\<lambda>s. None)) [] 0 sample_jobs = Inr (Some job, d1) \<and>
     job_AudiobookID job = ''a1'' \<and>
     ClaimNext (c_server (\<lambda>s. None)) [] 5 (queue_run (c_server (\<lambda>s. None)) [(3, QCompleted ''c3'')] d1)
       = Inr (Some job', d2) \<and>
     job_AudiobookID job' \<noteq> job_AudiobookID job"
proof -
  let ?pg = "c_server (\<lambda>s. None)"
  obtain job d1 where one: "ClaimNext ?pg [] 0 sample_jobs = Inr (Some job, d1)"
    and a1: "job_AudiobookID job = ''a1''"
    and d1: "t_job d1 = [new_job ''b2'' 0, lease 0 (new_job ''a1'' 0)]"
    by (simp add: claim_eval)
  obtain job' d2
    where two: "ClaimNext ?pg [] 5 (queue_run ?pg [(3, QCompleted ''c3'')] d1) = Inr (Some job', d2)"
    by (simp add: claim_eval d1 after_def MarkCompleted_def)
  have "job_AudiobookID job' \<noteq> job_AudiobookID job"
    by (rule claim_exclusive [OF sample_jobs_inv one _ _ _ two])
      (simp_all add: a1 minutes_def claimLeaseMinutes_def)
  with one a1 two show ?thesis by blast
qed



end
