(* ===== verification/Worker.thy ===== *)
theory Worker
  imports Aggregator Queue
begin

text \<open>
  The enrichment worker, \<^verbatim>\<open>internal/metadata/worker.go\<close>: it claims jobs until none is ready, looks each
  book up at one configured source and merges the answer into the book's row. The worker sees the
  store and the registry through interfaces; the laws it relies on are the locale
  \<open>enrichment_store_laws\<close>, which the store's statements satisfy.
\<close>


section \<open>Interfaces\<close>

record ('j, 'c) EnrichmentStore =
  es_LoadAudiobookRow :: "string \<Rightarrow> (AudiobookRow, 'j, 'c) stmt"
  es_UpdateAudiobookMetadata :: "AudiobookRow \<Rightarrow> (unit, 'j, 'c) stmt"

datatype ctx_error = Canceled | DeadlineExceeded

text \<open>
  The worker's collaborators. What happens outside the worker is indexed by the number of statements
  run so far: \<open>wk_ctx\<close> is \<^verbatim>\<open>ctx.Err()\<close>, \<open>wk_locked\<close> the job rows that other transactions hold.
  \<open>wk_sql_text\<close> is the text of a database error.
\<close>

record ('j, 'c) EnrichmentWorker =
  wk_Queue :: postgres
  wk_Store :: "('j, 'c) EnrichmentStore"
  wk_Registry :: "string \<Rightarrow> Source option"
  wk_SourceID :: string
  wk_Region :: string
  wk_ctx :: "nat \<Rightarrow> ctx_error option"
  wk_locked :: "nat \<Rightarrow> string list"
  wk_sql_text :: "sql_error \<Rightarrow> string"

datatype proc_error =
    NotRegistered string
  | NoIdentifier
  | ProcSql sql_error
  | ProcSource src_error

fun src_error_text :: "src_error \<Rightarrow> string" where
  "src_error_text SourcesErrNotFound = ''source: not found''"
| "src_error_text MetadataErrNotFound = ''source: not found''"
| "src_error_text SrcCanceled = ''context canceled''"
| "src_error_text SrcDeadline = ''context deadline exceeded''"
| "src_error_text (SrcOther t) = t"

fun proc_error_text :: "('j, 'c) EnrichmentWorker \<Rightarrow> proc_error \<Rightarrow> string" where
  "proc_error_text w (NotRegistered i) = ''configured scan source not registered: '' @ i"
| "proc_error_text w NoIdentifier = ''no enrichable identifier on audiobook row''"
| "proc_error_text w (ProcSql e) = wk_sql_text w e"
| "proc_error_text w (ProcSource e) = src_error_text e"

definition first_candidate :: "'e + Candidate list \<Rightarrow> 'e + Candidate option" where
  "first_candidate r = map_sum id (\<lambda>cs. case cs of [] \<Rightarrow> None | c # _ \<Rightarrow> Some c) r"

text \<open>The cascade: ASIN, then ISBN, then title and author. \<open>n\<close> is the occasion of the request.\<close>

definition lookup_candidate ::
  "Source \<Rightarrow> nat \<Rightarrow> string \<Rightarrow> AudiobookRow \<Rightarrow> proc_error + Candidate option" where
  "lookup_candidate src n region row =
     (if ar_ASIN row \<noteq> [] then map_sum ProcSource id (s_Get src n (ar_ASIN row) region)
      else if ar_ISBN row \<noteq> [] then map_sum ProcSource id (first_candidate (s_Search src n (ar_ISBN row) region))
      else let q = TrimSpace (ar_Title row @ '' '' @ ar_Author row) in
           if q = [] then Inl NoIdentifier
           else map_sum ProcSource id (first_candidate (s_Search src n q region)))"

text \<open>\<open>None\<close> is a nil error.\<close>

definition process ::
  "('j, 'c) EnrichmentWorker \<Rightarrow> Job \<Rightarrow> ('j, 'c) server_state \<Rightarrow> proc_error option \<times> ('j, 'c) server_state" where
  "process w j s =
     (case wk_Registry w (wk_SourceID w) of
        None \<Rightarrow> (Some (NotRegistered (wk_SourceID w)), s)
      | Some src \<Rightarrow>
          (case run_stmt (es_LoadAudiobookRow (wk_Store w) (job_AudiobookID j)) s of
             (Inl e, s1) \<Rightarrow> (Some (ProcSql e), s1)
           | (Inr row, s1) \<Rightarrow>
               (case lookup_candidate src (sv_calls s1) (wk_Region w) row of
                  Inl e \<Rightarrow> (if e = ProcSource MetadataErrNotFound then None else Some e, s1)
                | Inr None \<Rightarrow> (None, s1)
                | Inr (Some c) \<Rightarrow>
                    (case run_stmt (es_UpdateAudiobookMetadata (wk_Store w) (ApplyMatch row c)) s1 of
                       (Inl e, s2) \<Rightarrow> (Some (ProcSql e), s2)
                     | (Inr _, s2) \<Rightarrow> (None, s2)))))"

text \<open>
  \<^verbatim>\<open>errors.Is(procErr, context.Canceled)\<close> and \<^verbatim>\<open>context.DeadlineExceeded\<close>. A statement that fails
  with the worker's own context does so when \<open>wk_ctx\<close> is set, which the caller tests as well.
\<close>

definition context_error :: "proc_error \<Rightarrow> bool" where
  "context_error e \<longleftrightarrow> e = ProcSource SrcCanceled \<or> e = ProcSource SrcDeadline"

datatype drain_error = DrainCtx ctx_error | DrainClaim sql_error

text \<open>
  The loop. The outer option is its return: \<open>None\<close> stands for a loop that goes on forever. The inner
  option is the error it returns, \<open>None\<close> for nil.
\<close>

partial_function (option) Drain ::
  "('j, 'c) EnrichmentWorker \<Rightarrow> ('j, 'c) server_state \<Rightarrow> (drain_error option \<times> ('j, 'c) server_state) option" where
  "Drain w s =
     (case wk_ctx w (sv_calls s) of
        Some e \<Rightarrow> Some (Some (DrainCtx e), s)
      | None \<Rightarrow>
          (case run_stmt (ClaimNext (wk_Queue w) (wk_locked w (sv_calls s))) s of
             (Inl e, s1) \<Rightarrow> Some (Some (DrainClaim e), s1)
           | (Inr None, s1) \<Rightarrow> Some (None, s1)
           | (Inr (Some job), s1) \<Rightarrow>
               (case process w job s1 of
                  (Some e, s2) \<Rightarrow>
                    if wk_ctx w (sv_calls s2) \<noteq> None \<or> context_error e
                    then Some (map_option DrainCtx (wk_ctx w (sv_calls s2)), s2)
                    else Drain w (snd (run_stmt
                      (MarkFailed (job_AudiobookID job) (job_Attempts job) (proc_error_text w e)) s2))
                | (None, s2) \<Rightarrow>
                    Drain w (snd (run_stmt (MarkCompleted (job_AudiobookID job)) s2)))))"


section \<open>What the worker relies on\<close>

locale enrichment_store_laws =
  fixes St :: "('j, 'c) EnrichmentStore"
  assumes load_reads: "es_LoadAudiobookRow St i now d = Inr (row, d') \<Longrightarrow> d' = d \<and> ar_ID row = i"
    and update_jobs: "es_UpdateAudiobookMetadata St row now d = Inr (u, d') \<Longrightarrow> t_job d' = t_job d"
    and update_inv: "keeps_inv (es_UpdateAudiobookMetadata St row)"
    and load_update: "es_LoadAudiobookRow St i now d = Inr (row0, d) \<Longrightarrow> ar_ID row = i \<Longrightarrow>
      es_UpdateAudiobookMetadata St row now1 d = Inr (u, d') \<Longrightarrow>
      map_sum id fst (es_LoadAudiobookRow St k now2 d') =
        (if k = i then Inr row else map_sum id fst (es_LoadAudiobookRow St k now2 d))"
begin

text \<open>Loading a row changes nothing but the statement count.\<close>

lemma run_load:
  assumes "run_stmt (es_LoadAudiobookRow St i) s = (r, s1)"
  shows "s1 = s\<lparr>sv_calls := Suc (sv_calls s)\<rparr> \<and> (\<forall>row. r = Inr row \<longrightarrow>
    es_LoadAudiobookRow St i (pg_time (sv_clock s (sv_calls s))) (sv_db s) = Inr (row, sv_db s))"
  using load_reads by (intro run_read_only [OF read_onlyI assms]) blast

lemma process_cases:
  assumes "wk_Store w = St" and "process w j s = (r, s')"
  obtains "sv_db s' = sv_db s"
  | src row c u where "wk_Registry w (wk_SourceID w) = Some src"
      and "es_LoadAudiobookRow St (job_AudiobookID j) (pg_time (sv_clock s (sv_calls s))) (sv_db s) = Inr (row, sv_db s)"
      and "lookup_candidate src (Suc (sv_calls s)) (wk_Region w) row = Inr (Some c)"
      and "es_UpdateAudiobookMetadata St (ApplyMatch row c) (pg_time (sv_clock s (Suc (sv_calls s)))) (sv_db s) = Inr (u, sv_db s')"
      and "r = None"
proof (cases "wk_Registry w (wk_SourceID w)")
  case None
  with assms that(1) show thesis by (simp add: process_def)
next
  case src: (Some src)
  obtain lr s1 where load: "run_stmt (es_LoadAudiobookRow St (job_AudiobookID j)) s = (lr, s1)"
    by fastforce
  note s1 = run_load [OF load]
  show thesis
  proof (cases "\<exists>row c. lr = Inr row \<and> lookup_candidate src (sv_calls s1) (wk_Region w) row = Inr (Some c)")
    case False
    then have "s' = s1"
      using assms src load by (auto simp: process_def split: sum.splits option.splits)
    with s1 that(1) show thesis by simp
  next
    case True
    then obtain row c where lr: "lr = Inr row"
      and c: "lookup_candidate src (sv_calls s1) (wk_Region w) row = Inr (Some c)" by blast
    obtain ur s2 where upd: "run_stmt (es_UpdateAudiobookMetadata St (ApplyMatch row c)) s1 = (ur, s2)"
      by fastforce
    then have r: "r = (case ur of Inl e \<Rightarrow> Some (ProcSql e) | Inr u \<Rightarrow> None)" "s' = s2"
      using assms src load lr c by (auto simp: process_def split: sum.splits)
    show thesis
    proof (rule run_stmt_db [of "es_UpdateAudiobookMetadata St (ApplyMatch row c)" s1])
      assume "sv_db (snd (run_stmt (es_UpdateAudiobookMetadata St (ApplyMatch row c)) s1)) = sv_db s1"
      with upd r s1 that(1) show thesis by simp
    next
      fix u d
      assume "es_UpdateAudiobookMetadata St (ApplyMatch row c) (pg_time (sv_clock s1 (sv_calls s1))) (sv_db s1) = Inr (u, d)"
        "fst (run_stmt (es_UpdateAudiobookMetadata St (ApplyMatch row c)) s1) = Inr u"
        "sv_db (snd (run_stmt (es_UpdateAudiobookMetadata St (ApplyMatch row c)) s1)) = d"
      with upd r s1 lr c src that(2) show thesis by simp
    qed
  qed
qed

lemma process_jobs:
  assumes "wk_Store w = St" and "process w j s = (r, s')"
  shows "t_job (sv_db s') = t_job (sv_db s)"
  by (rule process_cases [OF assms]) (simp, metis update_jobs)

lemma process_inv:
  assumes "wk_Store w = St" and "process w j s = (r, s')" and "db_inv (sv_db s)"
  shows "db_inv (sv_db s')"
  by (rule process_cases [OF assms(1,2)]) (use assms(3) update_inv in \<open>simp, metis keeps_inv_def\<close>)

end

lemma process_calls:
  assumes "process w j s = (r, s')"
  shows "sv_calls s \<le> sv_calls s' \<and> sv_clock s' = sv_clock s \<and> sv_fault s' = sv_fault s"
  using assms
  by (auto simp: process_def split: option.splits sum.splits prod.splits dest!: run_stmt_eqD)



section \<open>Progress of the queue\<close>

text \<open>How many more times a job can be claimed and marked before it leaves the pending state.\<close>

definition job_weight :: "EnrichmentJob \<Rightarrow> nat" where
  "job_weight j = (if jb_Status j = Pending then nat (max 1 (MaxAttempts - jb_Attempts j)) else 0)"

definition queue_weight :: "('j, 'c) db \<Rightarrow> nat" where
  "queue_weight d = sum_list (map job_weight (t_job d))"

lemma sum_list_decrease:
  fixes f :: "'a \<Rightarrow> nat"
  assumes "\<And>x. x \<in> set xs \<Longrightarrow> f (g x) \<le> f x" and "y \<in> set xs" and "f (g y) < f y"
  shows "sum_list (map f (map g xs)) < sum_list (map f xs)"
  using assms
proof (induction xs)
  case (Cons x xs)
  have le: "sum_list (map f (map g xs)) \<le> sum_list (map f xs)"
    using Cons.prems(1) by (auto simp: comp_def intro: sum_list_mono)
  show ?case
  proof (cases "y = x")
    case True
    with Cons.prems(3) le show ?thesis by simp
  next
    case False
    with Cons have "sum_list (map f (map g xs)) < sum_list (map f xs)" by simp
    with Cons.prems(1) [of x] show ?thesis by simp
  qed
qed simp

lemma ClaimNext_jobs:
  assumes "ClaimNext pg locked now d = Inr (Some job, d')"
  obtains j where "j \<in> set (t_job d)" and "ready now j"
    and "job = \<lparr>job_AudiobookID = jb_AudiobookID j, job_Attempts = jb_Attempts j + 1\<rparr>"
    and "t_job d' = map (\<lambda>k. if jb_AudiobookID k = jb_AudiobookID j then lease now k else k) (t_job d)"
proof -
  let ?rs = "sort_by (claim_order pg) (filter (\<lambda>j. ready now j \<and> jb_AudiobookID j \<notin> set locked) (t_job d))"
  from assms obtain j js where rs: "?rs = j # js"
    and "job = \<lparr>job_AudiobookID = jb_AudiobookID j, job_Attempts = jb_Attempts j + 1\<rparr>"
    and "t_job d' = map (\<lambda>k. if jb_AudiobookID k = jb_AudiobookID j then lease now k else k) (t_job d)"
    by (auto simp: ClaimNext_def split: list.splits)
  moreover from rs have "j \<in> set ?rs" by simp
  then have "j \<in> set (t_job d)" and "ready now j" by simp_all
  ultimately show thesis by (intro that)
qed

lemma job_weight_lease: "job_weight (lease now j) \<le> job_weight j"
  by (auto simp: job_weight_def lease_def max_def)

lemma claim_weight:
  assumes "ClaimNext pg locked now d = Inr (r, d')"
  shows "queue_weight d' \<le> queue_weight d"
proof (cases r)
  case None
  with assms show ?thesis using ClaimNext_None by blast
next
  case (Some job)
  obtain j :: EnrichmentJob
    where "t_job d' = map (\<lambda>k. if jb_AudiobookID k = jb_AudiobookID j then lease now k else k) (t_job d)"
    by (rule ClaimNext_jobs [OF assms [unfolded Some]])
  then show ?thesis
    by (auto simp: queue_weight_def comp_def job_weight_lease intro!: sum_list_mono)
qed

text \<open>A claim together with the mark that follows it uses up one of those times.\<close>

lemma mark_weight:
  assumes "distinct (map jb_AudiobookID (t_job d))"
    and "ClaimNext pg locked now d = Inr (Some job, d1)" and "t_job d2 = t_job d1"
    and "d3 = d2\<lparr>t_job := map (\<lambda>j. if jb_AudiobookID j = job_AudiobookID job then f j else j) (t_job d2)\<rparr>"
    and "\<And>j. jb_Attempts j = job_Attempts job \<Longrightarrow> jb_Status j = Pending \<Longrightarrow>
      job_weight (f j) < nat (max 1 (MaxAttempts + 1 - jb_Attempts j))"
  shows "queue_weight d3 < queue_weight d"
proof -
  from ClaimNext_jobs [OF assms(2)] obtain j where j: "j \<in> set (t_job d)" "ready now j"
    and job: "job = \<lparr>job_AudiobookID = jb_AudiobookID j, job_Attempts = jb_Attempts j + 1\<rparr>"
    and d1: "t_job d1 = map (\<lambda>k. if jb_AudiobookID k = jb_AudiobookID j then lease now k else k) (t_job d)" .
  let ?g = "\<lambda>k. if jb_AudiobookID k = jb_AudiobookID j then f (lease now k) else k"
  have d3: "t_job d3 = map ?g (t_job d)"
    using assms(3,4) d1 job by auto
  have less: "job_weight (?g j) < job_weight j"
    using assms(5) [of "lease now j"] j(2) job
    by (simp add: lease_def job_weight_def ready_def)
  have "k = j" if "k \<in> set (t_job d)" and "jb_AudiobookID k = jb_AudiobookID j" for k
    using that j(1) assms(1) by (metis distinct_map_eqD)
  with less have "job_weight (?g k) \<le> job_weight k" if "k \<in> set (t_job d)" for k
    using that by fastforce
  then show ?thesis
    using j(1) less unfolding queue_weight_def d3 by (rule sum_list_decrease)
qed

lemma completed_weight: "job_weight (complete now j) = 0"
  by (simp add: job_weight_def complete_def)

lemma failed_weight:
  "jb_Status j = Pending \<Longrightarrow> attempts = jb_Attempts j \<Longrightarrow>
     job_weight ((if attempts \<ge> MaxAttempts then give_up err now else retry_later attempts err now) j)
       < nat (max 1 (MaxAttempts + 1 - jb_Attempts j))"
  by (simp add: job_weight_def give_up_def retry_later_def)


lemma MarkCompleted_weight:
  assumes "db_inv d" and "ClaimNext pg locked now d = Inr (Some job, d1)" and "t_job d2 = t_job d1"
    and "MarkCompleted (job_AudiobookID job) t d2 = Inr (u, d3)"
  shows "queue_weight d3 < queue_weight d"
proof (rule mark_weight [OF _ assms(2,3), of d3 "complete t"])
  show "distinct (map jb_AudiobookID (t_job d))" using assms(1) by (simp add: db_inv_def job_ok_def)
  show "d3 = d2\<lparr>t_job := map (\<lambda>j. if jb_AudiobookID j = job_AudiobookID job then complete t j else j) (t_job d2)\<rparr>"
    using assms(4) by (simp add: MarkCompleted_def)
qed (simp add: completed_weight)

lemma MarkFailed_weight:
  assumes "db_inv d" and "ClaimNext pg locked now d = Inr (Some job, d1)" and "t_job d2 = t_job d1"
    and "MarkFailed (job_AudiobookID job) (job_Attempts job) err t d2 = Inr (u, d3)"
  shows "queue_weight d3 < queue_weight d"
proof (rule mark_weight [OF _ assms(2,3)])
  show "distinct (map jb_AudiobookID (t_job d))" using assms(1) by (simp add: db_inv_def job_ok_def)
  show "d3 = d2\<lparr>t_job := map (\<lambda>j. if jb_AudiobookID j = job_AudiobookID job
      then (if job_Attempts job \<ge> MaxAttempts then give_up err t else retry_later (job_Attempts job) err t) j
      else j) (t_job d2)\<rparr>"
    using assms(4) by (simp add: MarkFailed_def Let_def)
qed (rule failed_weight, simp_all)

lemma MarkFailed_le:
  "MarkFailed i n err t d = Inr (u, d') \<Longrightarrow> queue_weight d' \<le> queue_weight d"
  by (auto simp: MarkFailed_def Let_def queue_weight_def comp_def job_weight_def give_up_def retry_later_def
      intro!: sum_list_mono)

lemma MarkCompleted_le:
  "MarkCompleted i t d = Inr (u, d') \<Longrightarrow> queue_weight d' \<le> queue_weight d"
  by (auto simp: MarkCompleted_def queue_weight_def comp_def job_weight_def complete_def intro!: sum_list_mono)


section \<open>One turn of the loop\<close>

text \<open>
  A turn of \<open>Drain\<close> either returns or goes on in another state. The measure of the loop counts the
  statements that may still fail (all of them lie before the \<open>N\<close>th) and the weight of the queue.
\<close>

definition drain_measure :: "nat \<Rightarrow> ('j, 'c) server_state \<Rightarrow> nat" where
  "drain_measure N s = (N - sv_calls s) + queue_weight (sv_db s)"

definition turn ::
  "('j, 'c) EnrichmentWorker \<Rightarrow> ('j, 'c) server_state \<Rightarrow>
   (drain_error option \<times> ('j, 'c) server_state) + ('j, 'c) server_state" where
  "turn w s =
     (case wk_ctx w (sv_calls s) of
        Some e \<Rightarrow> Inl (Some (DrainCtx e), s)
      | None \<Rightarrow>
          (case run_stmt (ClaimNext (wk_Queue w) (wk_locked w (sv_calls s))) s of
             (Inl e, s1) \<Rightarrow> Inl (Some (DrainClaim e), s1)
           | (Inr None, s1) \<Rightarrow> Inl (None, s1)
           | (Inr (Some job), s1) \<Rightarrow>
               (case process w job s1 of
                  (Some e, s2) \<Rightarrow>
                    if wk_ctx w (sv_calls s2) \<noteq> None \<or> context_error e
                    then Inl (map_option DrainCtx (wk_ctx w (sv_calls s2)), s2)
                    else Inr (snd (run_stmt
                      (MarkFailed (job_AudiobookID job) (job_Attempts job) (proc_error_text w e)) s2))
                | (None, s2) \<Rightarrow>
                    Inr (snd (run_stmt (MarkCompleted (job_AudiobookID job)) s2)))))"

lemma Drain_turn: "Drain w s = (case turn w s of Inl r \<Rightarrow> Some r | Inr s' \<Rightarrow> Drain w s')"
  by (subst Drain.simps) (simp add: turn_def split: option.split prod.split sum.split)

text \<open>Induction over the turns of a drain that returns.\<close>

lemma Drain_induct [consumes 1, case_names return turn]:
  assumes "Drain w s = Some x" and "\<And>s x. turn w s = Inl x \<Longrightarrow> P s x"
    and "\<And>s s' x. turn w s = Inr s' \<Longrightarrow> P s' x \<Longrightarrow> P s x"
  shows "P s x"
proof -
  have "w = v \<longrightarrow> P s x" if "Drain v s = Some x" for v
    using that
  proof (rule Drain.raw_induct [where P = "\<lambda>v s x. w = v \<longrightarrow> P s x", rotated], goal_cases)
    case (1 f v s x)
    from 1(2) have "(case turn v s of Inl r \<Rightarrow> Some r | Inr s' \<Rightarrow> f v s') = Some x"
      by (auto simp: turn_def split: option.split prod.split sum.split)
    with 1(1) assms(2,3) show ?case by (auto split: sum.splits)
  qed
  with assms(1) show ?thesis by blast
qed


lemma turn_Inr:
  assumes "turn w s = Inr s'"
  obtains job s1 r s2 where "run_stmt (ClaimNext (wk_Queue w) (wk_locked w (sv_calls s))) s = (Inr (Some job), s1)"
    and "process w job s1 = (r, s2)"
    and "s' = snd (run_stmt (MarkCompleted (job_AudiobookID job)) s2) \<or>
      (\<exists>err. s' = snd (run_stmt (MarkFailed (job_AudiobookID job) (job_Attempts job) err) s2))"
  using assms by (auto simp: turn_def split: option.splits sum.splits prod.splits if_splits)

text \<open>A claim that succeeds.\<close>

lemma run_claim:
  assumes "run_stmt (ClaimNext pg locked) s = (Inr r, s1)"
  shows "\<not> sv_fault s (sv_calls s)"
    and "ClaimNext pg locked (pg_time (sv_clock s (sv_calls s))) (sv_db s) = Inr (r, sv_db s1)"
  using assms by (rule_tac [!] run_stmt_db [of "ClaimNext pg locked" s]) auto

lemma run_mark:
  assumes "q (pg_time (sv_clock s (sv_calls s))) (sv_db s) = Inr (u, d3)"
  shows "sv_db (snd (run_stmt q s)) = (if sv_fault s (sv_calls s) then sv_db s else d3)"
  using assms by (simp add: run_stmt_def)

context enrichment_store_laws
begin

lemma turn_next:
  assumes "wk_Store w = St" and "db_inv (sv_db s)" and "\<And>n. N \<le> n \<Longrightarrow> \<not> sv_fault s n" and "turn w s = Inr s'"
  shows "db_inv (sv_db s')" and "sv_fault s' = sv_fault s" and "sv_clock s' = sv_clock s"
    and "drain_measure N s' < drain_measure N s"
proof -
  from turn_Inr [OF assms(4)] obtain job s1 r s2
    where claim: "run_stmt (ClaimNext (wk_Queue w) (wk_locked w (sv_calls s))) s = (Inr (Some job), s1)"
      and proc: "process w job s1 = (r, s2)"
      and mark: "s' = snd (run_stmt (MarkCompleted (job_AudiobookID job)) s2) \<or>
        (\<exists>err. s' = snd (run_stmt (MarkFailed (job_AudiobookID job) (job_Attempts job) err) s2))" .
  note c = run_claim [OF claim]
  have s1: "sv_calls s1 = Suc (sv_calls s)" "sv_fault s1 = sv_fault s" "sv_clock s1 = sv_clock s"
    using run_stmt_eqD [OF claim] by simp_all
  have s2: "sv_calls s < sv_calls s2" "sv_fault s2 = sv_fault s" "sv_clock s2 = sv_clock s"
    using process_calls [OF proc] s1 by simp_all
  have s': "sv_calls s' = Suc (sv_calls s2)" "sv_fault s' = sv_fault s" "sv_clock s' = sv_clock s"
    using mark s2 by auto
  then show "sv_fault s' = sv_fault s" and "sv_clock s' = sv_clock s" by simp_all
  have "db_inv (sv_db s1)"
    using ClaimNext_inv c(2) assms(2) unfolding keeps_inv_def by blast
  then have "db_inv (sv_db s2)" by (rule process_inv [OF assms(1) proc])
  then show "db_inv (sv_db s')"
    using mark run_stmt_inv [OF MarkCompleted_inv] run_stmt_inv [OF MarkFailed_inv] by auto
  have jobs: "t_job (sv_db s2) = t_job (sv_db s1)" by (rule process_jobs [OF assms(1) proc])
  then have le: "queue_weight (sv_db s2) \<le> queue_weight (sv_db s)"
    using claim_weight [OF c(2)] by (simp add: queue_weight_def)
  obtain d3 where d3: "sv_db s' = (if sv_fault s2 (sv_calls s2) then sv_db s2 else d3)"
    and less: "queue_weight d3 < queue_weight (sv_db s)"
  proof (cases "s' = snd (run_stmt (MarkCompleted (job_AudiobookID job)) s2)")
    case True
    moreover obtain u d3 where "MarkCompleted (job_AudiobookID job)
        (pg_time (sv_clock s2 (sv_calls s2))) (sv_db s2) = Inr (u, d3)"
      by (simp add: MarkCompleted_def)
    ultimately show thesis
      using that run_mark MarkCompleted_weight [OF assms(2) c(2) jobs] by metis
  next
    case False
    with mark obtain err where "s' = snd (run_stmt (MarkFailed (job_AudiobookID job) (job_Attempts job) err) s2)"
      by blast
    moreover obtain u d3 where "MarkFailed (job_AudiobookID job) (job_Attempts job) err
        (pg_time (sv_clock s2 (sv_calls s2))) (sv_db s2) = Inr (u, d3)"
      by (simp add: MarkFailed_def Let_def)
    ultimately show thesis
      using that run_mark MarkFailed_weight [OF assms(2) c(2) jobs] by metis
  qed
  show "drain_measure N s' < drain_measure N s"
  proof (cases "sv_fault s2 (sv_calls s2)")
    case True
    with assms(3) s2 have "sv_calls s2 < N" by (metis not_less)
    with True d3 le s2 s' show ?thesis by (simp add: drain_measure_def)
  next
    case False
    with d3 less s2 s' show ?thesis by (simp add: drain_measure_def)
  qed
qed

lemma drain_ends:
  assumes "wk_Store w = St" and "db_inv (sv_db s)" and "\<And>n. N \<le> n \<Longrightarrow> \<not> sv_fault s n"
  shows "\<exists>r s' s0. Drain w s = Some (r, s') \<and> turn w s0 = Inl (r, s') \<and> db_inv (sv_db s0) \<and>
    sv_clock s0 = sv_clock s \<and> sv_fault s0 = sv_fault s"
  using assms(2,3)
proof (induction "drain_measure N s" arbitrary: s rule: less_induct)
  case less
  show ?case
  proof (cases "turn w s")
    case (Inl p)
    then show ?thesis using less.prems by (cases p) (auto simp: Drain_turn [of w s])
  next
    case (Inr s1)
    note next_state = turn_next [OF assms(1) less.prems Inr]
    have "\<And>n. N \<le> n \<Longrightarrow> \<not> sv_fault s1 n"
      using less.prems(2) next_state(2) by simp
    from less.hyps [OF next_state(4,1) this] show ?thesis
      using Inr next_state(2,3) by (simp add: Drain_turn [of w s])
  qed
qed

end


section \<open>The store as the worker's store\<close>

definition worker_store :: "('j, 'c) EnrichmentStore" where
  "worker_store = \<lparr>es_LoadAudiobookRow = LoadAudiobookRow, es_UpdateAudiobookMetadata = UpdateAudiobookMetadata\<rparr>"

lemma worker_store_simps [simp]:
  "es_LoadAudiobookRow worker_store = LoadAudiobookRow"
  "es_UpdateAudiobookMetadata worker_store = UpdateAudiobookMetadata"
  by (simp_all add: worker_store_def)

lemma read_write_row [simp]: "ar_ID r = ab_ID a \<Longrightarrow> read_row (write_row r now a) = r"
  by (simp add: read_row_def write_row_def)

lemma find_write_row:
  "find (\<lambda>a. ab_ID a = k) (map (\<lambda>a. if ab_ID a = i then write_row r now a else a) as) =
     (if k = i then map_option (write_row r now) (find (\<lambda>a. ab_ID a = k) as) else find (\<lambda>a. ab_ID a = k) as)"
  by (induction as) auto

interpretation wstore: enrichment_store_laws worker_store
proof (unfold_locales, goal_cases)
  case (1 i now d row d')
  then show ?case
    by (auto simp: LoadAudiobookRow_def read_row_def dest: find_SomeD split: option.splits)
next
  case (4 i now d row0 row now1 u d' k now2)
  then obtain a where a: "find (\<lambda>a. ab_ID a = i) (t_audiobook d) = Some a" and "ab_ID a = ar_ID row"
    by (auto simp: LoadAudiobookRow_def dest: find_SomeD split: option.splits)
  moreover from 4 have "t_audiobook d' = map (\<lambda>a. if ab_ID a = i then write_row row now1 a else a) (t_audiobook d)"
    by (auto simp: UpdateAudiobookMetadata_def)
  ultimately show ?case
    by (simp add: LoadAudiobookRow_def find_write_row split: option.split del: find_None find_None')
qed (auto simp: UpdateAudiobookMetadata_def UpdateAudiobookMetadata_inv)


section \<open>Properties\<close>

text \<open>A source whose requests never end in a context error.\<close>

definition no_timeouts :: "Source \<Rightarrow> bool" where
  "no_timeouts src \<longleftrightarrow> (\<forall>n q region e. e = SrcCanceled \<or> e = SrcDeadline \<longrightarrow>
     s_Get src n q region \<noteq> Inl e \<and> s_Search src n q region \<noteq> Inl e)"

lemma lookup_no_context:
  "no_timeouts src \<Longrightarrow> lookup_candidate src n region row = Inl e \<Longrightarrow> \<not> context_error e"
  by (auto simp: lookup_candidate_def first_candidate_def no_timeouts_def context_error_def Let_def
      map_sum_def split: if_splits sum.splits)

lemma process_no_context:
  assumes "\<And>src. wk_Registry w (wk_SourceID w) = Some src \<Longrightarrow> no_timeouts src" and "process w j s = (Some e, s')"
  shows "\<not> context_error e"
  using assms
  by (auto simp: process_def split: option.splits sum.splits prod.splits if_splits
      dest: lookup_no_context) (auto simp: context_error_def)

lemma turn_empty:
  assumes "turn w s = Inl (r, s')" and "\<And>n. wk_ctx w n = None"
    and "\<And>src. wk_Registry w (wk_SourceID w) = Some src \<Longrightarrow> no_timeouts src"
  shows "sv_calls s' = Suc (sv_calls s) \<and>
    (if r = None then ClaimNext (wk_Queue w) (wk_locked w (sv_calls s)) (pg_time (sv_clock s (sv_calls s))) (sv_db s)
        = Inr (None, sv_db s') else sv_fault s (sv_calls s))"
proof (cases "run_stmt (ClaimNext (wk_Queue w) (wk_locked w (sv_calls s))) s")
  case (Pair c s1)
  note calls = run_stmt_eqD [OF Pair]
  show ?thesis
  proof (cases c)
    case (Inl e)
    moreover obtain x d where "ClaimNext (wk_Queue w) (wk_locked w (sv_calls s)) (pg_time (sv_clock s (sv_calls s))) (sv_db s) = Inr (x, d)"
      using ClaimNext_total by metis
    ultimately have "sv_fault s (sv_calls s)"
      using Pair by (auto simp: run_stmt_def Let_def split: if_splits)
    with assms(1,2) Pair Inl calls show ?thesis by (auto simp: turn_def)
  next
    case (Inr j)
    show ?thesis
    proof (cases j)
      case None
      with Inr Pair assms(1,2) have "r = None" and "s' = s1" by (simp_all add: turn_def)
      with Inr Pair None calls run_claim(2) show ?thesis by auto
    next
      case (Some job)
      obtain x s2 where proc: "process w job s1 = (x, s2)" by fastforce
      have "\<not> context_error e" if "x = Some e" for e
        using process_no_context [OF assms(3)] proc that by metis
      with proc Inr Pair Some assms(1,2) show ?thesis
        by (simp add: turn_def split: option.splits)
    qed
  qed
qed



definition sample_worker :: "Source \<Rightarrow> (unit, unit) EnrichmentWorker" where
  "sample_worker src = \<lparr>wk_Queue = c_server (\<lambda>s. None), wk_Store = worker_store,
     wk_Registry = worker_ForID (Register [] src), wk_SourceID = s_ID src, wk_Region = ''us'',
     wk_ctx = (\<lambda>n. None), wk_locked = (\<lambda>n. []), wk_sql_text = (\<lambda>e. ''db'')\<rparr>"

definition sample_queue :: "(unit, unit) server_state" where
  "sample_queue = \<lparr>sv_db = sample_jobs, sv_calls = 0, sv_clock = (\<lambda>n. 0), sv_fault = (\<lambda>n. n = 3)\<rparr>"

lemma sample_registry:
  "wk_Registry (sample_worker src) (wk_SourceID (sample_worker src)) = Some (sourceAdapter src)"
  by (simp add: sample_worker_def worker_ForID_def ForID_Register)




definition calm_queue :: "(unit, unit) server_state" where
  "calm_queue = sample_queue\<lparr>sv_fault := (\<lambda>n. False)\<rparr>"

definition alpha :: Audiobook where
  "alpha = sample_book ''a1'' 1 ''/m/one/a.mp3'' ''Alpha'' ''Ann''"

lemma alpha_query: "TrimSpace ''Alpha Ann'' = ''Alpha Ann''"
  by code_simp

lemma alpha_lookup:
  "lookup_candidate src n region (read_row alpha) =
     map_sum ProcSource id (first_candidate (s_Search src n ''Alpha Ann'' region))"
  by (simp add: lookup_candidate_def alpha_def read_row_def sample_book_def alpha_query)

lemma alpha_found: "find (\<lambda>a. ab_ID a = ''a1'') (t_audiobook (sample_db :: ('j, 'c) db)) = Some alpha"
  by (simp add: sample_db_def alpha_def sample_book_def)


text \<open>
  C36. A request that times out upstream, with the worker's own context alive, ends the whole drain: it
  returns nil as if the queue were empty, and the job table is left as the claim left it, so the job has
  no recorded failure and the other ready jobs wait.
\<close>

theorem upstream_timeout_ends_drain:
  assumes "wk_Store w = worker_store" and "\<forall>n. wk_ctx w n = None"
    and "run_stmt (ClaimNext (wk_Queue w) (wk_locked w (sv_calls s))) s = (Inr (Some job), s1)"
    and "process w job s1 = (Some (ProcSource SrcDeadline), s2)"
  shows "Drain w s = Some (None, s2) \<and> t_job (sv_db s2) = t_job (sv_db s1)"
  using assms wstore.process_jobs [OF assms(1,4)]
  by (simp add: Drain_turn [of w s] turn_def context_error_def)

definition slow_source :: Source where
  "slow_source = sample_source ''audnexus''\<lparr>s_Search := (\<lambda>n q region. Inl SrcDeadline)\<rparr>"

theorem upstream_timeout_ends_drain_witness:
  "\<exists>s'. Drain (sample_worker slow_source) calm_queue = Some (None, s') \<and>
     t_job (sv_db s') = [new_job ''b2'' 0, lease 0 (new_job ''a1'' 0)] \<and> ready 0 (new_job ''b2'' 0)"
proof -
  let ?w = "sample_worker slow_source" and ?job = "\<lparr>job_AudiobookID = ''a1'', job_Attempts = 1\<rparr>"
  have "wk_Store ?w = worker_store" and "\<forall>n. wk_ctx ?w n = None"
    by (simp_all add: sample_worker_def)
  moreover obtain s1 where claim: "run_stmt (ClaimNext (wk_Queue ?w) (wk_locked ?w (sv_calls calm_queue))) calm_queue = (Inr (Some ?job), s1)"
    and s1: "t_job (sv_db s1) = [new_job ''b2'' 0, lease 0 (new_job ''a1'' 0)]" "sv_fault s1 = (\<lambda>n. False)"
      "t_audiobook (sv_db s1) = t_audiobook (sample_db :: (unit, unit) db)"
    by (simp add: run_stmt_def calm_queue_def sample_queue_def sample_worker_def claim_eval pg_time_def)
  moreover obtain s2 where "process ?w ?job s1 = (Some (ProcSource SrcDeadline), s2)"
  proof -
    have "run_stmt (LoadAudiobookRow ''a1'') s1 = (Inr (read_row alpha), s1\<lparr>sv_calls := Suc (sv_calls s1)\<rparr>)"
      by (simp add: run_stmt_def LoadAudiobookRow_def s1 alpha_found)
    moreover have "s_Search (sourceAdapter slow_source) n q region = Inl SrcDeadline" for n q region
      by (simp add: sourceAdapter_def slow_source_def)
    moreover have "wk_Store ?w = worker_store" by (simp add: sample_worker_def)
    ultimately show thesis
      using that by (simp add: process_def sample_registry alpha_lookup first_candidate_def)
  qed
  ultimately show ?thesis
    using upstream_timeout_ends_drain [of ?w calm_queue ?job s1 s2] by (simp add: ready_def new_job_def)
qed

end
