(* ===== verification/Filepath.thy ===== *)
theory Filepath
  imports Go_Strings
begin

text \<open>
  The functions of Go's \<^verbatim>\<open>path/filepath\<close> (Unix) the program calls. \<open>Clean\<close> is stated on the components
  between slashes, which is what the byte loop of the library computes.
\<close>

abbreviation slash :: char where
  "slash \<equiv> CHR ''/''"

fun split_slash :: "string \<Rightarrow> string list" where
  "split_slash [] = [[]]"
| "split_slash (c # s) =
     (if c = slash then [] # split_slash s
      else case split_slash s of w # ws \<Rightarrow> (c # w) # ws | [] \<Rightarrow> [[c]])"

definition IsAbs :: "string \<Rightarrow> bool" where
  "IsAbs p \<longleftrightarrow> HasPrefix p ''/''"

text \<open>One component onto the reversed list of those kept so far.\<close>

definition push_component :: "bool \<Rightarrow> string \<Rightarrow> string list \<Rightarrow> string list" where
  "push_component rooted w ws =
     (if w = [] \<or> w = ''.'' then ws
      else if w = ''..'' then
        (case ws of
           [] \<Rightarrow> if rooted then [] else [w]
         | v # vs \<Rightarrow> if v = ''..'' then w # ws else vs)
      else w # ws)"

definition clean_components :: "bool \<Rightarrow> string list \<Rightarrow> string list" where
  "clean_components rooted ws = rev (fold (push_component rooted) ws [])"

definition Clean :: "string \<Rightarrow> string" where
  "Clean p =
     (let body = Join (clean_components (IsAbs p) (split_slash p)) ''/''
      in if IsAbs p then slash # body else if body = [] then ''.'' else body)"

text \<open>The text up to and including the last slash, cleaned.\<close>

definition Dir :: "string \<Rightarrow> string" where
  "Dir p = Clean (case LastIndexByte p slash of None \<Rightarrow> [] | Some i \<Rightarrow> take (Suc i) p)"

definition strip_slashes :: "string \<Rightarrow> string" where
  "strip_slashes p = rev (dropWhile (\<lambda>c. c = slash) (rev p))"

definition Base :: "string \<Rightarrow> string" where
  "Base p =
     (if p = [] then ''.''
      else let q = strip_slashes p;
               b = (case LastIndexByte q slash of None \<Rightarrow> q | Some i \<Rightarrow> drop (Suc i) q)
           in if b = [] then ''/'' else b)"

text \<open>\<^verbatim>\<open>Join\<close> of two elements; an empty first element is left out.\<close>

definition Join2 :: "string \<Rightarrow> string \<Rightarrow> string" where
  "Join2 a b =
     (if a \<noteq> [] then Clean (a @ ''/'' @ b) else if b \<noteq> [] then Clean b else [])"

text \<open>The suffix from the last dot of the last element.\<close>

fun ext_rev :: "string \<Rightarrow> string \<Rightarrow> string" where
  "ext_rev acc [] = []"
| "ext_rev acc (c # s) =
     (if c = slash then [] else if c = CHR ''.'' then c # acc else ext_rev (c # acc) s)"

definition Ext :: "string \<Rightarrow> string" where
  "Ext p = ext_rev [] (rev p)"


section \<open>Cleaned absolute paths\<close>

text \<open>A component that names an entry of a directory.\<close>

definition proper :: "string \<Rightarrow> bool" where
  "proper w \<longleftrightarrow> w \<noteq> [] \<and> w \<noteq> ''.'' \<and> w \<noteq> ''..'' \<and> slash \<notin> set w"

lemma split_slash_no_slash: "w \<in> set (split_slash p) \<Longrightarrow> slash \<notin> set w"
  by (induction p arbitrary: w) (auto split: if_splits list.splits)

lemma split_slash_nonempty [simp]: "split_slash p \<noteq> []"
  by (cases p) (auto split: list.splits)

lemma split_slash_component: "slash \<notin> set w \<Longrightarrow> split_slash (w @ slash # p) = w # split_slash p"
  by (induction w) auto

lemma split_slash_last: "slash \<notin> set w \<Longrightarrow> split_slash w = [w]"
  by (induction w) auto

lemma push_proper: "proper w \<Longrightarrow> push_component rooted w ws = w # ws"
  by (simp add: push_component_def proper_def)

lemma push_keeps_proper:
  "list_all proper ws \<Longrightarrow> slash \<notin> set w \<Longrightarrow> list_all proper (push_component True w ws)"
  by (auto simp: push_component_def proper_def split: list.splits)

lemma fold_push_proper:
  "list_all proper acc \<Longrightarrow> (\<And>w. w \<in> set ws \<Longrightarrow> slash \<notin> set w) \<Longrightarrow>
     list_all proper (fold (push_component True) ws acc)"
  by (induction ws arbitrary: acc) (auto intro: push_keeps_proper)

lemma fold_push_id:
  "list_all proper ws \<Longrightarrow> fold (push_component rooted) ws acc = rev ws @ acc"
  by (induction ws arbitrary: acc) (auto simp: push_proper)

lemma split_slash_Join:
  "list_all proper ws \<Longrightarrow> ws \<noteq> [] \<Longrightarrow> split_slash (Join ws ''/'') = ws"
  by (induction ws "''/''" rule: Join.induct)
    (auto simp: proper_def split_slash_component split_slash_last)

lemma Clean_abs:
  assumes "IsAbs p"
  obtains ws where "list_all proper ws" and "Clean p = slash # Join ws ''/''"
    and "ws = clean_components True (split_slash p)"
proof -
  let ?ws = "clean_components True (split_slash p)"
  have "list_all proper ?ws"
    using fold_push_proper [of "[]" "split_slash p"] split_slash_no_slash
    by (auto simp: clean_components_def list_all_iff)
  with assms that show thesis by (simp add: Clean_def)
qed

lemma clean_components_proper: "list_all proper ws \<Longrightarrow> clean_components rooted ws = ws"
  by (simp add: clean_components_def fold_push_id)

lemma IsAbs_slash [simp]: "IsAbs (slash # p)"
  by (simp add: IsAbs_def HasPrefix_def)

lemma Clean_proper:
  assumes "list_all proper ws"
  shows "Clean (slash # Join ws ''/'') = slash # Join ws ''/''"
proof (cases "ws = []")
  case True
  then show ?thesis
    by (simp add: Clean_def clean_components_def push_component_def)
next
  case False
  then have "split_slash (slash # Join ws ''/'') = [] # ws"
    using assms by (simp add: split_slash_Join)
  moreover have "clean_components True ([] # ws) = ws"
    using assms by (simp add: clean_components_def push_component_def fold_push_id)
  ultimately show ?thesis
    by (simp add: Clean_def)
qed

text \<open>Cleaning an absolute path twice is cleaning it once, and leaves no \<^verbatim>\<open>..\<close> component.\<close>

lemma Clean_idem: "IsAbs p \<Longrightarrow> Clean (Clean p) = Clean p"
  by (metis Clean_abs Clean_proper)

lemma Join_snoc: "ws \<noteq> [] \<Longrightarrow> Join (ws @ [w]) sep = Join ws sep @ sep @ w"
  by (induction ws sep rule: Join.induct) auto

text \<open>Joining an entry name to a cleaned absolute directory appends one component.\<close>

lemma Join2_proper:
  assumes "list_all proper ws" and "proper w"
  shows "Join2 (slash # Join ws ''/'') w = slash # Join (ws @ [w]) ''/''"
proof (cases "ws = []")
  case True
  have "split_slash (slash # slash # w) = [[], [], w]"
    using assms(2) by (simp add: proper_def split_slash_last)
  with True assms show ?thesis
    by (simp add: Join2_def Clean_def clean_components_def push_component_def proper_def)
next
  case False
  then have "(slash # Join ws ''/'') @ ''/'' @ w = slash # Join (ws @ [w]) ''/''"
    by (simp add: Join_snoc)
  with assms Clean_proper [of "ws @ [w]"] show ?thesis by (simp add: Join2_def)
qed

lemma Join_proper_Nil: "list_all proper ws \<Longrightarrow> Join ws ''/'' = [] \<longleftrightarrow> ws = []"
  by (auto simp: Join_eq_Nil proper_def)

lemma Join_inj:
  assumes "list_all proper vs" and "list_all proper ws" and "Join vs ''/'' = Join ws ''/''"
  shows "vs = ws"
  using assms split_slash_Join Join_proper_Nil by metis

end
