(* ===== verification/Audio_Files.thy ===== *)
theory Audio_Files
  imports Filepath "HOL-Library.Word"
begin

text \<open>
  What the scanner reads out of one file: \<^verbatim>\<open>internal/scanner/m4b.go\<close>, \<^verbatim>\<open>m4b_mp4.go\<close>, \<^verbatim>\<open>mp3.go\<close> and
  the dispatch on the extension in \<^verbatim>\<open>scan.go\<close>. The operating system, the tag reader
  (\<^verbatim>\<open>dhowden/tag\<close>) and the box reader (\<^verbatim>\<open>abema/go-mp4\<close>) are parameters, gathered in \<open>media\<close>.
\<close>

datatype raw_value = RawString string | RawOther

record picture =
  pic_MIMEType :: string
  pic_Data :: bytes

text \<open>\<^verbatim>\<open>tag.Metadata\<close>: the accessors the parsers call.\<close>

record tag_metadata =
  tm_Title :: string
  tm_Album :: string
  tm_Genre :: string
  tm_Comment :: string
  tm_Artist :: string
  tm_AlbumArtist :: string
  tm_Year :: int
  tm_Raw :: "(string \<times> raw_value) list"
  tm_Picture :: "picture option"

text \<open>The payload of a box: the two types the code asserts, or another.\<close>

datatype mp4_payload = Mvhd "32 word" "64 word" | Data nat bytes | OtherPayload

record media =
  os_Open :: "string \<Rightarrow> bytes option"
  os_ReadFile :: "string \<Rightarrow> bytes option"
  f_Seek :: "bytes \<Rightarrow> bool"
  tag_ReadFrom :: "bytes \<Rightarrow> tag_metadata option"
  mp4_moov_mvhd :: "bytes \<Rightarrow> mp4_payload list"
  mp4_covr_data :: "bytes \<Rightarrow> mp4_payload list"
  DataTypeStringJPEG :: nat
  DataTypeBinary :: nat

record ParsedChapter =
  pc_Idx :: int
  pc_Title :: string
  pc_StartMs :: int
  pc_EndMs :: int

record ParsedM4B =
  pm_Title :: string
  pm_Author :: string
  pm_Narrator :: string
  pm_Album :: string
  pm_Year :: string
  pm_Genre :: string
  pm_ISBN :: string
  pm_ASIN :: string
  pm_Description :: string
  pm_Chapters :: "ParsedChapter list"
  pm_CoverBytes :: bytes
  pm_CoverMIME :: string
  pm_CoverSource :: string
  pm_DurationMs :: int

definition zero_parsed :: ParsedM4B where
  "zero_parsed = \<lparr>pm_Title = [], pm_Author = [], pm_Narrator = [], pm_Album = [], pm_Year = [],
     pm_Genre = [], pm_ISBN = [], pm_ASIN = [], pm_Description = [], pm_Chapters = [],
     pm_CoverBytes = [], pm_CoverMIME = [], pm_CoverSource = [], pm_DurationMs = 0\<rparr>"


section \<open>Tags\<close>

text \<open>The album artist is the author; the artist is the narrator, or the author for want of one.\<close>

definition credits :: "string \<Rightarrow> string \<Rightarrow> string \<times> string" where
  "credits albumArtist artist =
     (if albumArtist \<noteq> [] \<and> artist \<noteq> [] \<and> albumArtist \<noteq> artist then (albumArtist, artist)
      else if albumArtist \<noteq> [] then (albumArtist, artist)
      else if artist \<noteq> [] then (artist, [])
      else ([], []))"

definition raw_string :: "tag_metadata \<Rightarrow> string \<Rightarrow> string" where
  "raw_string m k = (case map_of (tm_Raw m) k of Some (RawString v) \<Rightarrow> v | _ \<Rightarrow> [])"

definition read_tags :: "tag_metadata \<Rightarrow> ParsedM4B \<Rightarrow> ParsedM4B" where
  "read_tags m out =
     (let (author, narrator) = credits (tm_AlbumArtist m) (tm_Artist m) in
      out\<lparr>pm_Title := tm_Title m, pm_Album := tm_Album m, pm_Genre := tm_Genre m,
          pm_Year := (if tm_Year m > 0 then FormatInt (tm_Year m) else []),
          pm_Description := tm_Comment m, pm_Author := author, pm_Narrator := narrator,
          pm_ASIN := raw_string m ''asin'', pm_ISBN := raw_string m ''isbn''\<rparr>)"


section \<open>Boxes\<close>

definition maxDurationSeconds :: nat where
  "maxDurationSeconds = 1000000"

definition maxStoredCoverBytes :: nat where
  "maxStoredCoverBytes = 8 * 2 ^ 20"

record mp4Result =
  mr_durationMs :: int
  mr_chapters :: "ParsedChapter list"
  mr_cover :: bytes
  mr_coverMIME :: string

text \<open>\<^verbatim>\<open>uint64\<close> division, then the cast to \<^verbatim>\<open>int64\<close> and the product, which wraps.\<close>

definition mvhd_duration :: "32 word \<Rightarrow> 64 word \<Rightarrow> int" where
  "mvhd_duration timescale d =
     (let secs = d div ucast timescale;
          secs' = (if secs > of_nat maxDurationSeconds then 0 else secs)
      in wrap64 (wrap64 (uint secs') * 1000))"

fun read_duration :: "mp4_payload list \<Rightarrow> int \<Rightarrow> int" where
  "read_duration [] acc = acc"
| "read_duration (Mvhd ts d # bs) acc =
     read_duration bs (if ucast ts > (0 :: 64 word) then mvhd_duration ts d else acc)"
| "read_duration (_ # bs) acc = read_duration bs acc"

definition cover_mime :: "media \<Rightarrow> nat \<Rightarrow> string" where
  "cover_mime env t =
     (if t = DataTypeStringJPEG env then ''image/jpeg''
      else if t = DataTypeBinary env then ''image/png''
      else ''application/octet-stream'')"

fun read_cover :: "media \<Rightarrow> mp4_payload list \<Rightarrow> bytes \<times> string" where
  "read_cover env [] = ([], [])"
| "read_cover env (Data t b # bs) =
     (if length b > maxStoredCoverBytes then read_cover env bs else (b, cover_mime env t))"
| "read_cover env (_ # bs) = read_cover env bs"

definition readChapAtoms :: "bytes \<Rightarrow> ParsedChapter list" where
  "readChapAtoms f = []"

definition parseMP4 :: "media \<Rightarrow> bytes \<Rightarrow> mp4Result" where
  "parseMP4 env f =
     (let (cover, mime) = read_cover env (mp4_covr_data env f) in
      \<lparr>mr_durationMs = read_duration (mp4_moov_mvhd env f) 0, mr_chapters = readChapAtoms f,
       mr_cover = cover, mr_coverMIME = mime\<rparr>)"


section \<open>The two parsers\<close>

definition sidecar_candidates :: "(string \<times> string) list" where
  "sidecar_candidates =
     [(''cover.jpg'', ''image/jpeg''), (''cover.png'', ''image/png''), (''folder.jpg'', ''image/jpeg'')]"

fun first_readable :: "media \<Rightarrow> string \<Rightarrow> (string \<times> string) list \<Rightarrow> bytes \<times> string" where
  "first_readable env dir [] = ([], [])"
| "first_readable env dir ((name, mime) # cs) =
     (case os_ReadFile env (Join2 dir name) of
        Some b \<Rightarrow> (b, mime)
      | None \<Rightarrow> first_readable env dir cs)"

definition readSidecarCover :: "media \<Rightarrow> string \<Rightarrow> bytes \<times> string" where
  "readSidecarCover env audioPath = first_readable env (Dir audioPath) sidecar_candidates"

definition sidecar_fallback :: "media \<Rightarrow> string \<Rightarrow> ParsedM4B \<Rightarrow> ParsedM4B" where
  "sidecar_fallback env path out =
     (if pm_CoverBytes out \<noteq> [] then out
      else let (b, mime) = readSidecarCover env path in
           if b = [] then out
           else out\<lparr>pm_CoverBytes := b, pm_CoverMIME := mime, pm_CoverSource := ''sidecar''\<rparr>)"

definition whole_file_chapter :: "int \<Rightarrow> ParsedChapter" where
  "whole_file_chapter dur = \<lparr>pc_Idx = 0, pc_Title = ''Chapter 1'', pc_StartMs = 0, pc_EndMs = dur\<rparr>"

datatype parse_error = OpenFailed | UnsupportedExtension

definition read_boxes :: "media \<Rightarrow> bytes \<Rightarrow> ParsedM4B \<Rightarrow> ParsedM4B" where
  "read_boxes env f out =
     (let b = parseMP4 env f in
      out\<lparr>pm_DurationMs := mr_durationMs b, pm_CoverBytes := mr_cover b,
          pm_CoverMIME := mr_coverMIME b, pm_Chapters := mr_chapters b,
          pm_CoverSource := (if mr_cover b \<noteq> [] then ''embedded'' else pm_CoverSource out)\<rparr>)"

definition synthesize_chapter :: "ParsedM4B \<Rightarrow> ParsedM4B" where
  "synthesize_chapter out =
     (if pm_Chapters out = [] \<and> pm_DurationMs out > 0
      then out\<lparr>pm_Chapters := [whole_file_chapter (pm_DurationMs out)]\<rparr> else out)"

definition ParseM4B :: "media \<Rightarrow> string \<Rightarrow> parse_error + ParsedM4B" where
  "ParseM4B env path =
     (case os_Open env path of
        None \<Rightarrow> Inl OpenFailed
      | Some f \<Rightarrow>
          (let out = (case tag_ReadFrom env f of None \<Rightarrow> zero_parsed | Some m \<Rightarrow> read_tags m zero_parsed);
               out = (if f_Seek env f then read_boxes env f out else out)
           in Inr (sidecar_fallback env path (synthesize_chapter out))))"

text \<open>A value under either key that is a string of digits greater than zero.\<close>

fun tlen_from :: "(string \<times> raw_value) list \<Rightarrow> string list \<Rightarrow> int" where
  "tlen_from raw [] = 0"
| "tlen_from raw (k # ks) =
     (case map_of raw k of
        Some (RawString v) \<Rightarrow>
          (let s = TrimSpace v in
           if s = [] then tlen_from raw ks
           else case ParseInt s of
                  Some n \<Rightarrow> if n > 0 then n else tlen_from raw ks
                | None \<Rightarrow> tlen_from raw ks)
      | _ \<Rightarrow> tlen_from raw ks)"

definition parseTLEN :: "(string \<times> raw_value) list \<Rightarrow> int" where
  "parseTLEN raw = tlen_from raw [''TLEN'', ''tlen'']"

definition mp3_picture :: "tag_metadata \<Rightarrow> ParsedM4B \<Rightarrow> ParsedM4B" where
  "mp3_picture m out =
     (case tm_Picture m of
        None \<Rightarrow> out
      | Some pic \<Rightarrow>
          if length (pic_Data pic) > 0 \<and> length (pic_Data pic) \<le> maxStoredCoverBytes
          then out\<lparr>pm_CoverBytes := pic_Data pic, pm_CoverMIME := pic_MIMEType pic,
                   pm_CoverSource := ''embedded''\<rparr>
          else out)"

definition ParseMP3 :: "media \<Rightarrow> string \<Rightarrow> parse_error + ParsedM4B" where
  "ParseMP3 env path =
     (case os_Open env path of
        None \<Rightarrow> Inl OpenFailed
      | Some f \<Rightarrow>
          (let out = (case tag_ReadFrom env f of
                 None \<Rightarrow> zero_parsed
               | Some m \<Rightarrow>
                   mp3_picture m ((read_tags m zero_parsed)\<lparr>pm_DurationMs := parseTLEN (tm_Raw m)\<rparr>));
               out = sidecar_fallback env path out
           in Inr (out\<lparr>pm_Chapters := [whole_file_chapter (pm_DurationMs out)]\<rparr>)))"

definition supportedExtension :: "unicode \<Rightarrow> string \<Rightarrow> string" where
  "supportedExtension u ext =
     (let e = ToLower u ext in
      if e = ''.m4b'' then ''m4b'' else if e = ''.mp3'' then ''mp3'' else [])"

definition parseAudio :: "unicode \<Rightarrow> media \<Rightarrow> string \<Rightarrow> parse_error + ParsedM4B" where
  "parseAudio u env path =
     (let k = supportedExtension u (Ext path) in
      if k = ''m4b'' then ParseM4B env path
      else if k = ''mp3'' then ParseMP3 env path
      else Inl UnsupportedExtension)"


section \<open>What a parse result satisfies\<close>

definition cover_wf :: "ParsedM4B \<Rightarrow> bool" where
  "cover_wf p \<longleftrightarrow>
     (if pm_CoverBytes p = [] then pm_CoverSource p = []
      else pm_CoverSource p = ''sidecar'' \<or>
        (pm_CoverSource p = ''embedded'' \<and> length (pm_CoverBytes p) \<le> maxStoredCoverBytes))"

definition duration_wf :: "ParsedM4B \<Rightarrow> bool" where
  "duration_wf p \<longleftrightarrow> 0 \<le> pm_DurationMs p \<and> is_int64 (pm_DurationMs p)"

definition chapters_wf :: "ParsedM4B \<Rightarrow> bool" where
  "chapters_wf p \<longleftrightarrow>
     pm_Chapters p = [whole_file_chapter (pm_DurationMs p)] \<or>
     (pm_Chapters p = [] \<and> pm_DurationMs p = 0)"

text \<open>The duration of a plausible header is exact to the second; an implausible one counts as unknown.\<close>

lemma mvhd_duration_exact:
  "mvhd_duration ts d =
     (if uint d div uint ts \<le> 1000000 then uint d div uint ts * 1000 else 0)"
proof -
  let ?secs = "d div ucast ts :: 64 word"
  have secs: "uint ?secs = uint d div uint ts"
    by (simp add: uint_div_distrib uint_up_ucast is_up)
  have gt: "?secs > of_nat maxDurationSeconds \<longleftrightarrow> \<not> uint d div uint ts \<le> 1000000"
    by (simp add: word_less_def secs maxDurationSeconds_def not_le)
  have "0 \<le> uint d div uint ts"
    by (cases "uint ts = 0") (simp_all add: pos_imp_zdiv_nonneg_iff less_le)
  then show ?thesis
    by (auto simp: mvhd_duration_def Let_def gt secs is_int64_def)
qed

lemma mvhd_duration_bounds: "0 \<le> mvhd_duration ts d" "mvhd_duration ts d \<le> 1000000000"
proof -
  have "0 \<le> uint d div uint ts"
    by (cases "uint ts = 0") (simp_all add: pos_imp_zdiv_nonneg_iff less_le)
  then show "0 \<le> mvhd_duration ts d" "mvhd_duration ts d \<le> 1000000000"
    by (auto simp: mvhd_duration_exact)
qed

lemma read_duration_bounds:
  "0 \<le> acc \<Longrightarrow> acc \<le> 1000000000 \<Longrightarrow> 0 \<le> read_duration bs acc \<and> read_duration bs acc \<le> 1000000000"
  by (induction bs acc rule: read_duration.induct) (simp_all add: mvhd_duration_bounds)

lemma read_cover_bound: "length (fst (read_cover env bs)) \<le> maxStoredCoverBytes"
  by (induction env bs rule: read_cover.induct) auto

lemma tlen_bounds: "0 \<le> tlen_from raw ks \<and> is_int64 (tlen_from raw ks)"
proof (induction ks)
  case (Cons k ks)
  have "is_int64 n" if "ParseInt s = Some n" for s n
    using that by (auto simp: ParseInt_def Let_def split: prod.splits option.splits if_splits)
  with Cons show ?case
    by (auto simp: Let_def split: option.splits raw_value.splits)
qed (simp add: is_int64_def)


lemma read_boxes_wf:
  assumes "pm_CoverSource out = []"
  shows "cover_wf (read_boxes env f out)" and "duration_wf (read_boxes env f out)"
    and "pm_Chapters (read_boxes env f out) = []"
    and "pm_DurationMs (read_boxes env f out) \<le> 1000000000"
  using assms read_cover_bound [of env "mp4_covr_data env f"]
    read_duration_bounds [of 0 "mp4_moov_mvhd env f"]
  by (auto simp: read_boxes_def parseMP4_def Let_def readChapAtoms_def cover_wf_def duration_wf_def
      is_int64_def split: prod.splits)

lemma sidecar_keeps:
  "pm_DurationMs (sidecar_fallback env path out) = pm_DurationMs out"
  "pm_Chapters (sidecar_fallback env path out) = pm_Chapters out"
  "cover_wf out \<Longrightarrow> cover_wf (sidecar_fallback env path out)"
  by (auto simp: sidecar_fallback_def Let_def cover_wf_def split: prod.splits)

lemma synthesize_keeps:
  "pm_DurationMs (synthesize_chapter out) = pm_DurationMs out"
  "cover_wf (synthesize_chapter out) = cover_wf out"
  "duration_wf out \<Longrightarrow> pm_Chapters out = [] \<Longrightarrow> chapters_wf (synthesize_chapter out)"
  by (auto simp: synthesize_chapter_def cover_wf_def chapters_wf_def duration_wf_def)

lemma read_tags_keeps [simp]:
  "pm_CoverSource (read_tags m out) = pm_CoverSource out"
  "pm_CoverBytes (read_tags m out) = pm_CoverBytes out"
  "pm_Chapters (read_tags m out) = pm_Chapters out"
  "pm_DurationMs (read_tags m out) = pm_DurationMs out"
  by (simp_all add: read_tags_def split: prod.splits)

lemma zero_parsed_simps [simp]:
  "pm_CoverSource zero_parsed = []" "pm_CoverBytes zero_parsed = []" "pm_Chapters zero_parsed = []"
  "pm_DurationMs zero_parsed = 0"
  by (simp_all add: zero_parsed_def)

lemma ParseM4B_wf:
  assumes "ParseM4B env path = Inr p"
  shows "cover_wf p" and "duration_wf p" and "chapters_wf p" and "pm_DurationMs p \<le> 1000000000"
proof -
  obtain f where "os_Open env path = Some f"
    using assms by (auto simp: ParseM4B_def split: option.splits)
  define tags where "tags = (case tag_ReadFrom env f of None \<Rightarrow> zero_parsed | Some m \<Rightarrow> read_tags m zero_parsed)"
  define out where "out = (if f_Seek env f then read_boxes env f tags else tags)"
  have p: "p = sidecar_fallback env path (synthesize_chapter out)"
    using assms \<open>os_Open env path = Some f\<close> by (auto simp: ParseM4B_def out_def tags_def Let_def)
  have tags: "pm_CoverSource tags = []" "pm_CoverBytes tags = []" "pm_Chapters tags = []"
    "pm_DurationMs tags = 0"
    by (simp_all add: tags_def split: option.split)
  have out: "cover_wf out" "duration_wf out" "pm_Chapters out = []" "pm_DurationMs out \<le> 1000000000"
    using read_boxes_wf [OF tags(1), of env f] tags
    by (simp_all add: out_def cover_wf_def duration_wf_def is_int64_def)
  show "cover_wf p" "duration_wf p" "chapters_wf p" "pm_DurationMs p \<le> 1000000000"
    using out synthesize_keeps [of out] sidecar_keeps [where out = "synthesize_chapter out"]
    by (simp_all add: p duration_wf_def chapters_wf_def)
qed

lemma ParseMP3_wf:
  assumes "ParseMP3 env path = Inr p"
  shows "cover_wf p" and "duration_wf p" and "chapters_wf p"
proof -
  obtain f where "os_Open env path = Some f"
    using assms by (auto simp: ParseMP3_def split: option.splits)
  define out where "out = (case tag_ReadFrom env f of
      None \<Rightarrow> zero_parsed
    | Some m \<Rightarrow> mp3_picture m ((read_tags m zero_parsed)\<lparr>pm_DurationMs := parseTLEN (tm_Raw m)\<rparr>))"
  let ?q = "sidecar_fallback env path out"
  have p: "p = ?q\<lparr>pm_Chapters := [whole_file_chapter (pm_DurationMs ?q)]\<rparr>"
    using assms \<open>os_Open env path = Some f\<close> by (simp add: ParseMP3_def out_def Let_def)
  have "0 \<le> parseTLEN raw" "is_int64 (parseTLEN raw)" for raw
    using tlen_bounds by (simp_all only: parseTLEN_def)
  moreover have "is_int64 0" by (simp add: is_int64_def)
  ultimately have "cover_wf out" and "duration_wf out"
    by (auto simp: out_def mp3_picture_def cover_wf_def duration_wf_def split: option.split)
  then show "cover_wf p" "duration_wf p" "chapters_wf p"
    using sidecar_keeps [where out = out]
    by (auto simp: p cover_wf_def duration_wf_def chapters_wf_def)
qed

lemma parseAudio_wf:
  "parseAudio u env path = Inr p \<Longrightarrow> cover_wf p \<and> duration_wf p \<and> chapters_wf p"
  by (auto simp: parseAudio_def Let_def ParseM4B_wf ParseMP3_wf split: if_splits)


section \<open>Properties\<close>

text \<open>
  C30. Whatever a (possibly crafted) file contains, a parse that succeeds gives a duration that is a
  non-negative \<^verbatim>\<open>int64\<close> (for M4B at most a million seconds, with no overflow of the uint64 arithmetic), an
  embedded cover of at most 8 MiB, a cover source the database accepts exactly when there is a cover,
  and at most one chapter, which spans the whole file.
\<close>

theorem parse_result_bounded:
  assumes "parseAudio u env path = Inr p"
  shows "0 \<le> pm_DurationMs p \<and> pm_DurationMs p < 2 ^ 63 \<and>
    (supportedExtension u (Ext path) = ''m4b'' \<longrightarrow> pm_DurationMs p \<le> 1000000 * 1000) \<and>
    (pm_CoverSource p = ''embedded'' \<longrightarrow> length (pm_CoverBytes p) \<le> 8 * 2 ^ 20) \<and>
    (pm_CoverBytes p \<noteq> [] \<longleftrightarrow> pm_CoverSource p = ''embedded'' \<or> pm_CoverSource p = ''sidecar'') \<and>
    (pm_Chapters p = [whole_file_chapter (pm_DurationMs p)] \<or>
     (pm_Chapters p = [] \<and> pm_DurationMs p = 0))"
proof -
  have "pm_DurationMs p \<le> 1000000000" if "supportedExtension u (Ext path) = ''m4b''"
    using that assms ParseM4B_wf(4) by (simp add: parseAudio_def)
  with parseAudio_wf [OF assms] show ?thesis
    by (auto simp: cover_wf_def duration_wf_def chapters_wf_def is_int64_def maxStoredCoverBytes_def
        split: if_splits)
qed

definition sample_media :: media where
  "sample_media = \<lparr>os_Open = (\<lambda>p. Some ''file''), os_ReadFile = (\<lambda>p. None), f_Seek = (\<lambda>f. True),
     tag_ReadFrom = (\<lambda>f. None), mp4_moov_mvhd = (\<lambda>f. [Mvhd 1000 90500]),
     mp4_covr_data = (\<lambda>f. [Data 13 ''jpg'']), DataTypeStringJPEG = 13, DataTypeBinary = 0\<rparr>"

definition sample_unicode :: unicode where
  "sample_unicode = \<lparr>map_to_lower = (\<lambda>s. s), fold_equal = (=)\<rparr>"

lemma lower_m4b: "supportedExtension u (Ext ''/m/a.M4B'') = ''m4b''"
proof -
  have "map ascii_lower ''.M4B'' = ''.m4b''" by code_simp
  then show ?thesis
    by (simp add: supportedExtension_def Ext_def ToLower_def is_ascii_def del: list.map)
qed

lemma sample_duration: "mvhd_duration 1000 90500 = 90000"
  by (simp add: mvhd_duration_exact)

theorem parse_result_bounded_witness:
  "\<exists>p. parseAudio sample_unicode sample_media ''/m/a.M4B'' = Inr p \<and> pm_DurationMs p = 90000 \<and>
     pm_CoverSource p = ''embedded'' \<and> length (pm_CoverBytes p) \<le> 8 * 2 ^ 20"
proof -
  obtain p where p: "parseAudio sample_unicode sample_media ''/m/a.M4B'' = Inr p"
    and "pm_DurationMs p = 90000" "pm_CoverSource p = ''embedded''"
    by (simp add: parseAudio_def lower_m4b ParseM4B_def sample_media_def read_boxes_def parseMP4_def
        synthesize_chapter_def sidecar_fallback_def readChapAtoms_def maxStoredCoverBytes_def
        sample_duration Let_def)
  with parse_result_bounded [OF p] show ?thesis by auto
qed

end
