(* ===== verification/Scanner.thy ===== *)
theory Scanner
  imports Queue Audio_Files
begin

text \<open>
  The library scan: \<^verbatim>\<open>internal/scanner/id.go\<close> and \<^verbatim>\<open>scan.go\<close>. The walk is written against the Go
  interface \<^verbatim>\<open>ScanStore\<close>, here a record of operations on an abstract state; the locale
  \<open>scan_store_laws\<close> says what the walk relies on, and the walk's theorems are proved in it.
  Theory \<open>Store_Adapter\<close> discharges the laws for the adapter over the database.
\<close>


section \<open>id.go\<close>

text \<open>\<open>blake\<close> is 128-bit BLAKE2b.\<close>

definition stable_preimage :: "string \<Rightarrow> int \<Rightarrow> time \<Rightarrow> bytes" where
  "stable_preimage path sz mtime =
     path @ CHR 0x00 # FormatInt sz @ CHR 0x00 # FormatInt (wrap64 mtime)"

definition StableID :: "(bytes \<Rightarrow> bytes) \<Rightarrow> string \<Rightarrow> int \<Rightarrow> time \<Rightarrow> string" where
  "StableID blake path sz mtime = hex_EncodeToString (blake (stable_preimage path sz mtime))"

lemma split_at_unique:
  "c \<notin> set a \<Longrightarrow> c \<notin> set b \<Longrightarrow> a @ c # s = b @ c # t \<Longrightarrow> a = b \<and> s = t"
  by (induction a b rule: list_induct2') auto

lemma stable_preimage_inj:
  assumes "CHR 0x00 \<notin> set p" and "CHR 0x00 \<notin> set q"
    and "stable_preimage p n t = stable_preimage q m u"
  shows "p = q \<and> n = m \<and> wrap64 t = wrap64 u"
proof -
  have nul: "CHR 0x00 \<notin> set (FormatInt i)" for i
    using FormatInt_chars [of "CHR 0x00" i] by (auto simp: is_digit_def)
  from assms have "p = q" and rest:
      "FormatInt n @ CHR 0x00 # FormatInt (wrap64 t) = FormatInt m @ CHR 0x00 # FormatInt (wrap64 u)"
    unfolding stable_preimage_def by (metis split_at_unique)+
  with split_at_unique [OF nul nul rest] show ?thesis
    by (auto dest: FormatInt_inj)
qed

lemma StableID_chars: "c \<in> set (StableID blake path sz mtime) \<Longrightarrow> 48 \<le> byte_of c \<and> byte_of c \<le> 102"
  by (simp add: StableID_def hex_chars)


section \<open>What \<^verbatim>\<open>filepath.WalkDir\<close> reports\<close>

record file_info =
  fi_Regular :: bool
  fi_ModTime :: time
  fi_Size :: int

text \<open>
  A directory entry that is not a directory carries the result of its \<^verbatim>\<open>Info()\<close>; a directory carries its
  entries in the order \<^verbatim>\<open>ReadDir\<close> gives them, or fails to be read.
\<close>

datatype fs_node = FileNode "file_info option" | DirNode "(string \<times> fs_node) list" | UnreadableDir

datatype visit = VisitError string | VisitDir string | VisitFile string "file_info option"

fun visits :: "string \<Rightarrow> fs_node \<Rightarrow> visit list" where
  "visits p (FileNode i) = [VisitFile p i]"
| "visits p UnreadableDir = [VisitDir p, VisitError p]"
| "visits p (DirNode es) = VisitDir p # concat (map (\<lambda>(n, t). visits (Join2 p n) t) es)"

definition WalkDir :: "string \<Rightarrow> fs_node option \<Rightarrow> visit list" where
  "WalkDir r fs = (case fs of None \<Rightarrow> [VisitError r] | Some t \<Rightarrow> visits r t)"


section \<open>The store interface\<close>

record ScanAudiobook =
  sa_ID :: string
  sa_LibraryPathID :: int
  sa_Path :: string
  sa_FileSize :: int
  sa_MTime :: time
  sa_Title :: string
  sa_Author :: string
  sa_Narrator :: string
  sa_Album :: string
  sa_Year :: string
  sa_Genre :: string
  sa_ISBN :: string
  sa_ASIN :: string
  sa_Description :: string
  sa_DurationMs :: int
  sa_ScannedAt :: time
  sa_ContentSig :: string

record ScanCover =
  sc_AudiobookID :: string
  sc_ContentType :: string
  sc_Bytes :: bytes
  sc_Source :: string

record PathRef =
  pr_ID :: string
  pr_ContentSig :: string

type_synonym ('a, 's, 'e) call = "'s \<Rightarrow> ('e + 'a) \<times> 's"

record ('s, 'e) scan_store =
  ss_ListRefs :: "int \<Rightarrow> ((string \<times> PathRef) list, 's, 'e) call"
  ss_Upsert :: "ScanAudiobook \<Rightarrow> (unit, 's, 'e) call"
  ss_ReplaceChapters :: "string \<Rightarrow> ParsedChapter list \<Rightarrow> (unit, 's, 'e) call"
  ss_UpsertCover :: "ScanCover \<Rightarrow> (unit, 's, 'e) call"
  ss_SoftDelete :: "string \<Rightarrow> (unit, 's, 'e) call"

text \<open>The world around one scan; \<open>we_now\<close> is the clock when a path is ingested.\<close>

record walk_env =
  we_unicode :: unicode
  we_media :: media
  we_blake :: "bytes \<Rightarrow> bytes"
  we_now :: "string \<Rightarrow> time"

record ('s, 'e) WalkParams =
  wp_LibraryPathID :: int
  wp_Root :: string
  wp_EnrichmentQueue :: "(string \<Rightarrow> (unit, 's, 'e) call) option"

record WalkResult =
  wr_Added :: int
  wr_Changed :: int
  wr_Deleted :: int

definition zero_result :: WalkResult where
  "zero_result = \<lparr>wr_Added = 0, wr_Changed = 0, wr_Deleted = 0\<rparr>"

datatype 'e walk_error =
    RootEmpty
  | ListExisting 'e
  | WalkIO string
  | WalkStore 'e
  | SoftDeleteFailed string 'e

record 's walk_state =
  ws_store :: 's
  ws_seen :: "string list"
  ws_res :: WalkResult


section \<open>scan.go\<close>

definition scanned_book ::
  "walk_env \<Rightarrow> int \<Rightarrow> string \<Rightarrow> string \<Rightarrow> file_info \<Rightarrow> string \<Rightarrow> ParsedM4B \<Rightarrow> ScanAudiobook" where
  "scanned_book env lib i path info sig p = \<lparr>sa_ID = i, sa_LibraryPathID = lib, sa_Path = path,
     sa_FileSize = fi_Size info, sa_MTime = fi_ModTime info, sa_Title = pm_Title p,
     sa_Author = pm_Author p, sa_Narrator = pm_Narrator p, sa_Album = pm_Album p,
     sa_Year = pm_Year p, sa_Genre = pm_Genre p, sa_ISBN = pm_ISBN p, sa_ASIN = pm_ASIN p,
     sa_Description = pm_Description p, sa_DurationMs = pm_DurationMs p,
     sa_ScannedAt = we_now env path, sa_ContentSig = sig\<rparr>"

text \<open>The row, its chapters and its cover, in this order; the first failure ends it.\<close>

definition write_cover :: "('s, 'e) scan_store \<Rightarrow> string \<Rightarrow> ParsedM4B \<Rightarrow> (unit, 's, 'e) call" where
  "write_cover st i p s =
     (if pm_CoverBytes p = [] then (Inr (), s)
      else ss_UpsertCover st \<lparr>sc_AudiobookID = i, sc_ContentType = pm_CoverMIME p,
             sc_Bytes = pm_CoverBytes p,
             sc_Source = (if pm_CoverSource p = [] then ''embedded'' else pm_CoverSource p)\<rparr> s)"

definition write_book ::
  "('s, 'e) scan_store \<Rightarrow> ScanAudiobook \<Rightarrow> ParsedM4B \<Rightarrow> (unit, 's, 'e) call" where
  "write_book st ab p s =
     (case ss_Upsert st ab s of
        (Inl e, s1) \<Rightarrow> (Inl e, s1)
      | (Inr _, s1) \<Rightarrow>
          (case ss_ReplaceChapters st (sa_ID ab) (pm_Chapters p) s1 of
             (Inl e, s2) \<Rightarrow> (Inl e, s2)
           | (Inr _, s2) \<Rightarrow> write_cover st (sa_ID ab) p s2))"

text \<open>A queue error is logged only.\<close>

definition enqueue_enrichment :: "('s, 'e) WalkParams \<Rightarrow> string \<Rightarrow> 's \<Rightarrow> 's" where
  "enqueue_enrichment wp i s =
     (case wp_EnrichmentQueue wp of None \<Rightarrow> s | Some enq \<Rightarrow> snd (enq i s))"

definition count_book :: "bool \<Rightarrow> WalkResult \<Rightarrow> WalkResult" where
  "count_book known r =
     (if known then r\<lparr>wr_Changed := wr_Changed r + 1\<rparr> else r\<lparr>wr_Added := wr_Added r + 1\<rparr>)"

definition is_audio :: "walk_env \<Rightarrow> string \<Rightarrow> bool" where
  "is_audio env path \<longleftrightarrow> supportedExtension (we_unicode env) (Ext path) \<noteq> []"

definition mark_known :: "(string \<times> PathRef) list \<Rightarrow> string \<Rightarrow> 's walk_state \<Rightarrow> 's walk_state" where
  "mark_known refs path ws =
     (case map_of refs path of
        Some r \<Rightarrow> ws\<lparr>ws_seen := pr_ID r # ws_seen ws\<rparr>
      | None \<Rightarrow> ws)"

definition ingest ::
  "('s, 'e) scan_store \<Rightarrow> ('s, 'e) WalkParams \<Rightarrow> walk_env \<Rightarrow> (string \<times> PathRef) list \<Rightarrow>
   string \<Rightarrow> file_info \<Rightarrow> string \<Rightarrow> ParsedM4B \<Rightarrow> 's walk_state \<Rightarrow> 'e walk_error option \<times> 's walk_state" where
  "ingest st wp env refs path info sig p ws =
     (let i = (case map_of refs path of Some r \<Rightarrow> pr_ID r | None \<Rightarrow> sig);
          ab = scanned_book env (wp_LibraryPathID wp) i path info sig p
      in case write_book st ab p (ws_store ws) of
           (Inl e, s) \<Rightarrow> (Some (WalkStore e), ws\<lparr>ws_store := s\<rparr>)
         | (Inr _, s) \<Rightarrow>
             (None, ws\<lparr>ws_store := enqueue_enrichment wp i s,
                       ws_res := count_book (map_of refs path \<noteq> None) (ws_res ws),
                       ws_seen := i # ws_seen ws\<rparr>))"

definition visit_file ::
  "('s, 'e) scan_store \<Rightarrow> ('s, 'e) WalkParams \<Rightarrow> walk_env \<Rightarrow> (string \<times> PathRef) list \<Rightarrow>
   string \<Rightarrow> file_info option \<Rightarrow> 's walk_state \<Rightarrow> 'e walk_error option \<times> 's walk_state" where
  "visit_file st wp env refs path info ws =
     (if \<not> is_audio env path then (None, ws)
      else let ws = mark_known refs path ws in
      (case info of
         None \<Rightarrow> (None, ws)
       | Some fi \<Rightarrow>
           if \<not> fi_Regular fi then (None, ws)
           else let sig = StableID (we_blake env) path (fi_Size fi) (fi_ModTime fi) in
           if map_option pr_ContentSig (map_of refs path) = Some sig then (None, ws)
           else (case parseAudio (we_unicode env) (we_media env) path of
                   Inl _ \<Rightarrow> (None, ws)
                 | Inr p \<Rightarrow> ingest st wp env refs path fi sig p ws)))"

fun walk_visits ::
  "('s, 'e) scan_store \<Rightarrow> ('s, 'e) WalkParams \<Rightarrow> walk_env \<Rightarrow> (string \<times> PathRef) list \<Rightarrow>
   visit list \<Rightarrow> 's walk_state \<Rightarrow> 'e walk_error option \<times> 's walk_state" where
  "walk_visits st wp env refs [] ws = (None, ws)"
| "walk_visits st wp env refs (VisitError p # vs) ws = (Some (WalkIO p), ws)"
| "walk_visits st wp env refs (VisitDir p # vs) ws = walk_visits st wp env refs vs ws"
| "walk_visits st wp env refs (VisitFile p info # vs) ws =
     (case visit_file st wp env refs p info ws of
        (Some e, ws') \<Rightarrow> (Some e, ws')
      | (None, ws') \<Rightarrow> walk_visits st wp env refs vs ws')"

text \<open>The loop over the known rows, in the order the map happens to yield them.\<close>

fun delete_unseen ::
  "('s, 'e) scan_store \<Rightarrow> (string \<times> PathRef) list \<Rightarrow> 's walk_state \<Rightarrow>
   'e walk_error option \<times> 's walk_state" where
  "delete_unseen st [] ws = (None, ws)"
| "delete_unseen st ((path, r) # refs) ws =
     (if pr_ID r \<in> set (ws_seen ws) then delete_unseen st refs ws
      else case ss_SoftDelete st (pr_ID r) (ws_store ws) of
             (Inl e, s) \<Rightarrow> (Some (SoftDeleteFailed (pr_ID r) e), ws\<lparr>ws_store := s\<rparr>)
           | (Inr _, s) \<Rightarrow>
               delete_unseen st refs (ws\<lparr>ws_store := s,
                 ws_res := (ws_res ws)\<lparr>wr_Deleted := wr_Deleted (ws_res ws) + 1\<rparr>\<rparr>))"

text \<open>Go returns the counts next to the error, so both are always there.\<close>

definition Walk ::
  "('s, 'e) scan_store \<Rightarrow> ('s, 'e) WalkParams \<Rightarrow> walk_env \<Rightarrow> fs_node option \<Rightarrow> 's \<Rightarrow>
   ('e walk_error option \<times> WalkResult) \<times> 's" where
  "Walk st wp env fs s =
     (if wp_Root wp = [] then ((Some RootEmpty, zero_result), s)
      else (case ss_ListRefs st (wp_LibraryPathID wp) s of
        (Inl e, s) \<Rightarrow> ((Some (ListExisting e), zero_result), s)
      | (Inr refs, s) \<Rightarrow>
          (case walk_visits st wp env refs (WalkDir (wp_Root wp) fs)
                  \<lparr>ws_store = s, ws_seen = [], ws_res = zero_result\<rparr> of
             (Some e, ws) \<Rightarrow> ((Some e, ws_res ws), ws_store ws)
           | (None, ws) \<Rightarrow>
               (case delete_unseen st refs ws of
                  (e, ws) \<Rightarrow> ((e, ws_res ws), ws_store ws)))))"


section \<open>What the walk relies on\<close>

text \<open>
  The store as the walk sees it: per library and path, the id of the row, the signature of its last
  ingest, and whether it is deleted.
\<close>

type_synonym rows = "int \<times> string \<Rightarrow> (string \<times> string \<times> bool) option"

definition active :: "(string \<times> string \<times> bool) option \<Rightarrow> PathRef option" where
  "active r = (case r of Some (i, sig, False) \<Rightarrow> Some \<lparr>pr_ID = i, pr_ContentSig = sig\<rparr> | _ \<Rightarrow> None)"

text \<open>An ingest keeps the id of a row that exists, deleted or not.\<close>

definition ingested :: "string \<Rightarrow> string \<Rightarrow> (string \<times> string \<times> bool) option \<Rightarrow> string \<times> string \<times> bool" where
  "ingested i sig r = (case r of None \<Rightarrow> (i, sig, False) | Some (j, _, _) \<Rightarrow> (j, sig, False))"

definition mark_deleted :: "string \<Rightarrow> rows \<Rightarrow> rows" where
  "mark_deleted i r k =
     (case r k of None \<Rightarrow> None | Some (j, sig, del) \<Rightarrow> Some (j, sig, del \<or> j = i))"

locale scan_store_laws =
  fixes st :: "('s, 'e) scan_store"
    and enq :: "string \<Rightarrow> (unit, 's, 'e) call"
    and rows :: "'s \<Rightarrow> rows"
    and inv :: "'s \<Rightarrow> bool"
  assumes list_refs: "inv s \<Longrightarrow> ss_ListRefs st lib s = (lr, s') \<Longrightarrow> inv s' \<and> rows s' = rows s \<and>
      (\<forall>refs. lr = Inr refs \<longrightarrow> distinct (map fst refs) \<and> (\<forall>p. map_of refs p = active (rows s (lib, p))))"
    and upsert: "inv s \<Longrightarrow> ss_Upsert st a s = (r, s') \<Longrightarrow> inv s' \<and>
      (r = Inr () \<longrightarrow> rows s' = (rows s)((sa_LibraryPathID a, sa_Path a) \<mapsto>
        ingested (sa_ID a) (sa_ContentSig a) (rows s (sa_LibraryPathID a, sa_Path a)))) \<and>
      (r \<noteq> Inr () \<longrightarrow> rows s' = rows s)"
    and chapters: "inv s \<Longrightarrow> ss_ReplaceChapters st i chs s = (r, s') \<Longrightarrow> inv s' \<and> rows s' = rows s"
    and cover: "inv s \<Longrightarrow> ss_UpsertCover st c s = (r, s') \<Longrightarrow> inv s' \<and> rows s' = rows s"
    and enqueue: "inv s \<Longrightarrow> enq i s = (r, s') \<Longrightarrow> inv s' \<and> rows s' = rows s"
    and soft_delete: "inv s \<Longrightarrow> ss_SoftDelete st i s = (r, s') \<Longrightarrow> inv s' \<and>
      (r = Inr () \<longrightarrow> rows s' = mark_deleted i (rows s)) \<and> (r \<noteq> Inr () \<longrightarrow> rows s' = rows s)"
    and unique: "inv s \<Longrightarrow> rows s k = Some (i, x) \<Longrightarrow> rows s k' = Some (i, y) \<Longrightarrow> k = k'"

text \<open>The signature with which a visited file is ingested, if it is.\<close>

definition ingest_sig :: "walk_env \<Rightarrow> PathRef option \<Rightarrow> string \<Rightarrow> file_info option \<Rightarrow> string option" where
  "ingest_sig env ref path info =
     (case info of
        None \<Rightarrow> None
      | Some fi \<Rightarrow>
          (let sig = StableID (we_blake env) path (fi_Size fi) (fi_ModTime fi) in
           if is_audio env path \<and> fi_Regular fi \<and> map_option pr_ContentSig ref \<noteq> Some sig \<and>
              \<not> isl (parseAudio (we_unicode env) (we_media env) path)
           then Some sig else None))"

fun file_visit :: "visit list \<Rightarrow> string \<Rightarrow> file_info option option" where
  "file_visit [] p = None"
| "file_visit (VisitFile q info # vs) p = (if q = p then Some info else file_visit vs p)"
| "file_visit (_ # vs) p = file_visit vs p"

fun visited_files :: "visit list \<Rightarrow> string list" where
  "visited_files [] = []"
| "visited_files (VisitFile q info # vs) = q # visited_files vs"
| "visited_files (_ # vs) = visited_files vs"

definition visit_sig ::
  "walk_env \<Rightarrow> (string \<times> PathRef) list \<Rightarrow> visit list \<Rightarrow> string \<Rightarrow> string option" where
  "visit_sig env refs vs p =
     (case file_visit vs p of None \<Rightarrow> None | Some info \<Rightarrow> ingest_sig env (map_of refs p) p info)"

lemma file_visit_None: "p \<notin> set (visited_files vs) \<longleftrightarrow> file_visit vs p = None"
  by (induction vs p rule: file_visit.induct) auto

text \<open>The effect of the visits on the rows of the library.\<close>

definition after_visits ::
  "walk_env \<Rightarrow> int \<Rightarrow> (string \<times> PathRef) list \<Rightarrow> visit list \<Rightarrow> rows \<Rightarrow> rows" where
  "after_visits env lib refs vs r k =
     (if fst k = lib
      then (case visit_sig env refs vs (snd k) of
              Some sig \<Rightarrow> Some (ingested sig sig (r k))
            | None \<Rightarrow> r k)
      else r k)"

definition seen_id :: "walk_env \<Rightarrow> (string \<times> PathRef) list \<Rightarrow> visit list \<Rightarrow> string \<Rightarrow> bool" where
  "seen_id env refs vs i \<longleftrightarrow>
     (\<exists>p\<in>set (visited_files vs). is_audio env p \<and>
        (case map_of refs p of Some r \<Rightarrow> i = pr_ID r | None \<Rightarrow> visit_sig env refs vs p = Some i))"

definition refs_of :: "rows \<Rightarrow> int \<Rightarrow> (string \<times> PathRef) list \<Rightarrow> bool" where
  "refs_of r lib refs \<longleftrightarrow>
     distinct (map fst refs) \<and> (\<forall>p. map_of refs p = active (r (lib, p)))"

definition count_visits :: "(string \<Rightarrow> bool) \<Rightarrow> visit list \<Rightarrow> int" where
  "count_visits P vs = int (length (filter P (visited_files vs)))"


text \<open>No row leaves the view and none changes its id.\<close>

definition grows :: "rows \<Rightarrow> rows \<Rightarrow> bool" where
  "grows r r' \<longleftrightarrow>
     (\<forall>k ref. active (r k) = Some ref \<longrightarrow> (\<exists>ref'. active (r' k) = Some ref' \<and> pr_ID ref' = pr_ID ref))"

lemma grows_refl [simp]: "grows r r"
  by (simp add: grows_def)

lemma grows_trans: "grows r r' \<Longrightarrow> grows r' r'' \<Longrightarrow> grows r r''"
  unfolding grows_def by metis

lemma active_ingested [simp]:
  "active (Some (ingested i sig r)) =
     Some \<lparr>pr_ID = (case r of None \<Rightarrow> i | Some (j, _) \<Rightarrow> j), pr_ContentSig = sig\<rparr>"
  by (auto simp: active_def ingested_def split: option.split prod.split)

lemma active_Some: "active r = Some ref \<longleftrightarrow> r = Some (pr_ID ref, pr_ContentSig ref, False)"
  by (cases ref) (auto simp: active_def split: option.splits bool.splits)

lemma grows_ingested: "grows r (r(k \<mapsto> ingested i sig (r k)))"
  by (auto simp: grows_def dest: active_Some [THEN iffD1])

context scan_store_laws
begin

lemma write_book_laws:
  assumes "inv s" and "write_book st ab p s = (r, s')"
  shows "inv s'" and "grows (rows s) (rows s')"
    and "r = Inr () \<Longrightarrow> rows s' = (rows s)((sa_LibraryPathID ab, sa_Path ab) \<mapsto>
      ingested (sa_ID ab) (sa_ContentSig ab) (rows s (sa_LibraryPathID ab, sa_Path ab)))"
proof -
  obtain r1 s1 where up: "ss_Upsert st ab s = (r1, s1)" by fastforce
  note laws1 = upsert [OF assms(1) up]
  obtain r2 s2 where ch: "ss_ReplaceChapters st (sa_ID ab) (pm_Chapters p) s1 = (r2, s2)" by fastforce
  have laws2: "inv s2" "rows s2 = rows s1"
    using chapters ch laws1 by blast+
  have laws3: "inv s3 \<and> rows s3 = rows s1" if "write_cover st (sa_ID ab) p s2 = (r3, s3)" for r3 s3
    using cover that laws2 by (auto simp: write_cover_def split: if_splits)
  have "s' = s1 \<and> r1 \<noteq> Inr () \<and> r \<noteq> Inr () \<or> r1 = Inr () \<and> inv s' \<and> rows s' = rows s1"
    using assms(2) up ch laws2 laws3 [of r s']
    by (auto simp: write_book_def split: sum.splits)
  with laws1 show "inv s'" "grows (rows s) (rows s')"
    "r = Inr () \<Longrightarrow> rows s' = (rows s)((sa_LibraryPathID ab, sa_Path ab) \<mapsto>
      ingested (sa_ID ab) (sa_ContentSig ab) (rows s (sa_LibraryPathID ab, sa_Path ab)))"
    by (auto intro: grows_ingested)
qed

definition queued :: "('s, 'e) WalkParams \<Rightarrow> bool" where
  "queued wp \<longleftrightarrow> wp_EnrichmentQueue wp = None \<or> wp_EnrichmentQueue wp = Some enq"

lemma enqueue_laws:
  assumes "inv s" and "queued wp"
  shows "inv (enqueue_enrichment wp i s)" and "rows (enqueue_enrichment wp i s) = rows s"
  using enqueue [OF assms(1), of i "fst (enq i s)" "snd (enq i s)"] assms
  by (auto simp: queued_def enqueue_enrichment_def)

lemma ingest_laws:
  assumes "inv (ws_store ws)" and "queued wp"
    and "ingest st wp env refs path info sig p ws = (e, ws')"
  shows "inv (ws_store ws')" and "grows (rows (ws_store ws)) (rows (ws_store ws'))"
    and "e = None \<Longrightarrow>
      rows (ws_store ws') = (rows (ws_store ws))((wp_LibraryPathID wp, path) \<mapsto>
        ingested (case map_of refs path of Some r \<Rightarrow> pr_ID r | None \<Rightarrow> sig) sig
          (rows (ws_store ws) (wp_LibraryPathID wp, path))) \<and>
      ws_seen ws' = (case map_of refs path of Some r \<Rightarrow> pr_ID r | None \<Rightarrow> sig) # ws_seen ws \<and>
      ws_res ws' = count_book (map_of refs path \<noteq> None) (ws_res ws)"
proof -
  let ?i = "case map_of refs path of Some r \<Rightarrow> pr_ID r | None \<Rightarrow> sig"
  let ?ab = "scanned_book env (wp_LibraryPathID wp) ?i path info sig p"
  obtain r s where wb: "write_book st ?ab p (ws_store ws) = (r, s)" by fastforce
  note laws = write_book_laws [OF assms(1) wb]
  show "inv (ws_store ws')" "grows (rows (ws_store ws)) (rows (ws_store ws'))"
    "e = None \<Longrightarrow>
      rows (ws_store ws') = (rows (ws_store ws))((wp_LibraryPathID wp, path) \<mapsto>
        ingested ?i sig (rows (ws_store ws) (wp_LibraryPathID wp, path))) \<and>
      ws_seen ws' = ?i # ws_seen ws \<and> ws_res ws' = count_book (map_of refs path \<noteq> None) (ws_res ws)"
    using assms(3) wb laws enqueue_laws [OF laws(1) assms(2)]
    by (auto simp: ingest_def Let_def scanned_book_def split: sum.splits)
qed


lemma visit_file_laws:
  assumes "inv (ws_store ws)" and "queued wp"
    and "visit_file st wp env refs path info ws = (e, ws')"
  shows "inv (ws_store ws')" and "grows (rows (ws_store ws)) (rows (ws_store ws'))"
    and "e = None \<Longrightarrow> rows (ws_store ws') =
      (case ingest_sig env (map_of refs path) path info of
         None \<Rightarrow> rows (ws_store ws)
       | Some sig \<Rightarrow> (rows (ws_store ws))((wp_LibraryPathID wp, path) \<mapsto>
           ingested (case map_of refs path of Some r \<Rightarrow> pr_ID r | None \<Rightarrow> sig) sig
             (rows (ws_store ws) (wp_LibraryPathID wp, path))))"
    and "e = None \<Longrightarrow> set (ws_seen ws') = set (ws_seen ws) \<union>
      (if \<not> is_audio env path then {}
       else case map_of refs path of
              Some r \<Rightarrow> {pr_ID r}
            | None \<Rightarrow> set_option (ingest_sig env None path info))"
    and "e = None \<Longrightarrow> ws_res ws' =
      (if ingest_sig env (map_of refs path) path info = None then ws_res ws
       else count_book (map_of refs path \<noteq> None) (ws_res ws))"
proof -
  let ?ws = "mark_known refs path ws"
  have mk: "ws_store ?ws = ws_store ws" "ws_res ?ws = ws_res ws"
    "set (ws_seen ?ws) = set (ws_seen ws) \<union> (case map_of refs path of Some r \<Rightarrow> {pr_ID r} | None \<Rightarrow> {})"
    by (auto simp: mark_known_def split: option.split)
  consider (skip) "\<not> is_audio env path" "e = None" "ws' = ws" "ingest_sig env (map_of refs path) path info = None"
    | (keep) "is_audio env path" "e = None" "ws' = ?ws" "ingest_sig env (map_of refs path) path info = None"
    | (ingest) fi sig p where "is_audio env path" "ingest_sig env (map_of refs path) path info = Some sig"
        "ingest st wp env refs path fi sig p ?ws = (e, ws')"
    using assms(3)
    by (auto simp: visit_file_def Let_def ingest_sig_def isl_def split: if_splits option.splits sum.splits)
  note cases = this
  show "inv (ws_store ws')" "grows (rows (ws_store ws)) (rows (ws_store ws'))"
    using cases assms(1,2) mk(1) ingest_laws(1,2) [of ?ws wp env refs path] by (cases; simp; metis)+
  show "rows (ws_store ws') =
      (case ingest_sig env (map_of refs path) path info of
         None \<Rightarrow> rows (ws_store ws)
       | Some sig \<Rightarrow> (rows (ws_store ws))((wp_LibraryPathID wp, path) \<mapsto>
           ingested (case map_of refs path of Some r \<Rightarrow> pr_ID r | None \<Rightarrow> sig) sig
             (rows (ws_store ws) (wp_LibraryPathID wp, path))))" if "e = None"
    using cases that assms(1,2) mk(1) ingest_laws(3) [of ?ws wp env refs path] by cases simp_all
  show "set (ws_seen ws') = set (ws_seen ws) \<union>
      (if \<not> is_audio env path then {}
       else case map_of refs path of
              Some r \<Rightarrow> {pr_ID r}
            | None \<Rightarrow> set_option (ingest_sig env None path info))" if "e = None"
    using cases that assms(1,2) mk(1,3) ingest_laws(3) [of ?ws wp env refs path]
    by cases (auto split: option.splits)
  show "ws_res ws' =
      (if ingest_sig env (map_of refs path) path info = None then ws_res ws
       else count_book (map_of refs path \<noteq> None) (ws_res ws))" if "e = None"
    using cases that assms(1,2) mk(1,2) ingest_laws(3) [of ?ws wp env refs path] by cases simp_all
qed

lemma walk_visits_grows:
  assumes "inv (ws_store ws)" and "queued wp" and "walk_visits st wp env refs vs ws = (e, ws')"
  shows "inv (ws_store ws') \<and> grows (rows (ws_store ws)) (rows (ws_store ws'))"
  using assms(1,3)
proof (induction vs arbitrary: ws)
  case (Cons v vs)
  show ?case
  proof (cases v)
    case (VisitFile p info)
    obtain e1 ws1 where vf: "visit_file st wp env refs p info ws = (e1, ws1)" by fastforce
    note laws = visit_file_laws(1,2) [OF Cons.prems(1) assms(2) vf]
    show ?thesis
    proof (cases e1)
      case None
      with Cons.prems(2) VisitFile vf have "walk_visits st wp env refs vs ws1 = (e, ws')" by simp
      with Cons.IH laws show ?thesis by (blast intro: grows_trans)
    qed (use Cons.prems(2) VisitFile vf laws in simp)
  qed (use Cons in auto)
qed simp

end

lemma visit_sig_Cons:
  "visit_sig env refs (VisitFile p info # vs) q =
     (if q = p then ingest_sig env (map_of refs p) p info else visit_sig env refs vs q)"
  "visit_sig env refs (VisitDir d # vs) q = visit_sig env refs vs q"
  by (auto simp: visit_sig_def)

lemma visit_sig_absent: "p \<notin> set (visited_files vs) \<Longrightarrow> visit_sig env refs vs p = None"
  by (simp add: visit_sig_def file_visit_None)

lemma after_visits_Nil [simp]: "after_visits env lib refs [] r = r"
  by (simp add: after_visits_def visit_sig_def fun_eq_iff)

lemma after_visits_Dir [simp]:
  "after_visits env lib refs (VisitDir d # vs) r = after_visits env lib refs vs r"
  by (simp add: after_visits_def visit_sig_Cons fun_eq_iff)

lemma after_visits_File:
  assumes "p \<notin> set (visited_files vs)"
    and "r (lib, p) = None \<Longrightarrow> map_of refs p = None"
  shows "after_visits env lib refs (VisitFile p info # vs) r =
    after_visits env lib refs vs
      (case ingest_sig env (map_of refs p) p info of
         None \<Rightarrow> r
       | Some sig \<Rightarrow> r((lib, p) \<mapsto>
           ingested (case map_of refs p of Some x \<Rightarrow> pr_ID x | None \<Rightarrow> sig) sig (r (lib, p))))"
  using assms visit_sig_absent [OF assms(1), of env refs]
  by (auto simp: fun_eq_iff after_visits_def visit_sig_Cons ingested_def split: option.splits)

lemma seen_id_Cons:
  assumes "p \<notin> set (visited_files vs)"
  shows "seen_id env refs (VisitFile p info # vs) i \<longleftrightarrow> seen_id env refs vs i \<or>
    i \<in> (if \<not> is_audio env p then {}
       else case map_of refs p of
              Some r \<Rightarrow> {pr_ID r}
            | None \<Rightarrow> set_option (ingest_sig env None p info))"
proof -
  have "visit_sig env refs (VisitFile p info # vs) q = visit_sig env refs vs q"
    if "q \<in> set (visited_files vs)" for q
    using that assms by (auto simp: visit_sig_Cons)
  then show ?thesis
    by (auto simp: seen_id_def visit_sig_Cons split: option.splits if_splits)
qed

definition added :: "walk_env \<Rightarrow> (string \<times> PathRef) list \<Rightarrow> visit list \<Rightarrow> int" where
  "added env refs vs =
     count_visits (\<lambda>p. visit_sig env refs vs p \<noteq> None \<and> map_of refs p = None) vs"

definition changed :: "walk_env \<Rightarrow> (string \<times> PathRef) list \<Rightarrow> visit list \<Rightarrow> int" where
  "changed env refs vs =
     count_visits (\<lambda>p. visit_sig env refs vs p \<noteq> None \<and> map_of refs p \<noteq> None) vs"

lemma count_visits_Cons:
  assumes "p \<notin> set (visited_files vs)"
  shows "added env refs (VisitFile p info # vs) = added env refs vs +
      (if ingest_sig env (map_of refs p) p info \<noteq> None \<and> map_of refs p = None then 1 else 0)"
    and "changed env refs (VisitFile p info # vs) = changed env refs vs +
      (if ingest_sig env (map_of refs p) p info \<noteq> None \<and> map_of refs p \<noteq> None then 1 else 0)"
proof -
  have cong: "visit_sig env refs (VisitFile p info # vs) q = visit_sig env refs vs q"
    if "q \<in> set (visited_files vs)" for q
    using that assms by (auto simp: visit_sig_Cons)
  show "added env refs (VisitFile p info # vs) = added env refs vs +
      (if ingest_sig env (map_of refs p) p info \<noteq> None \<and> map_of refs p = None then 1 else 0)"
    "changed env refs (VisitFile p info # vs) = changed env refs vs +
      (if ingest_sig env (map_of refs p) p info \<noteq> None \<and> map_of refs p \<noteq> None then 1 else 0)"
    using cong
    by (simp_all add: added_def changed_def count_visits_def visit_sig_Cons(1) [of _ _ p info vs p]
        cong: filter_cong conj_cong)
qed

context scan_store_laws
begin

lemma walk_visits_ok:
  assumes "inv (ws_store ws)" and "queued wp" and "walk_visits st wp env refs vs ws = (None, ws')"
    and "distinct (visited_files vs)"
    and "\<And>p. p \<in> set (visited_files vs) \<Longrightarrow>
      rows (ws_store ws) (wp_LibraryPathID wp, p) = None \<Longrightarrow> map_of refs p = None"
  shows "rows (ws_store ws') = after_visits env (wp_LibraryPathID wp) refs vs (rows (ws_store ws)) \<and>
    set (ws_seen ws') = set (ws_seen ws) \<union> {i. seen_id env refs vs i} \<and>
    wr_Added (ws_res ws') = wr_Added (ws_res ws) + added env refs vs \<and>
    wr_Changed (ws_res ws') = wr_Changed (ws_res ws) + changed env refs vs \<and>
    wr_Deleted (ws_res ws') = wr_Deleted (ws_res ws)"
  using assms(1,3-)
proof (induction vs arbitrary: ws)
  case Nil
  then show ?case
    by (simp add: seen_id_def added_def changed_def count_visits_def)
next
  case (Cons v vs)
  show ?case
  proof (cases v)
    case (VisitError p)
    with Cons.prems show ?thesis by simp
  next
    case (VisitDir p)
    with Cons.prems Cons.IH [of ws] show ?thesis
      by (simp add: seen_id_def visit_sig_Cons added_def changed_def count_visits_def cong: option.case_cong)
  next
    case (VisitFile p info)
    obtain e1 ws1 where vf: "visit_file st wp env refs p info ws = (e1, ws1)" by fastforce
    with Cons.prems(2) VisitFile have e1: "e1 = None"
      and rest: "walk_visits st wp env refs vs ws1 = (None, ws')"
      by (auto split: option.splits)
    note laws = visit_file_laws [OF Cons.prems(1) assms(2) vf]
    from Cons.prems(3) VisitFile have p: "p \<notin> set (visited_files vs)" and d: "distinct (visited_files vs)"
      by simp_all
    have keep: "rows (ws_store ws1) (wp_LibraryPathID wp, q) = rows (ws_store ws) (wp_LibraryPathID wp, q)"
      if "q \<noteq> p" for q
      using laws(3) [OF e1] that by (auto split: option.split)
    have "map_of refs q = None" if "q \<in> set (visited_files vs)"
      "rows (ws_store ws1) (wp_LibraryPathID wp, q) = None" for q
      using Cons.prems(4) [of q] keep [of q] that p VisitFile by fastforce
    note IH = Cons.IH [OF laws(1) rest d this]
    have new: "rows (ws_store ws) (wp_LibraryPathID wp, p) = None \<Longrightarrow> map_of refs p = None"
      using Cons.prems(4) VisitFile by simp
    have "rows (ws_store ws') = after_visits env (wp_LibraryPathID wp) refs (v # vs) (rows (ws_store ws))"
      using IH laws(3) [OF e1] after_visits_File [OF p, of "rows (ws_store ws)", OF new] VisitFile by simp
    moreover have "set (ws_seen ws') = set (ws_seen ws) \<union> {i. seen_id env refs (v # vs) i}"
      using IH laws(4) [OF e1] VisitFile seen_id_Cons [OF p, of env refs info] by auto
    moreover have "wr_Added (ws_res ws1) = wr_Added (ws_res ws) +
        (if ingest_sig env (map_of refs p) p info \<noteq> None \<and> map_of refs p = None then 1 else 0)"
      and "wr_Changed (ws_res ws1) = wr_Changed (ws_res ws) +
        (if ingest_sig env (map_of refs p) p info \<noteq> None \<and> map_of refs p \<noteq> None then 1 else 0)"
      and "wr_Deleted (ws_res ws1) = wr_Deleted (ws_res ws)"
      unfolding laws(5) [OF e1] count_book_def by (cases "map_of refs p"; simp)+
    note step = this
    have "wr_Added (ws_res ws') = wr_Added (ws_res ws) + added env refs (v # vs)"
      and "wr_Changed (ws_res ws') = wr_Changed (ws_res ws) + changed env refs (v # vs)"
      and "wr_Deleted (ws_res ws') = wr_Deleted (ws_res ws)"
      using IH unfolding VisitFile count_visits_Cons [OF p] step by linarith+
    ultimately show ?thesis by blast
  qed
qed

lemma delete_unseen_laws:
  assumes "inv (ws_store ws)" and "delete_unseen st refs ws = (e, ws')"
  shows "inv (ws_store ws')"
    and "e = None \<Longrightarrow> rows (ws_store ws') = fold mark_deleted
      (filter (\<lambda>i. i \<notin> set (ws_seen ws)) (map (pr_ID \<circ> snd) refs)) (rows (ws_store ws)) \<and>
      ws_res ws' = (ws_res ws)\<lparr>wr_Deleted := wr_Deleted (ws_res ws) +
        int (length (filter (\<lambda>i. i \<notin> set (ws_seen ws)) (map (pr_ID \<circ> snd) refs)))\<rparr>"
proof -
  have "inv (ws_store ws') \<and> (e = None \<longrightarrow> rows (ws_store ws') = fold mark_deleted
      (filter (\<lambda>i. i \<notin> set (ws_seen ws)) (map (pr_ID \<circ> snd) refs)) (rows (ws_store ws)) \<and>
      ws_res ws' = (ws_res ws)\<lparr>wr_Deleted := wr_Deleted (ws_res ws) +
        int (length (filter (\<lambda>i. i \<notin> set (ws_seen ws)) (map (pr_ID \<circ> snd) refs)))\<rparr>)"
    using assms
  proof (induction refs arbitrary: ws)
    case (Cons pr refs)
    obtain path r where pr: "pr = (path, r)" by fastforce
    obtain x s where sd: "ss_SoftDelete st (pr_ID r) (ws_store ws) = (x, s)" by fastforce
    note laws = soft_delete [OF Cons.prems(1) sd]
    show ?case
    proof (cases "pr_ID r \<in> set (ws_seen ws)")
      case True
      with Cons pr show ?thesis by simp
    next
      case False
      show ?thesis
      proof (cases x)
        case (Inl err)
        with False Cons.prems(2) pr sd laws show ?thesis by auto
      next
        case (Inr u)
        let ?ws = "ws\<lparr>ws_store := s, ws_res := (ws_res ws)\<lparr>wr_Deleted := wr_Deleted (ws_res ws) + 1\<rparr>\<rparr>"
        from False Inr Cons.prems(2) pr sd have "delete_unseen st refs ?ws = (e, ws')" by simp
        with Cons.IH [of ?ws] laws Inr False pr show ?thesis by simp
      qed
    qed
  qed simp
  then show "inv (ws_store ws')"
    and "e = None \<Longrightarrow> rows (ws_store ws') = fold mark_deleted
      (filter (\<lambda>i. i \<notin> set (ws_seen ws)) (map (pr_ID \<circ> snd) refs)) (rows (ws_store ws)) \<and>
      ws_res ws' = (ws_res ws)\<lparr>wr_Deleted := wr_Deleted (ws_res ws) +
        int (length (filter (\<lambda>i. i \<notin> set (ws_seen ws)) (map (pr_ID \<circ> snd) refs)))\<rparr>"
    by blast+
qed

end

lemma fold_mark_deleted:
  "fold mark_deleted is r k =
     (case r k of None \<Rightarrow> None | Some (j, sig, del) \<Rightarrow> Some (j, sig, del \<or> j \<in> set is))"
  by (induction "is" arbitrary: r) (auto simp: mark_deleted_def split: option.splits)


section \<open>The specification of a scan\<close>

text \<open>A recognized file that the walk came across, readable or not.\<close>

definition present :: "walk_env \<Rightarrow> visit list \<Rightarrow> string \<Rightarrow> bool" where
  "present env vs p \<longleftrightarrow> is_audio env p \<and> p \<in> set (visited_files vs)"

text \<open>
  What the library holds after a scan, path by path: nothing for a path without a file; for a new or
  changed file, its row with the new signature and the id the path always had; otherwise what was there.
\<close>

definition scan_view :: "walk_env \<Rightarrow> visit list \<Rightarrow> int \<Rightarrow> rows \<Rightarrow> string \<Rightarrow> PathRef option" where
  "scan_view env vs lib r p =
     (if \<not> present env vs p then None
      else case ingest_sig env (active (r (lib, p))) p (the (file_visit vs p)) of
             Some sig \<Rightarrow> active (Some (ingested sig sig (r (lib, p))))
           | None \<Rightarrow> active (r (lib, p)))"

text \<open>The signature of a file that is new to the view is not the id of another book in it.\<close>

definition no_collision :: "walk_env \<Rightarrow> visit list \<Rightarrow> int \<Rightarrow> rows \<Rightarrow> bool" where
  "no_collision env vs lib r \<longleftrightarrow>
     (\<forall>p\<in>set (visited_files vs). \<forall>sig. active (r (lib, p)) = None \<longrightarrow>
        ingest_sig env None p (the (file_visit vs p)) = Some sig \<longrightarrow>
        (\<forall>q ref. active (r (lib, q)) = Some ref \<longrightarrow> pr_ID ref \<noteq> sig))"

lemma ingest_sig_audio: "ingest_sig env ref p info = Some sig \<Longrightarrow> is_audio env p"
  by (auto simp: ingest_sig_def Let_def split: option.splits if_splits)

lemma visit_sig_visited:
  "p \<in> set (visited_files vs) \<Longrightarrow>
     visit_sig env refs vs p = ingest_sig env (map_of refs p) p (the (file_visit vs p))"
  using file_visit_None [of p vs] by (auto simp: visit_sig_def split: option.split)

context scan_store_laws
begin

lemma seen_ref:
  assumes "inv s" and "refs_of (rows s) lib refs" and "no_collision env vs lib (rows s)"
    and "map_of refs p = Some ref"
  shows "seen_id env refs vs (pr_ID ref) \<longleftrightarrow> present env vs p"
proof
  assume "seen_id env refs vs (pr_ID ref)"
  then obtain q where q: "q \<in> set (visited_files vs)" "is_audio env q"
    and i: "case map_of refs q of Some r \<Rightarrow> pr_ID ref = pr_ID r | None \<Rightarrow> visit_sig env refs vs q = Some (pr_ID ref)"
    unfolding seen_id_def by blast
  have act: "active (rows s (lib, x)) = map_of refs x" for x
    using assms(2) by (simp add: refs_of_def)
  show "present env vs p"
  proof (cases "map_of refs q")
    case None
    with i q act assms(3,4) show ?thesis
      by (fastforce simp: no_collision_def visit_sig_visited)
  next
    case (Some r)
    with i act [of q] have "rows s (lib, q) = Some (pr_ID ref, pr_ContentSig r, False)"
      by (simp add: active_Some)
    moreover from act [of p] assms(4) have "rows s (lib, p) = Some (pr_ID ref, pr_ContentSig ref, False)"
      by (simp add: active_Some)
    ultimately have "q = p"
      using unique [OF assms(1)] by blast
    with q show ?thesis by (simp add: present_def)
  qed
next
  assume "present env vs p"
  with assms(4) show "seen_id env refs vs (pr_ID ref)"
    unfolding present_def seen_id_def by (intro bexI [of _ p]) simp_all
qed

definition unseen_ids :: "walk_env \<Rightarrow> (string \<times> PathRef) list \<Rightarrow> visit list \<Rightarrow> string list" where
  "unseen_ids env refs vs = filter (\<lambda>i. \<not> seen_id env refs vs i) (map (pr_ID \<circ> snd) refs)"

lemma unseen_iff:
  assumes "inv s" and "refs_of (rows s) lib refs" and "no_collision env vs lib (rows s)"
  shows "i \<in> set (unseen_ids env refs vs) \<longleftrightarrow>
    (\<exists>p ref. active (rows s (lib, p)) = Some ref \<and> pr_ID ref = i \<and> \<not> present env vs p)"
proof -
  have "(p, ref) \<in> set refs \<longleftrightarrow> active (rows s (lib, p)) = Some ref" for p ref
    using assms(2) map_of_eq_Some_iff [of refs p ref] by (auto simp: refs_of_def)
  moreover have "seen_id env refs vs (pr_ID ref) \<longleftrightarrow> present env vs p"
    if "active (rows s (lib, p)) = Some ref" for p ref
    using seen_ref [OF assms] that assms(2) by (simp add: refs_of_def)
  ultimately show ?thesis
    unfolding unseen_ids_def by (force simp: image_iff)
qed

lemma scan_view_ok:
  assumes "inv s" and "refs_of (rows s) lib refs" and "no_collision env vs lib (rows s)"
  shows "active (fold mark_deleted (unseen_ids env refs vs) (after_visits env lib refs vs (rows s)) (l, p)) =
    (if l = lib then scan_view env vs lib (rows s) p else active (rows s (l, p)))"
proof -
  have mine: "rows s (l, p) = Some (i, x) \<Longrightarrow> i \<in> set (unseen_ids env refs vs) \<Longrightarrow>
      l = lib \<and> \<not> present env vs p \<and> active (rows s (l, p)) \<noteq> None" for i x
    using unseen_iff [OF assms] unique [OF assms(1), of "(l, p)" i x]
    by (metis active_Some option.distinct(1) prod.inject)
  have act: "map_of refs p = active (rows s (lib, p))"
    using assms(2) by (simp add: refs_of_def)
  show ?thesis
  proof (cases "l = lib \<and> present env vs p")
    case True
    then have sig: "visit_sig env refs vs p = ingest_sig env (active (rows s (lib, p))) p (the (file_visit vs p))"
      using act by (simp add: present_def visit_sig_visited)
    show ?thesis
    proof (cases "rows s (lib, p)")
      case None
      have "seen_id env refs vs j" if "visit_sig env refs vs p = Some j" for j
        using None True act that unfolding seen_id_def present_def by (force simp: active_def)
      then show ?thesis
        using True None sig
        by (auto simp: fold_mark_deleted after_visits_def scan_view_def ingested_def unseen_ids_def
            active_def split: option.splits)
    next
      case (Some row)
      obtain j x del where row: "row = (j, x, del)" by (metis prod_cases3)
      have "j \<notin> set (unseen_ids env refs vs)"
        using mine Some row True by blast
      then show ?thesis
        using True Some row sig
        by (auto simp: fold_mark_deleted after_visits_def scan_view_def ingested_def split: option.splits)
    qed
  next
    case False
    then have "visit_sig env refs vs p = None" if "l = lib"
      using visit_sig_absent [of p vs env refs] visit_sig_visited [of p vs env refs] that
        ingest_sig_audio [of env "map_of refs p" p "the (file_visit vs p)"]
      unfolding present_def by (metis not_None_eq)
    then have same: "after_visits env lib refs vs (rows s) (l, p) = rows s (l, p)"
      by (simp add: after_visits_def)
    show ?thesis
    proof (cases "active (rows s (l, p))")
      case None
      with False same show ?thesis
        by (auto simp: fold_mark_deleted scan_view_def active_def split: option.splits bool.splits)
    next
      case (Some ref)
      then have "pr_ID ref \<in> set (unseen_ids env refs vs) \<longleftrightarrow> l = lib"
        using False mine unseen_iff [OF assms] active_Some by metis
      with Some False same show ?thesis
        by (auto simp: fold_mark_deleted scan_view_def active_Some) (simp add: active_def)
    qed
  qed
qed

end

end
