(* ===== verification/Scan_Spec.thy ===== *)
theory Scan_Spec
  imports Scanner
begin

text \<open>
  What one call of \<open>Walk\<close> does, proved from the laws of the store interface: the view of the library
  after a scan that succeeds, that a scan which meets an unreadable directory deletes nothing, and
  that scanning an unchanged file system again changes nothing.
\<close>


section \<open>A walk visits every file once\<close>

text \<open>Names of entries: no slash, not \<^verbatim>\<open>.\<close> or \<^verbatim>\<open>..\<close>, and no two alike in one directory.\<close>

fun wf_fs :: "fs_node \<Rightarrow> bool" where
  "wf_fs (FileNode i) \<longleftrightarrow> True"
| "wf_fs UnreadableDir \<longleftrightarrow> True"
| "wf_fs (DirNode es) \<longleftrightarrow>
     distinct (map fst es) \<and> (\<forall>(n, t)\<in>set es. proper n \<and> wf_fs t)"

text \<open>The files below a node, by the names that lead to them.\<close>

fun files_below :: "fs_node \<Rightarrow> string list list" where
  "files_below (FileNode i) = [[]]"
| "files_below UnreadableDir = []"
| "files_below (DirNode es) = concat (map (\<lambda>(n, t). map ((#) n) (files_below t)) es)"

definition components :: "string \<Rightarrow> string list" where
  "components p = clean_components True (split_slash p)"

definition locate :: "string \<Rightarrow> string list \<Rightarrow> string" where
  "locate p ns = (if ns = [] then p else slash # Join (components p @ ns) ''/'')"

lemma split_slash_snoc: "slash \<notin> set n \<Longrightarrow> split_slash (p @ slash # n) = split_slash p @ [n]"
proof (induction p)
  case (Cons c p)
  then show ?case by (cases "split_slash p") auto
qed (simp add: split_slash_last)

lemma components_proper: "list_all proper (components p)"
  using fold_push_proper [of "[]" "split_slash p"] split_slash_no_slash
  by (auto simp: components_def clean_components_def list_all_iff)

lemma components_locate: "list_all proper ws \<Longrightarrow> components (slash # Join ws ''/'') = ws"
proof (cases "ws = []")
  case False
  moreover assume "list_all proper ws"
  ultimately show ?thesis
    by (simp add: components_def clean_components_def split_slash_Join push_component_def fold_push_id)
qed (simp add: components_def clean_components_def push_component_def)

lemma Join2_abs:
  assumes "IsAbs p" and "proper n"
  shows "Join2 p n = slash # Join (components p @ [n]) ''/''"
proof -
  have ne: "p \<noteq> []" using assms(1) by (auto simp: IsAbs_def HasPrefix_def)
  have abs: "IsAbs (p @ slash # n)" using assms(1) ne by (cases p) (auto simp: IsAbs_def HasPrefix_def)
  have "components (p @ slash # n) = components p @ [n]"
    using assms(2) by (simp add: components_def clean_components_def split_slash_snoc proper_def push_proper)
  with abs ne show ?thesis by (simp add: Join2_def Clean_def components_def)
qed

lemma components_Join2:
  assumes "IsAbs p" and "proper n"
  shows "components (Join2 p n) = components p @ [n]"
  using assms components_proper [of p] by (simp add: Join2_abs components_locate)

lemma visited_files_append: "visited_files (xs @ ys) = visited_files xs @ visited_files ys"
  by (induction xs rule: visited_files.induct) auto

lemma visited_files_concat: "visited_files (concat xss) = concat (map visited_files xss)"
  by (induction xss) (auto simp: visited_files_append)

lemma visited_files_visits:
  "IsAbs p \<Longrightarrow> wf_fs t \<Longrightarrow> visited_files (visits p t) = map (locate p) (files_below t)"
proof (induction p t rule: visits.induct)
  case (3 p es)
  have "visited_files (visits (Join2 p n) t) = map (locate p) (map ((#) n) (files_below t))"
    if "(n, t) \<in> set es" for n t
  proof -
    from 3(3) that have n: "proper n" "wf_fs t" by auto
    then have "visited_files (visits (Join2 p n) t) = map (locate (Join2 p n)) (files_below t)"
      using "3.IH" [OF that refl] 3(2) by (simp add: Join2_abs)
    moreover have "locate (Join2 p n) ns = locate p (n # ns)" for ns
      using components_Join2 [OF 3(2) n(1)] Join2_abs [OF 3(2) n(1)] by (simp add: locate_def)
    ultimately show ?thesis by (simp add: comp_def)
  qed
  then have "visited_files (visits (Join2 p (fst x)) (snd x)) =
      map (\<lambda>ns. locate p (fst x # ns)) (files_below (snd x))" if "x \<in> set es" for x
    using that by (cases x) (simp add: comp_def)
  then show ?case
    by (simp add: visited_files_concat map_concat comp_def case_prod_unfold cong: map_cong)
qed (simp_all add: locate_def)

lemma files_below_proper: "wf_fs t \<Longrightarrow> ns \<in> set (files_below t) \<Longrightarrow> list_all proper ns"
proof (induction t arbitrary: ns rule: files_below.induct)
  case (3 es)
  then show ?case by fastforce
qed auto

lemma files_below_distinct: "wf_fs t \<Longrightarrow> distinct (files_below t)"
proof (induction t rule: files_below.induct)
  case (3 es)
  then have "distinct (map fst es)" and "\<And>n t. (n, t) \<in> set es \<Longrightarrow> distinct (files_below t)"
    by auto
  then show ?case
  proof (induction es)
    case (Cons e es)
    obtain n t where e: "e = (n, t)" by fastforce
    from Cons e have "distinct (files_below t)" "n \<notin> fst ` set es"
      and "distinct (concat (map (\<lambda>(n, t). map ((#) n) (files_below t)) es))"
      by auto
    then show ?case by (force simp: e distinct_map)
  qed simp
qed auto

lemma locate_inj:
  assumes "list_all proper ns" and "list_all proper ms" and "locate p ns = locate p ms"
    and "ns = [] \<longleftrightarrow> ms = []"
  shows "ns = ms"
proof (cases "ns = []")
  case False
  with assms(3,4) have "Join (components p @ ns) ''/'' = Join (components p @ ms) ''/''"
    by (auto simp: locate_def)
  then have "components p @ ns = components p @ ms"
    using assms(1,2) components_proper [of p] by (intro Join_inj) simp_all
  then show ?thesis by simp
qed (use assms(4) in simp)

lemma files_below_Nil: "[] \<in> set (files_below t) \<Longrightarrow> files_below t = [[]]"
  by (induction t rule: files_below.induct) auto

text \<open>So the paths a walk reports for files are pairwise different.\<close>

lemma visited_files_distinct:
  assumes "IsAbs r" and "\<And>t. fs = Some t \<Longrightarrow> wf_fs t"
  shows "distinct (visited_files (WalkDir r fs))"
proof (cases fs)
  case (Some t)
  then have wf: "wf_fs t" using assms(2) by simp
  have "inj_on (locate r) (set (files_below t))"
  proof (rule inj_onI)
    fix ns ms
    assume in_t: "ns \<in> set (files_below t)" "ms \<in> set (files_below t)" and eq: "locate r ns = locate r ms"
    have "ns = [] \<longleftrightarrow> ms = []"
      using in_t files_below_Nil [of t] by auto
    with in_t eq show "ns = ms"
      by (intro locate_inj files_below_proper [OF wf])
  qed
  with files_below_distinct [OF wf] show ?thesis
    by (simp add: Some WalkDir_def visited_files_visits [OF assms(1) wf] distinct_map)
qed (simp add: WalkDir_def)


section \<open>One scan\<close>

text \<open>How many books a scan reports as added, changed and deleted, from the view before it.\<close>

definition new_books :: "walk_env \<Rightarrow> visit list \<Rightarrow> int \<Rightarrow> rows \<Rightarrow> int" where
  "new_books env vs lib r = count_visits (\<lambda>p. active (r (lib, p)) = None \<and>
     ingest_sig env None p (the (file_visit vs p)) \<noteq> None) vs"

definition changed_books :: "walk_env \<Rightarrow> visit list \<Rightarrow> int \<Rightarrow> rows \<Rightarrow> int" where
  "changed_books env vs lib r = count_visits (\<lambda>p. active (r (lib, p)) \<noteq> None \<and>
     ingest_sig env (active (r (lib, p))) p (the (file_visit vs p)) \<noteq> None) vs"

definition gone_books :: "walk_env \<Rightarrow> visit list \<Rightarrow> int \<Rightarrow> rows \<Rightarrow> int" where
  "gone_books env vs lib r = int (card {p. active (r (lib, p)) \<noteq> None \<and> \<not> present env vs p})"

lemma visits_have_error: "VisitError p \<in> set vs \<Longrightarrow> \<exists>e. fst (walk_visits st wp env refs vs ws) = Some e"
  by (induction st wp env refs vs ws rule: walk_visits.induct) (auto split: prod.split option.split)

lemma added_refs:
  assumes "refs_of r lib refs"
  shows "added env refs vs = new_books env vs lib r" and "changed env refs vs = changed_books env vs lib r"
proof -
  have "map_of refs p = active (r (lib, p))" for p
    using assms by (simp add: refs_of_def)
  then show "added env refs vs = new_books env vs lib r" "changed env refs vs = changed_books env vs lib r"
    unfolding added_def changed_def new_books_def changed_books_def count_visits_def
    by (auto simp: visit_sig_visited intro!: arg_cong [where f = length] filter_cong)
qed

context scan_store_laws
begin

lemma gone_refs:
  assumes "inv s" and "refs_of (rows s) lib refs" and "no_collision env vs lib (rows s)"
  shows "int (length (unseen_ids env refs vs)) = gone_books env vs lib (rows s)"
proof -
  let ?gone = "filter (\<lambda>x. \<not> present env vs (fst x)) refs"
  have mem: "(p, ref) \<in> set refs \<longleftrightarrow> active (rows s (lib, p)) = Some ref" for p ref
    using assms(2) map_of_eq_Some_iff [of refs p ref] by (auto simp: refs_of_def)
  have "seen_id env refs vs (pr_ID (snd x)) \<longleftrightarrow> present env vs (fst x)" if "x \<in> set refs" for x
    using seen_ref [OF assms, of "fst x" "snd x"] that assms(2) map_of_eq_Some_iff [of refs "fst x" "snd x"]
    by (simp add: refs_of_def)
  then have "length (unseen_ids env refs vs) = length ?gone"
    by (simp add: unseen_ids_def filter_map comp_def cong: filter_cong)
  also have "\<dots> = card (set (map fst ?gone))"
    using assms(2) distinct_card [of "map fst ?gone"] by (simp add: refs_of_def distinct_map_filter)
  also have "set (map fst ?gone) = {p. active (rows s (lib, p)) \<noteq> None \<and> \<not> present env vs p}"
    using mem by (force simp: image_iff)
  finally show ?thesis by (simp add: gone_books_def)
qed

lemma Walk_start:
  assumes "inv s" and "ss_ListRefs st lib s = (Inr refs, s1)"
  shows "inv s1" and "rows s1 = rows s" and "refs_of (rows s) lib refs"
  using list_refs [OF assms] by (simp_all add: refs_of_def)

lemma Walk_ok:
  assumes "inv s" and "queued wp" and "lib = wp_LibraryPathID wp" and "vs = WalkDir (wp_Root wp) fs"
    and "distinct (visited_files vs)" and "no_collision env vs lib (rows s)"
    and "Walk st wp env fs s = ((None, res), s')"
  shows "inv s' \<and>
    (\<forall>l p. active (rows s' (l, p)) =
       (if l = lib then scan_view env vs lib (rows s) p else active (rows s (l, p)))) \<and>
    res = \<lparr>wr_Added = new_books env vs lib (rows s), wr_Changed = changed_books env vs lib (rows s),
           wr_Deleted = gone_books env vs lib (rows s)\<rparr>"
proof -
  obtain refs s1 where list: "ss_ListRefs st lib s = (Inr refs, s1)"
    using assms(3,7) by (auto simp: Walk_def split: if_splits prod.splits sum.splits)
  note start = Walk_start [OF assms(1) list]
  let ?ws0 = "\<lparr>ws_store = s1, ws_seen = [], ws_res = zero_result\<rparr>"
  obtain ws1 ws2 where walk: "walk_visits st wp env refs vs ?ws0 = (None, ws1)"
    and del: "delete_unseen st refs ws1 = (None, ws2)" and res: "res = ws_res ws2" "s' = ws_store ws2"
    using assms(3,4,7) list
    by (auto simp: Walk_def split: if_splits prod.splits option.splits)
  have "inv (ws_store ws1)"
    using walk_visits_grows [OF _ assms(2) walk] start by simp
  note del_laws = delete_unseen_laws [OF this del]
  have known: "rows s (lib, p) = None \<Longrightarrow> map_of refs p = None" for p
    using start(3) by (simp add: refs_of_def active_def)
  have visits: "rows (ws_store ws1) = after_visits env lib refs vs (rows s) \<and>
      set (ws_seen ws1) = {i. seen_id env refs vs i} \<and> wr_Added (ws_res ws1) = added env refs vs \<and>
      wr_Changed (ws_res ws1) = changed env refs vs \<and> wr_Deleted (ws_res ws1) = 0"
    using walk_visits_ok [OF _ assms(2) walk assms(5)] start(1,2) known
    by (simp add: assms(3) [symmetric] zero_result_def)
  then have unseen: "filter (\<lambda>i. i \<notin> set (ws_seen ws1)) (map (pr_ID \<circ> snd) refs) = unseen_ids env refs vs"
    by (simp add: unseen_ids_def)
  have "res = \<lparr>wr_Added = added env refs vs, wr_Changed = changed env refs vs,
      wr_Deleted = int (length (unseen_ids env refs vs))\<rparr>"
    using del_laws(2) visits unfolding unseen res(1)
    by (cases "ws_res ws1") simp
  moreover have "rows s' = fold mark_deleted (unseen_ids env refs vs) (after_visits env lib refs vs (rows s))"
    using del_laws(2) visits unseen res(2) by simp
  ultimately show ?thesis
    using scan_view_ok [OF assms(1) start(3) assms(6)] gone_refs [OF assms(1) start(3) assms(6)]
      added_refs [OF start(3)] del_laws(1) res(2) by simp
qed

text \<open>Unless the deletions at the end were reached and failed, a failed scan took no book away.\<close>

lemma Walk_error:
  assumes "inv s" and "queued wp" and "Walk st wp env fs s = ((Some e, res), s')"
    and "\<And>i x. e \<noteq> SoftDeleteFailed i x"
  shows "inv s' \<and> grows (rows s) (rows s')"
proof (cases "wp_Root wp = []")
  case False
  obtain r s1 where list: "ss_ListRefs st (wp_LibraryPathID wp) s = (r, s1)" by fastforce
  note laws = list_refs [OF assms(1) list]
  show ?thesis
  proof (cases r)
    case (Inr refs)
    let ?ws0 = "\<lparr>ws_store = s1, ws_seen = [], ws_res = zero_result\<rparr>"
    obtain e1 ws1 where walk: "walk_visits st wp env refs (WalkDir (wp_Root wp) fs) ?ws0 = (e1, ws1)"
      by fastforce
    have grow: "inv (ws_store ws1) \<and> grows (rows s) (rows (ws_store ws1))"
      using walk_visits_grows [OF _ assms(2) walk] laws by simp
    have "\<exists>i x. e' = SoftDeleteFailed i x" if "delete_unseen st rs ws = (Some e', ws')" for rs ws e' ws'
      using that by (induction rs arbitrary: ws) (auto split: if_splits prod.splits sum.splits)
    then have "delete_unseen st refs ws1 \<noteq> (Some e, ws')" for ws'
      using assms(4) by blast
    with assms(3) list Inr walk False grow show ?thesis
      by (auto simp: Walk_def split: option.splits prod.splits)
  qed (use assms(3) list laws False in \<open>auto simp: Walk_def\<close>)
qed (use assms in \<open>auto simp: Walk_def\<close>)

lemma Walk_unreadable:
  assumes "inv s" and "queued wp" and "VisitError p \<in> set (WalkDir (wp_Root wp) fs)"
    and "Walk st wp env fs s = ((e, res), s')"
  shows "e \<noteq> None \<and> inv s' \<and> grows (rows s) (rows s')"
proof -
  have "e \<noteq> None \<and> (\<forall>i x. e \<noteq> Some (SoftDeleteFailed i x))"
  proof (cases "wp_Root wp = []")
    case False
    have no_sd: "walk_visits st wp env refs vs ws \<noteq> (Some (SoftDeleteFailed i x), ws')" for refs vs ws i x ws'
      by (induction st wp env refs vs ws rule: walk_visits.induct)
        (auto simp: visit_file_def ingest_def Let_def split: if_splits option.splits sum.splits prod.splits)
    obtain r s1 where list: "ss_ListRefs st (wp_LibraryPathID wp) s = (r, s1)" by fastforce
    show ?thesis
    proof (cases r)
      case (Inr refs)
      let ?walk = "walk_visits st wp env refs (WalkDir (wp_Root wp) fs)
        \<lparr>ws_store = s1, ws_seen = [], ws_res = zero_result\<rparr>"
      obtain e1 ws1 where walk: "?walk = (Some e1, ws1)"
        using visits_have_error [OF assms(3)] by (metis prod.collapse)
      then have "e = Some e1"
        using assms(4) list Inr False by (simp add: Walk_def)
      with no_sd walk show ?thesis by blast
    qed (use assms(4) list False in \<open>auto simp: Walk_def\<close>)
  qed (use assms(4) in \<open>auto simp: Walk_def\<close>)
  with Walk_error [OF assms(1,2)] assms(4) show ?thesis by (metis not_None_eq)
qed

end


section \<open>A second scan of the same files\<close>

lemma VisitFile_in:
  "VisitFile p info \<in> set vs \<Longrightarrow> distinct (visited_files vs) \<Longrightarrow>
     p \<in> set (visited_files vs) \<and> file_visit vs p = Some info"
proof (induction vs)
  case (Cons v vs)
  have "VisitFile p info \<in> set vs \<Longrightarrow> p \<in> set (visited_files vs)"
    using Cons by (cases v) auto
  with Cons show ?case by (cases v) auto
qed simp

lemma visit_file_idle:
  assumes "ingest_sig env (map_of refs p) p info = None"
  shows "visit_file st wp env refs p info ws = (None, if is_audio env p then mark_known refs p ws else ws)"
  using assms
  by (auto simp: visit_file_def ingest_sig_def Let_def isl_def split: option.splits sum.splits if_splits)

lemma walk_visits_idle:
  assumes "\<And>p info. VisitFile p info \<in> set vs \<Longrightarrow> ingest_sig env (map_of refs p) p info = None"
    and "\<And>p. VisitError p \<notin> set vs"
  shows "\<exists>ws'. walk_visits st wp env refs vs ws = (None, ws') \<and> ws_store ws' = ws_store ws \<and>
    ws_res ws' = ws_res ws \<and> set (ws_seen ws) \<subseteq> set (ws_seen ws') \<and>
    (\<forall>p r. present env vs p \<longrightarrow> map_of refs p = Some r \<longrightarrow> pr_ID r \<in> set (ws_seen ws'))"
  using assms
proof (induction vs arbitrary: ws)
  case (Cons v vs)
  show ?case
  proof (cases v)
    case (VisitFile p info)
    let ?ws = "if is_audio env p then mark_known refs p ws else ws"
    have "visit_file st wp env refs p info ws = (None, ?ws)"
      using Cons.prems(1) VisitFile by (intro visit_file_idle) simp
    moreover have "ws_store ?ws = ws_store ws" "ws_res ?ws = ws_res ws" "set (ws_seen ws) \<subseteq> set (ws_seen ?ws)"
      and "\<And>r. is_audio env p \<Longrightarrow> map_of refs p = Some r \<Longrightarrow> pr_ID r \<in> set (ws_seen ?ws)"
      by (auto simp: mark_known_def split: option.splits)
    ultimately show ?thesis
      using Cons.IH [of ?ws] Cons.prems VisitFile unfolding present_def by fastforce
  next
    case (VisitError p)
    with Cons.prems(2) [of p] show ?thesis by simp
  qed (use Cons in \<open>auto simp: present_def\<close>)
qed (simp add: present_def)

lemma delete_unseen_idle:
  "(\<And>x. x \<in> set refs \<Longrightarrow> pr_ID (snd x) \<in> set (ws_seen ws)) \<Longrightarrow> delete_unseen st refs ws = (None, ws)"
proof (induction refs)
  case (Cons x refs)
  then show ?case by (cases x) fastforce
qed simp

lemma scan_view_settled:
  assumes "p \<in> set (visited_files vs)"
  shows "ingest_sig env (scan_view env vs lib r p) p (the (file_visit vs p)) = None"
proof (cases "is_audio env p")
  case True
  with assms have "present env vs p" by (simp add: present_def)
  then show ?thesis
    by (auto simp: scan_view_def ingest_sig_def Let_def split: option.splits if_splits)
qed (metis ingest_sig_audio not_None_eq)

lemma scan_view_present: "scan_view env vs lib r p = Some ref \<Longrightarrow> present env vs p"
  by (auto simp: scan_view_def split: if_splits)

context scan_store_laws
begin

lemma Walk_again:
  assumes "inv s" and "queued wp" and "lib = wp_LibraryPathID wp" and "vs = WalkDir (wp_Root wp) fs"
    and "distinct (visited_files vs)" and "no_collision env vs lib (rows s)"
    and "Walk st wp env fs s = ((None, res), s1)" and "Walk st wp env fs s1 = ((e, res2), s2)"
    and "\<And>x. e \<noteq> Some (ListExisting x)"
  shows "e = None \<and> res2 = zero_result \<and> s2 = snd (ss_ListRefs st lib s1)"
proof -
  have rt: "wp_Root wp \<noteq> []" using assms(7) by (auto simp: Walk_def)
  note one = Walk_ok [OF assms(1-7)]
  have inv1: "inv s1" and view: "\<And>p. active (rows s1 (lib, p)) = scan_view env vs lib (rows s) p"
    using one by auto
  obtain refs s1' where list: "ss_ListRefs st lib s1 = (Inr refs, s1')"
    using assms(3,8,9) rt by (auto simp: Walk_def split: prod.splits sum.splits)
  note start = Walk_start [OF inv1 list]
  have refs: "map_of refs p = scan_view env vs lib (rows s) p" for p
    using start(3) view by (simp add: refs_of_def)
  have idle: "ingest_sig env (map_of refs p) p info = None" if "VisitFile p info \<in> set vs" for p info
    using scan_view_settled [of p vs env lib "rows s"] VisitFile_in [OF that assms(5)] refs by simp
  have readable: "VisitError p \<notin> set vs" for p
    using Walk_unreadable [OF assms(1,2) _ assms(7)] assms(4) by blast
  obtain ws where ws: "walk_visits st wp env refs vs \<lparr>ws_store = s1', ws_seen = [], ws_res = zero_result\<rparr> = (None, ws)"
      "ws_store ws = s1'" "ws_res ws = zero_result"
      "\<And>p r. present env vs p \<Longrightarrow> map_of refs p = Some r \<Longrightarrow> pr_ID r \<in> set (ws_seen ws)"
    using walk_visits_idle [of vs env refs st wp "\<lparr>ws_store = s1', ws_seen = [], ws_res = zero_result\<rparr>"]
      idle readable by auto
  have "delete_unseen st refs ws = (None, ws)"
  proof (rule delete_unseen_idle)
    fix x assume "x \<in> set refs"
    then have "map_of refs (fst x) = Some (snd x)"
      using start(3) map_of_eq_Some_iff [of refs "fst x" "snd x"] by (simp add: refs_of_def)
    with ws(4) refs scan_view_present show "pr_ID (snd x) \<in> set (ws_seen ws)" by metis
  qed
  then show ?thesis
    using assms(3,4,8) list ws rt by (auto simp: Walk_def)
qed

end

end
