(* ===== verification/Store_Adapter.thy ===== *)
theory Store_Adapter
  imports Scan_Spec
begin

text \<open>
  \<^verbatim>\<open>scanner.StoreAdapter\<close> over the database server, and the enrichment queue as the scanner calls it:
  both satisfy the laws the walk relies on. The scan theorems for the whole stack follow.
\<close>

definition to_ref :: "string \<times> AudiobookRef \<Rightarrow> string \<times> PathRef" where
  "to_ref x = (fst x, \<lparr>pr_ID = rf_ID (snd x), pr_ContentSig = rf_ContentSig (snd x)\<rparr>)"

definition to_row :: "ScanAudiobook \<Rightarrow> Audiobook" where
  "to_row b = \<lparr>ab_ID = sa_ID b, ab_LibraryPathID = sa_LibraryPathID b, ab_Path = sa_Path b,
     ab_FileSize = sa_FileSize b, ab_MTime = sa_MTime b, ab_Title = sa_Title b,
     ab_Author = sa_Author b, ab_Narrator = sa_Narrator b, ab_Album = sa_Album b,
     ab_Year = sa_Year b, ab_Genre = sa_Genre b, ab_ISBN = sa_ISBN b, ab_ASIN = sa_ASIN b,
     ab_Description = sa_Description b, ab_DurationMs = sa_DurationMs b, ab_Deleted = False,
     ab_DeletedAt = None, ab_ScannedAt = sa_ScannedAt b, ab_CreatedAt = 0, ab_UpdatedAt = 0,
     ab_ContentSig = sa_ContentSig b\<rparr>"

definition to_chapter :: "string \<Rightarrow> ParsedChapter \<Rightarrow> Chapter" where
  "to_chapter i c = \<lparr>ch_AudiobookID = i, ch_Idx = pc_Idx c, ch_Title = pc_Title c,
     ch_StartMs = pc_StartMs c, ch_EndMs = pc_EndMs c\<rparr>"

definition to_cover :: "ScanCover \<Rightarrow> Cover" where
  "to_cover c = \<lparr>cv_AudiobookID = sc_AudiobookID c, cv_ContentType = sc_ContentType c,
     cv_Bytes = sc_Bytes c, cv_Source = sc_Source c\<rparr>"

definition StoreAdapter :: "(('j, 'c) server_state, sql_error) scan_store" where
  "StoreAdapter = \<lparr>
     ss_ListRefs = (\<lambda>lib s. case run_stmt (ListAudiobookRefsByLibrary lib) s of
       (r, s') \<Rightarrow> (map_sum id (map to_ref) r, s')),
     ss_Upsert = (\<lambda>b. run_stmt (UpsertAudiobook (to_row b))),
     ss_ReplaceChapters = (\<lambda>i chs. run_stmt (ReplaceChapters i (map (to_chapter i) chs))),
     ss_UpsertCover = (\<lambda>c. run_stmt (UpsertCover (to_cover c))),
     ss_SoftDelete = (\<lambda>i. run_stmt (SoftDeleteAudiobook i))\<rparr>"

definition queue_Enqueue :: "string \<Rightarrow> (unit, ('j, 'c) server_state, sql_error) call" where
  "queue_Enqueue i = run_stmt (Enqueue i)"

text \<open>The rows of the table as the walk's laws see them.\<close>

definition table_rows :: "('j, 'c) db \<Rightarrow> rows" where
  "table_rows d k = map_option (\<lambda>a. (ab_ID a, ab_ContentSig a, ab_Deleted a))
     (find (\<lambda>a. path_key a = k) (t_audiobook d))"

lemma run_stmt_cases:
  assumes "run_stmt q s = (r, s')"
  obtains (ok) x where "r = Inr x" and "q (pg_time (sv_clock s (sv_calls s))) (sv_db s) = Inr (x, sv_db s')"
    | (err) e where "r = Inl e" and "sv_db s' = sv_db s"
  using assms by (auto simp: run_stmt_def Let_def split: if_splits sum.splits)

lemma run_stmt_keeps: "keeps_inv q \<Longrightarrow> db_inv (sv_db s) \<Longrightarrow> run_stmt q s = (r, s') \<Longrightarrow> db_inv (sv_db s')"
  using run_stmt_inv by fastforce

lemma find_path_map:
  "find (\<lambda>a. path_key a = k) (map f as) = map_option f (find (\<lambda>a. path_key a = k) as)"
  if "\<And>a. path_key (f a) = path_key a" for f
  using that by (induction as) auto

lemma table_rows_map:
  assumes "\<And>a. path_key (f a) = path_key a"
  shows "table_rows (d\<lparr>t_audiobook := map f (t_audiobook d)\<rparr>) k =
    map_option (\<lambda>a. (ab_ID (f a), ab_ContentSig (f a), ab_Deleted (f a)))
      (find (\<lambda>a. path_key a = k) (t_audiobook d))"
  by (simp add: table_rows_def find_path_map [OF assms] option.map_comp comp_def)

lemma table_rows_other [simp]:
  "table_rows (d\<lparr>t_chapter := x2\<rparr>) = table_rows d" "table_rows (d\<lparr>t_cover := x3\<rparr>) = table_rows d"
  "table_rows (d\<lparr>t_job := x5\<rparr>) = table_rows d"
  by (simp_all add: table_rows_def fun_eq_iff)

lemma upsert_rows:
  assumes "UpsertAudiobook a now d = Inr (u, d')" and "\<not> ab_Deleted a"
  shows "table_rows d' = (table_rows d)(path_key a \<mapsto>
    ingested (ab_ID a) (ab_ContentSig a) (table_rows d (path_key a)))"
proof (cases "list_ex (same_path a) (t_audiobook d)")
  case True
  let ?f = "\<lambda>r. if same_path a r then reingest a now r else r"
  from True obtain r where "find (\<lambda>x. path_key x = path_key a) (t_audiobook d) = Some r"
    by (cases "find (\<lambda>x. path_key x = path_key a) (t_audiobook d)") (auto simp: list_ex_iff same_path_def)
  moreover have "table_rows d' k = map_option (\<lambda>x. (ab_ID (?f x), ab_ContentSig (?f x), ab_Deleted (?f x)))
      (find (\<lambda>x. path_key x = k) (t_audiobook d))" for k
    using True assms(1) table_rows_map [of ?f d k] by (simp add: UpsertAudiobook_def)
  moreover have "(ab_ID (?f x), ab_ContentSig (?f x), ab_Deleted (?f x)) =
      (if k = path_key a then (ab_ID x, ab_ContentSig a, False)
       else (ab_ID x, ab_ContentSig x, ab_Deleted x))"
    if "find (\<lambda>x. path_key x = k) (t_audiobook d) = Some x" for k x
    using find_SomeD [OF that] by (simp add: same_path_def)
  ultimately show ?thesis
    by (auto simp: fun_eq_iff table_rows_def ingested_def simp del: find_None find_None'
        cong: map_option_cong split: option.split)
next
  case False
  then have "find (\<lambda>x. path_key x = path_key a) (t_audiobook d) = None"
    by (auto simp: list_ex_iff same_path_def)
  moreover have "d' = d\<lparr>t_audiobook := t_audiobook d @ [fresh_row a now]\<rparr>"
    using False assms(1) by (auto simp: UpsertAudiobook_def split: if_splits)
  ultimately show ?thesis
    using assms(2)
    by (auto simp: fun_eq_iff table_rows_def find_append ingested_def simp del: find_None find_None'
        split: option.split)
qed

lemma soft_delete_rows:
  assumes "SoftDeleteAudiobook i now d = Inr (u, d')"
  shows "table_rows d' = mark_deleted i (table_rows d)"
proof -
  let ?f = "\<lambda>a. if ab_ID a = i then a\<lparr>ab_Deleted := True, ab_DeletedAt := Some now, ab_UpdatedAt := now\<rparr> else a"
  have "d' = d\<lparr>t_audiobook := map ?f (t_audiobook d)\<rparr>"
    using assms by (simp add: SoftDeleteAudiobook_def)
  moreover have "path_key (?f a) = path_key a" for a
    by (simp add: path_key_def)
  ultimately show ?thesis
    by (auto simp: fun_eq_iff table_rows_map mark_deleted_def) (auto simp: table_rows_def split: option.split)
qed

lemma list_refs_rows:
  assumes "db_inv d" and "ListAudiobookRefsByLibrary lib now d = Inr (refs, d')"
  shows "d' = d" and "distinct (map fst (map to_ref refs))"
    and "map_of (map to_ref refs) p = active (table_rows d (lib, p))"
proof -
  let ?as = "filter (\<lambda>a. ab_LibraryPathID a = lib \<and> \<not> ab_Deleted a) (t_audiobook d)"
  let ?ref = "\<lambda>a. (ab_Path a, \<lparr>pr_ID = ab_ID a, pr_ContentSig = ab_ContentSig a\<rparr>)"
  have d': "d' = d" and refs: "map to_ref refs = map ?ref ?as"
    using assms(2) by (auto simp: ListAudiobookRefsByLibrary_def to_ref_def)
  show "d' = d" by (fact d')
  have dist: "distinct (map path_key (t_audiobook d))"
    using assms(1) by (simp add: db_inv_def audiobook_ok_def)
  then have "distinct (map path_key ?as)"
    by (rule distinct_map_filter)
  then have "distinct (map ab_Path ?as)"
    by (auto simp: distinct_map inj_on_def path_key_def)
  then show dref: "distinct (map fst (map to_ref refs))"
    unfolding refs by (simp add: comp_def)
  show "map_of (map to_ref refs) p = active (table_rows d (lib, p))"
  proof (cases "find (\<lambda>a. path_key a = (lib, p)) (t_audiobook d)")
    case None
    then have "p \<notin> fst ` set (map to_ref refs)"
      unfolding refs by (auto simp: path_key_def)
    then have "map_of (map to_ref refs) p = None"
      by (simp only: map_of_eq_None_iff not_False_eq_True)
    then show ?thesis
      unfolding table_rows_def None active_def by simp
  next
    case (Some a)
    then have a: "a \<in> set (t_audiobook d)" "path_key a = (lib, p)"
      by (auto dest: find_SomeD)
    show ?thesis
    proof (cases "ab_Deleted a")
      case True
      have "b = a" if "b \<in> set (t_audiobook d)" "ab_LibraryPathID b = lib" "ab_Path b = p" for b
        using distinct_map_eqD [OF dist that(1) a(1)] a(2) that(2,3) by (simp add: path_key_def)
      then have "p \<notin> fst ` set (map to_ref refs)"
        unfolding refs using True by auto
      then have "map_of (map to_ref refs) p = None"
        by (simp only: map_of_eq_None_iff not_False_eq_True)
      with True Some show ?thesis
        by (simp add: table_rows_def active_def)
    next
      case False
      with a have mem: "a \<in> set ?as" and p: "p = ab_Path a"
        by (simp_all add: path_key_def)
      have "?ref a \<in> set (map to_ref refs)"
        unfolding refs set_map using mem by (rule imageI)
      then have "map_of (map to_ref refs) p = Some \<lparr>pr_ID = ab_ID a, pr_ContentSig = ab_ContentSig a\<rparr>"
        unfolding p by (rule map_of_is_SomeI [OF dref])
      with False Some show ?thesis
        by (simp add: table_rows_def active_def)
    qed
  qed
qed

lemma rows_unique:
  assumes "db_inv d" and "table_rows d k = Some (i, x)" and "table_rows d k' = Some (i, y)"
  shows "k = k'"
proof -
  obtain a b where "a \<in> set (t_audiobook d)" "path_key a = k" "ab_ID a = i"
    and "b \<in> set (t_audiobook d)" "path_key b = k'" "ab_ID b = i"
    using assms(2,3) by (auto simp: table_rows_def dest!: find_SomeD)
  moreover have "distinct (map ab_ID (t_audiobook d))"
    using assms(1) by (simp add: db_inv_def audiobook_ok_def)
  ultimately show ?thesis
    using distinct_map_eqD by metis
qed

lemma ReplaceChapters_rows:
  assumes "ReplaceChapters i chs now d = Inr (u, d')"
  shows "table_rows d' = table_rows d"
proof -
  have "insert_chapters i cs x = Inr y \<Longrightarrow> table_rows y = table_rows x" for cs and x y :: "('a, 'b) db"
    by (induction i cs x rule: insert_chapters.induct) (auto split: if_splits)
  with assms show ?thesis
    by (auto simp: ReplaceChapters_def map_sum_def split: sum.splits)
qed


lemma UpsertCover_rows: "UpsertCover c now d = Inr (u, d') \<Longrightarrow> table_rows d' = table_rows d"
  by (auto simp: UpsertCover_def split: if_splits)

lemma Enqueue_rows: "Enqueue i now d = Inr (u, d') \<Longrightarrow> table_rows d' = table_rows d"
  by (auto simp: Enqueue_def split: if_splits)

interpretation adapter: scan_store_laws StoreAdapter queue_Enqueue
  "\<lambda>s. table_rows (sv_db s)" "\<lambda>s. db_inv (sv_db s)"
proof (unfold_locales, goal_cases)
  case (1 s lib lr s')
  then obtain r where run: "run_stmt (ListAudiobookRefsByLibrary lib) s = (r, s')"
    and lr: "lr = map_sum id (map to_ref) r"
    by (auto simp: StoreAdapter_def split: prod.splits)
  from run show ?case
  proof (cases rule: run_stmt_cases)
    case (ok refs)
    with 1(1) lr list_refs_rows show ?thesis by fastforce
  qed (use 1(1) lr in auto)
next
  case (2 s a r s')
  then have run: "run_stmt (UpsertAudiobook (to_row a)) s = (r, s')"
    by (simp add: StoreAdapter_def)
  moreover have "path_key (to_row a) = (sa_LibraryPathID a, sa_Path a)" "ab_ID (to_row a) = sa_ID a"
    "ab_ContentSig (to_row a) = sa_ContentSig a" "\<not> ab_Deleted (to_row a)"
    by (simp_all add: to_row_def path_key_def)
  ultimately show ?case
    using run_stmt_keeps [OF UpsertAudiobook_inv 2(1) run] upsert_rows
    by (cases rule: run_stmt_cases) fastforce+
next
  case (3 s i chs r s')
  then have run: "run_stmt (ReplaceChapters i (map (to_chapter i) chs)) s = (r, s')"
    by (simp add: StoreAdapter_def)
  then show ?case
    using run_stmt_keeps [OF ReplaceChapters_inv 3(1) run] ReplaceChapters_rows
    by (cases rule: run_stmt_cases) fastforce+
next
  case (4 s c r s')
  then have run: "run_stmt (UpsertCover (to_cover c)) s = (r, s')"
    by (simp add: StoreAdapter_def)
  then show ?case
    using run_stmt_keeps [OF UpsertCover_inv 4(1) run] UpsertCover_rows
    by (cases rule: run_stmt_cases) fastforce+
next
  case (5 s i r s')
  then have run: "run_stmt (Enqueue i) s = (r, s')"
    by (simp add: queue_Enqueue_def)
  then show ?case
    using run_stmt_keeps [OF Enqueue_inv 5(1) run] Enqueue_rows
    by (cases rule: run_stmt_cases) fastforce+
next
  case (6 s i r s')
  then have run: "run_stmt (SoftDeleteAudiobook i) s = (r, s')"
    by (simp add: StoreAdapter_def)
  then show ?case
    using run_stmt_keeps [OF SoftDeleteAudiobook_inv 6(1) run] soft_delete_rows
    by (cases rule: run_stmt_cases) fastforce+
next
  case (7 s k i x k' y)
  then show ?case by (rule rows_unique)
qed


section \<open>A scan of the sample library\<close>

text \<open>One file that is new, while the two books of the library are gone from the disk.\<close>

definition sample_server :: "(unit, unit) server_state" where
  "sample_server = \<lparr>sv_db = sample_db, sv_calls = 0, sv_clock = (\<lambda>n. 9000), sv_fault = (\<lambda>n. False)\<rparr>"

definition sample_env :: walk_env where
  "sample_env = \<lparr>we_unicode = sample_unicode, we_media = sample_media,
     we_blake = (\<lambda>b. ''x''), we_now = (\<lambda>p. 9000)\<rparr>"

definition sample_info :: file_info where
  "sample_info = \<lparr>fi_Regular = True, fi_ModTime = 0, fi_Size = 10\<rparr>"

definition sample_fs :: "fs_node option" where
  "sample_fs = Some (DirNode [(''d.M4B'', FileNode (Some sample_info))])"

definition sample_params :: "((unit, unit) server_state, sql_error) WalkParams" where
  "sample_params = \<lparr>wp_LibraryPathID = 1, wp_Root = ''/m/one'', wp_EnrichmentQueue = Some queue_Enqueue\<rparr>"

lemma sample_visits: "WalkDir ''/m/one'' sample_fs =
  [VisitDir ''/m/one'', VisitFile ''/m/one/d.M4B'' (Some sample_info)]"
  by (simp add: WalkDir_def sample_fs_def Join2_def Clean_def IsAbs_def HasPrefix_def clean_components_def push_component_def)

lemma lower_d: "supportedExtension u (Ext ''/m/one/d.M4B'') = ''m4b''"
proof -
  have "map ascii_lower ''.M4B'' = ''.m4b''" by code_simp
  then show ?thesis
    by (simp add: supportedExtension_def Ext_def ToLower_def is_ascii_def del: list.map)
qed

lemma sample_audio: "is_audio sample_env ''/m/one/d.M4B''"
  by (simp add: is_audio_def lower_d)

definition sample_parsed :: ParsedM4B where
  "sample_parsed = zero_parsed\<lparr>pm_DurationMs := 90000, pm_CoverBytes := ''jpg'', pm_CoverMIME := ''image/jpeg'',
     pm_CoverSource := ''embedded'', pm_Chapters := [whole_file_chapter 90000]\<rparr>"

lemma sample_parse: "parseAudio (we_unicode sample_env) (we_media sample_env) ''/m/one/d.M4B'' = Inr sample_parsed"
  by (simp add: parseAudio_def lower_d ParseM4B_def sample_env_def sample_media_def read_boxes_def parseMP4_def
      synthesize_chapter_def sidecar_fallback_def readChapAtoms_def maxStoredCoverBytes_def
      sample_duration Let_def sample_parsed_def zero_parsed_def cover_mime_def)

lemma sample_sig: "StableID (we_blake sample_env) p n t = ''78''"
  by (simp add: StableID_def sample_env_def hex_EncodeToString_def hex_digit_def)

lemma sample_no_collision:
  "no_collision sample_env (WalkDir (wp_Root sample_params) sample_fs) 1 (table_rows (sv_db sample_server))"
  by (auto simp: no_collision_def sample_params_def sample_visits table_rows_def sample_server_def
      sample_db_def sample_book_def path_key_def ingest_sig_def sample_sig active_def Let_def
      split: if_splits)

lemma sample_server_inv: "db_inv (sv_db sample_server)"
  by (simp add: sample_server_def sample_db_inv)

lemmas walk_eval =
  Walk_def sample_params_def sample_visits visit_file_def sample_audio sample_parse sample_sig sample_info_def
  mark_known_def ingest_def write_book_def write_cover_def StoreAdapter_def run_stmt_def sample_server_def
  ListAudiobookRefsByLibrary_def sample_db_def empty_db_def sample_book_def to_ref_def Let_def
  zero_result_def scanned_book_def to_row_def UpsertAudiobook_def same_path_def path_key_def
  sample_parsed_def fresh_row_def ReplaceChapters_def to_chapter_def to_cover_def UpsertCover_def
  count_book_def enqueue_enrichment_def queue_Enqueue_def Enqueue_def SoftDeleteAudiobook_def

lemma sample_walk:
  "\<exists>s'. Walk StoreAdapter sample_params sample_env sample_fs sample_server =
     ((None, \<lparr>wr_Added = 1, wr_Changed = 0, wr_Deleted = 2\<rparr>), s')"
  by (simp add: walk_eval)


section \<open>Properties\<close>

text \<open>
  C1. A scan that succeeds leaves the library exactly as its files are: a path without a recognized
  file has no active book; a new or changed readable file has an active book with the signature of
  its current size and modification time, and with the id the path always had (its first signature);
  a file that is unchanged, unreadable or unparseable keeps the book it had. Other libraries are
  untouched, every constraint of the schema still holds, and the three counts are the numbers of
  paths in these cases.
\<close>

theorem scan_result:
  assumes "db_inv (sv_db s)" and "IsAbs (wp_Root wp)" and "\<forall>t\<in>set_option fs. wf_fs t"
    and "wp_EnrichmentQueue wp = None \<or> wp_EnrichmentQueue wp = Some queue_Enqueue"
    and "no_collision env (WalkDir (wp_Root wp) fs) (wp_LibraryPathID wp) (table_rows (sv_db s))"
    and "Walk StoreAdapter wp env fs s = ((None, res), s')"
  shows "db_inv (sv_db s') \<and>
    (\<forall>l p. active (table_rows (sv_db s') (l, p)) =
       (if l = wp_LibraryPathID wp
        then scan_view env (WalkDir (wp_Root wp) fs) l (table_rows (sv_db s)) p
        else active (table_rows (sv_db s) (l, p)))) \<and>
    res = \<lparr>wr_Added = new_books env (WalkDir (wp_Root wp) fs) (wp_LibraryPathID wp) (table_rows (sv_db s)),
      wr_Changed = changed_books env (WalkDir (wp_Root wp) fs) (wp_LibraryPathID wp) (table_rows (sv_db s)),
      wr_Deleted = gone_books env (WalkDir (wp_Root wp) fs) (wp_LibraryPathID wp) (table_rows (sv_db s))\<rparr>"
proof -
  have "distinct (visited_files (WalkDir (wp_Root wp) fs))"
    by (rule visited_files_distinct) (use assms(2,3) in auto)
  then show ?thesis
    using adapter.Walk_ok [OF assms(1) _ refl refl _ assms(5,6)] assms(4)
    by (simp add: adapter.queued_def)
qed

theorem scan_result_witness:
  "\<exists>res s'. Walk StoreAdapter sample_params sample_env sample_fs sample_server = ((None, res), s') \<and>
     active (table_rows (sv_db s') (1, ''/m/one/a.mp3'')) = None \<and>
     active (table_rows (sv_db s') (1, ''/m/one/d.M4B'')) = Some \<lparr>pr_ID = ''78'', pr_ContentSig = ''78''\<rparr> \<and>
     active (table_rows (sv_db s') (2, ''/m/two/c.m4b'')) = Some \<lparr>pr_ID = ''c3'', pr_ContentSig = ''c3''\<rparr>"
proof -
  obtain res s' where walk: "Walk StoreAdapter sample_params sample_env sample_fs sample_server = ((None, res), s')"
    using sample_walk by blast
  have hyps: "IsAbs (wp_Root sample_params)" "\<forall>t\<in>set_option sample_fs. wf_fs t"
    "wp_EnrichmentQueue sample_params = None \<or> wp_EnrichmentQueue sample_params = Some queue_Enqueue"
    "no_collision sample_env (WalkDir (wp_Root sample_params) sample_fs) (wp_LibraryPathID sample_params)
       (table_rows (sv_db sample_server))"
    using sample_no_collision
    by (simp_all add: sample_params_def IsAbs_def HasPrefix_def sample_fs_def proper_def)
  show ?thesis
    using scan_result [OF sample_server_inv hyps walk] walk
    by (simp add: sample_params_def sample_visits scan_view_def present_def sample_audio ingest_sig_def
        sample_parse sample_sig table_rows_def sample_server_def sample_db_def sample_book_def path_key_def
        active_def ingested_def sample_info_def Let_def)
qed

text \<open>
  C22. A scan that cannot read the library root or one of its directories (an unmounted disk, a lost
  permission) reports an error and takes no book away: every book that was active is still active
  under the same id. Files are never mistaken for deleted because they could not be listed.
\<close>

theorem unreadable_scan_deletes_nothing:
  assumes "db_inv (sv_db s)"
    and "wp_EnrichmentQueue wp = None \<or> wp_EnrichmentQueue wp = Some queue_Enqueue"
    and "VisitError p \<in> set (WalkDir (wp_Root wp) fs)"
    and "Walk StoreAdapter wp env fs s = ((e, res), s')"
  shows "e \<noteq> None \<and> db_inv (sv_db s') \<and>
    (\<forall>l q ref. active (table_rows (sv_db s) (l, q)) = Some ref \<longrightarrow>
       (\<exists>ref'. active (table_rows (sv_db s') (l, q)) = Some ref' \<and> pr_ID ref' = pr_ID ref))"
  using adapter.Walk_unreadable [OF assms(1) _ assms(3,4)] assms(2)
  by (simp add: adapter.queued_def grows_def)

theorem unreadable_scan_deletes_nothing_witness:
  "\<exists>e res s'. Walk StoreAdapter sample_params sample_env None sample_server = ((Some e, res), s') \<and>
     (\<exists>ref. active (table_rows (sv_db s') (1, ''/m/one/a.mp3'')) = Some ref \<and> pr_ID ref = ''a1'')"
proof -
  obtain e res s' where walk: "Walk StoreAdapter sample_params sample_env None sample_server = ((e, res), s')"
    by (metis prod.exhaust)
  have "VisitError ''/m/one'' \<in> set (WalkDir (wp_Root sample_params) None)"
    by (simp add: WalkDir_def sample_params_def)
  from unreadable_scan_deletes_nothing [OF sample_server_inv _ this walk]
  have "e \<noteq> None" and keep: "\<And>l q ref. active (table_rows (sv_db sample_server) (l, q)) = Some ref \<Longrightarrow>
      (\<exists>ref'. active (table_rows (sv_db s') (l, q)) = Some ref' \<and> pr_ID ref' = pr_ID ref)"
    by (simp_all add: sample_params_def)
  moreover have "active (table_rows (sv_db sample_server) (1, ''/m/one/a.mp3'')) =
      Some \<lparr>pr_ID = ''a1'', pr_ContentSig = ''a1''\<rparr>"
    by (simp add: table_rows_def sample_server_def sample_db_def sample_book_def path_key_def active_def)
  ultimately show ?thesis
    using walk keep by fastforce
qed

text \<open>
  C21. Scanning twice is scanning once: after a successful scan, a second scan of the same files (if it
  can read the table) succeeds, reports nothing added, changed or deleted, and leaves the whole
  database as it is; in particular it queues no enrichment again.
\<close>

theorem rescan_is_noop:
  assumes "db_inv (sv_db s)" and "IsAbs (wp_Root wp)" and "\<forall>t\<in>set_option fs. wf_fs t"
    and "wp_EnrichmentQueue wp = None \<or> wp_EnrichmentQueue wp = Some queue_Enqueue"
    and "no_collision env (WalkDir (wp_Root wp) fs) (wp_LibraryPathID wp) (table_rows (sv_db s))"
    and "Walk StoreAdapter wp env fs s = ((None, res), s1)"
    and "Walk StoreAdapter wp env fs s1 = ((e, res2), s2)" and "\<forall>x. e \<noteq> Some (ListExisting x)"
  shows "e = None \<and> res2 = \<lparr>wr_Added = 0, wr_Changed = 0, wr_Deleted = 0\<rparr> \<and>
    sv_db s2 = sv_db s1"
proof -
  have same: "sv_db (snd (ss_ListRefs StoreAdapter i x)) = sv_db x" for i and x :: "('a, 'b) server_state"
    by (auto simp: StoreAdapter_def run_stmt_def Let_def ListAudiobookRefsByLibrary_def split: prod.split)
  have "distinct (visited_files (WalkDir (wp_Root wp) fs))"
    by (rule visited_files_distinct) (use assms(2,3) in auto)
  then show ?thesis
    using adapter.Walk_again [OF assms(1) _ refl refl _ assms(5-7)] assms(4,8) same
    by (simp add: adapter.queued_def zero_result_def)
qed

lemma sample_walk_twice:
  "\<exists>res s1 res2 s2. Walk StoreAdapter sample_params sample_env sample_fs sample_server = ((None, res), s1) \<and>
     Walk StoreAdapter sample_params sample_env sample_fs s1 = ((None, res2), s2)"
  by (simp add: walk_eval)

theorem rescan_is_noop_witness:
  "\<exists>res s1 res2 s2. Walk StoreAdapter sample_params sample_env sample_fs sample_server = ((None, res), s1) \<and>
     Walk StoreAdapter sample_params sample_env sample_fs s1 = ((None, res2), s2) \<and>
     res2 = \<lparr>wr_Added = 0, wr_Changed = 0, wr_Deleted = 0\<rparr> \<and> sv_db s2 = sv_db s1"
proof -
  obtain res s1 res2 s2
    where walk: "Walk StoreAdapter sample_params sample_env sample_fs sample_server = ((None, res), s1)"
      and again: "Walk StoreAdapter sample_params sample_env sample_fs s1 = ((None, res2), s2)"
    using sample_walk_twice by blast
  have hyps: "IsAbs (wp_Root sample_params)" "\<forall>t\<in>set_option sample_fs. wf_fs t"
    "wp_EnrichmentQueue sample_params = None \<or> wp_EnrichmentQueue sample_params = Some queue_Enqueue"
    "no_collision sample_env (WalkDir (wp_Root sample_params) sample_fs) (wp_LibraryPathID sample_params)
       (table_rows (sv_db sample_server))"
    using sample_no_collision
    by (simp_all add: sample_params_def IsAbs_def HasPrefix_def sample_fs_def proper_def)
  show ?thesis
    using rescan_is_noop [OF sample_server_inv hyps walk again] walk again by blast
qed

text \<open>
  Two library paths that overlap cannot both be scanned: the id of a new book depends on its path,
  size and modification time only, not on the library, so a file whose book another library already
  holds violates the primary key and aborts the scan of the second library at that file.
\<close>

theorem overlapping_libraries_abort:
  assumes "\<forall>n. \<not> sv_fault (ws_store ws) n"
    and "a \<in> set (t_audiobook (sv_db (ws_store ws)))"
    and "ab_ID a = StableID (we_blake env) path (fi_Size fi) (fi_ModTime fi)"
    and "table_rows (sv_db (ws_store ws)) (wp_LibraryPathID wp, path) = None"
    and "map_of refs path = None" and "is_audio env path" and "fi_Regular fi"
    and "parseAudio (we_unicode env) (we_media env) path = Inr p"
  shows "fst (visit_file StoreAdapter wp env refs path (Some fi) ws) = Some (WalkStore UniqueViolation)"
proof -
  let ?d = "sv_db (ws_store ws)" and ?sig = "StableID (we_blake env) path (fi_Size fi) (fi_ModTime fi)"
  let ?b = "to_row (scanned_book env (wp_LibraryPathID wp) ?sig path fi ?sig p)"
  have "path_key ?b = (wp_LibraryPathID wp, path)" "ab_ID ?b = ?sig"
    by (simp_all add: to_row_def scanned_book_def path_key_def)
  then have "UpsertAudiobook ?b now ?d = Inl UniqueViolation" for now
    using assms(2-4)
    by (auto simp: UpsertAudiobook_def list_ex_iff same_path_def table_rows_def)
  with assms(1,5-8) show ?thesis
    by (simp add: visit_file_def mark_known_def ingest_def write_book_def StoreAdapter_def run_stmt_def)
qed

definition overlap_state :: "(unit, unit) server_state walk_state" where
  "overlap_state = \<lparr>ws_store = sample_server\<lparr>sv_db := sample_db\<lparr>t_audiobook :=
     [sample_book ''78'' 2 ''/m/one/d.M4B'' ''D'' ''Dan'']\<rparr>\<rparr>, ws_seen = [], ws_res = zero_result\<rparr>"

theorem overlapping_libraries_abort_witness:
  "fst (visit_file StoreAdapter sample_params sample_env [] ''/m/one/d.M4B'' (Some sample_info) overlap_state)
     = Some (WalkStore UniqueViolation)"
  by (rule overlapping_libraries_abort [where a = "sample_book ''78'' 2 ''/m/one/d.M4B'' ''D'' ''Dan''"])
    (simp_all add: overlap_state_def sample_server_def sample_sig sample_audio sample_parse sample_info_def
      table_rows_def sample_params_def path_key_def sample_book_def)

text \<open>
  C39. A deleted book whose file comes back changed breaks the scan: the row is revived under its old id,
  but chapters and cover are written under the new signature, which is no row's id, so the foreign key
  fails and the scan of the library aborts (the row already carries the new signature).
\<close>

theorem revived_file_abort:
  assumes "\<forall>n. \<not> sv_fault (ws_store ws) n"
    and "sig = StableID (we_blake env) path (fi_Size fi) (fi_ModTime fi)"
    and "table_rows (sv_db (ws_store ws)) (wp_LibraryPathID wp, path) = Some (i, old, True)"
    and "sig \<notin> audiobook_ids (sv_db (ws_store ws))" and "db_inv (sv_db (ws_store ws))"
    and "map_of refs path = None" and "is_audio env path" and "fi_Regular fi"
    and "parseAudio (we_unicode env) (we_media env) path = Inr p" and "pm_Chapters p \<noteq> []"
  shows "\<exists>ws'. visit_file StoreAdapter wp env refs path (Some fi) ws = (Some (WalkStore ForeignKeyViolation), ws') \<and>
    table_rows (sv_db (ws_store ws')) (wp_LibraryPathID wp, path) = Some (i, sig, False)"
proof -
  let ?d = "sv_db (ws_store ws)" and ?b = "to_row (scanned_book env (wp_LibraryPathID wp) sig path fi sig p)"
  let ?now = "pg_time (sv_clock (ws_store ws) (sv_calls (ws_store ws)))"
  let ?f = "\<lambda>r. if same_path ?b r then reingest ?b ?now r else r"
  let ?d1 = "?d\<lparr>t_audiobook := map ?f (t_audiobook ?d)\<rparr>"
  have b: "path_key ?b = (wp_LibraryPathID wp, path)" "ab_ID ?b = sig" "ab_ContentSig ?b = sig" "\<not> ab_Deleted ?b"
    by (simp_all add: to_row_def scanned_book_def path_key_def)
  have "list_ex (same_path ?b) (t_audiobook ?d)"
    using assms(3) b(1) by (auto simp: table_rows_def list_ex_iff same_path_def dest!: find_SomeD)
  then have up: "UpsertAudiobook ?b ?now ?d = Inr ((), ?d1)"
    by (simp add: UpsertAudiobook_def)
  then have rows: "table_rows ?d1 (wp_LibraryPathID wp, path) = Some (i, sig, False)"
    using upsert_rows [OF up] b assms(3) by (simp add: ingested_def)
  have ids: "\<not> list_ex (\<lambda>a. ab_ID a = sig) (t_audiobook ?d1)"
  proof -
    have "list_ex (\<lambda>a. ab_ID a = sig) (map ?f (t_audiobook ?d)) \<longleftrightarrow> list_ex (\<lambda>a. ab_ID a = sig) (t_audiobook ?d)"
      by (rule list_ex_map_key) simp
    with assms(4) show ?thesis
      by (simp add: list_ex_iff audiobook_ids_def image_iff) blast
  qed
  obtain c cs where "map (to_chapter sig) (pm_Chapters p) = c # cs"
    using assms(10) by (cases "pm_Chapters p") auto
  then have "ReplaceChapters sig (map (to_chapter sig) (pm_Chapters p)) t ?d1 = Inl ForeignKeyViolation" for t
    using ids by (auto simp: ReplaceChapters_def list_ex_iff)
  with assms(1,2,6-9) up rows show ?thesis
    by (simp add: visit_file_def mark_known_def ingest_def write_book_def StoreAdapter_def run_stmt_def
        scanned_book_def Let_def)
qed

definition revived_state :: "(unit, unit) server_state walk_state" where
  "revived_state = \<lparr>ws_store = sample_server\<lparr>sv_db := sample_db\<lparr>t_cover := [],
       t_audiobook :=
     [(sample_book ''old'' 1 ''/m/one/d.M4B'' ''D'' ''Dan'')\<lparr>ab_Deleted := True\<rparr>]\<rparr>\<rparr>, ws_seen = [], ws_res = zero_result\<rparr>"

theorem revived_file_abort_witness:
  "\<exists>ws'. visit_file StoreAdapter sample_params sample_env [] ''/m/one/d.M4B'' (Some sample_info) revived_state
       = (Some (WalkStore ForeignKeyViolation), ws') \<and>
     table_rows (sv_db (ws_store ws')) (wp_LibraryPathID sample_params, ''/m/one/d.M4B'') = Some (''old'', ''78'', False)"
proof (rule revived_file_abort [where p = sample_parsed and old = "''old''"])
  show "db_inv (sv_db (ws_store revived_state))"
    by (simp add: revived_state_def db_inv_def constraint_defs sample_db_def sample_book_def empty_db_def path_key_def)
qed (simp_all add: revived_state_def sample_server_def sample_sig sample_audio sample_parse sample_info_def
    table_rows_def sample_params_def path_key_def sample_book_def audiobook_ids_def sample_parsed_def)

end
