(* ===== verification/Preservation.thy ===== *)
theory Preservation
  imports Worker Store_Adapter
begin

text \<open>
  What a whole operation keeps of the tables, from what its statements keep. The operations are the
  walk of a library, the drain of the queue and a metadata search; a property of the tables that the
  statements of one of them keep is kept by it. The schema invariant and the scan events are such
  properties.
\<close>

definition keeps :: "(('j, 'c) server_state \<Rightarrow> bool) \<Rightarrow> ('a, 'j, 'c) stmt \<Rightarrow> bool" where
  "keeps P q \<longleftrightarrow> (\<forall>s. P s \<longrightarrow> P (snd (run_stmt q s)))"

lemma run_keeps: "keeps P q \<Longrightarrow> P s \<Longrightarrow> P (snd (run_stmt q s))"
  by (simp add: keeps_def)

lemma run_keepsD: "run_stmt q s = (r, s') \<Longrightarrow> keeps P q \<Longrightarrow> P s \<Longrightarrow> P s'"
  by (metis run_keeps snd_conv)

lemma keeps_tables: "(\<And>now d r d'. q now d = Inr (r, d') \<Longrightarrow> P d \<Longrightarrow> P d') \<Longrightarrow> keeps (\<lambda>s. P (sv_db s)) q"
  by (auto simp: keeps_def run_stmt_def Let_def split: sum.split)

lemma keeps_schema: "keeps_inv q \<Longrightarrow> keeps (\<lambda>s. db_inv (sv_db s)) q"
  by (simp add: keeps_def run_stmt_inv)

lemma keeps_faults: "keeps (\<lambda>s. sv_fault s = F) q"
  by (simp add: keeps_def)

text \<open>A reading statement keeps what does not depend on the count of statements.\<close>

lemma run_readD: "run_stmt q s = (r, s') \<Longrightarrow> read_only q \<Longrightarrow> (\<And>n. P (s\<lparr>sv_calls := n\<rparr>) = P s) \<Longrightarrow> P s \<Longrightarrow> P s'"
  by (metis run_read_only)


section \<open>The walk\<close>

lemma read_only_refs [simp]: "read_only (ListAudiobookRefsByLibrary lib)"
  by (auto simp: read_only_def ListAudiobookRefsByLibrary_def)

locale scan_keeps =
  fixes P :: "('j, 'c) server_state \<Rightarrow> bool"
  assumes calls: "P (s\<lparr>sv_calls := k\<rparr>) = P s"
    and upsert: "keeps P (UpsertAudiobook a)" and chapters: "keeps P (ReplaceChapters i cs)"
    and cover: "keeps P (UpsertCover c)" and soft_delete: "keeps P (SoftDeleteAudiobook i)"
    and enqueue: "keeps P (Enqueue i)"
begin

lemma adapter_keeps:
  "ss_ListRefs StoreAdapter lib s = (lr, s') \<Longrightarrow> P s \<Longrightarrow> P s'"
  "ss_Upsert StoreAdapter b s = (r, s') \<Longrightarrow> P s \<Longrightarrow> P s'"
  "ss_ReplaceChapters StoreAdapter i chs s = (r, s') \<Longrightarrow> P s \<Longrightarrow> P s'"
  "ss_UpsertCover StoreAdapter cv s = (r, s') \<Longrightarrow> P s \<Longrightarrow> P s'"
  "ss_SoftDelete StoreAdapter i s = (r, s') \<Longrightarrow> P s \<Longrightarrow> P s'"
  "queue_Enqueue i s = (r, s') \<Longrightarrow> P s \<Longrightarrow> P s'"
  by (auto simp: StoreAdapter_def queue_Enqueue_def split: prod.splits
      dest: run_readD [OF _ read_only_refs calls] run_keepsD [OF _ upsert] run_keepsD [OF _ chapters]
        run_keepsD [OF _ cover] run_keepsD [OF _ soft_delete] run_keepsD [OF _ enqueue])

lemma write_book_keeps: "write_book StoreAdapter ab p s = (r, s') \<Longrightarrow> P s \<Longrightarrow> P s'"
  by (auto simp: write_book_def write_cover_def split: prod.splits sum.splits if_splits dest!: adapter_keeps)

lemma enqueue_keeps:
  assumes "wp_EnrichmentQueue wp = None \<or> wp_EnrichmentQueue wp = Some queue_Enqueue" and "P s"
  shows "P (enqueue_enrichment wp i s)"
  using assms adapter_keeps(6) by (metis enqueue_enrichment_def option.simps(4) option.simps(5) prod.collapse)

lemma visit_keeps:
  assumes "wp_EnrichmentQueue wp = None \<or> wp_EnrichmentQueue wp = Some queue_Enqueue"
  shows "visit_file StoreAdapter wp env refs path info ws = (r, ws') \<Longrightarrow> P (ws_store ws) \<Longrightarrow> P (ws_store ws')"
  by (auto simp: visit_file_def ingest_def mark_known_def Let_def enqueue_keeps [OF assms]
      split: if_splits option.splits sum.splits prod.splits dest!: write_book_keeps)

lemma walk_visits_keeps:
  assumes "wp_EnrichmentQueue wp = None \<or> wp_EnrichmentQueue wp = Some queue_Enqueue"
  shows "walk_visits StoreAdapter wp env refs vs ws = (r, ws') \<Longrightarrow> P (ws_store ws) \<Longrightarrow> P (ws_store ws')"
proof (induction vs arbitrary: ws)
  case (Cons v vs)
  then show ?case by (cases v) (auto split: prod.splits option.splits dest: visit_keeps [OF assms])
qed simp

lemma delete_unseen_keeps:
  "delete_unseen StoreAdapter refs ws = (r, ws') \<Longrightarrow> P (ws_store ws) \<Longrightarrow> P (ws_store ws')"
  by (induction refs arbitrary: ws)
    (auto simp: split_paired_all split: prod.splits sum.splits if_splits dest: adapter_keeps(5))

lemma Walk_keeps:
  assumes "wp_EnrichmentQueue wp = None \<or> wp_EnrichmentQueue wp = Some queue_Enqueue"
  shows "Walk StoreAdapter wp env fs s = (r, s') \<Longrightarrow> P s \<Longrightarrow> P s'"
  by (auto simp: Walk_def split: if_splits prod.splits sum.splits option.splits
      dest!: adapter_keeps(1) walk_visits_keeps [OF assms] delete_unseen_keeps)

end


section \<open>The drain\<close>

lemma read_only_load [simp]: "read_only (LoadAudiobookRow i)"
  by (auto simp: read_only_def LoadAudiobookRow_def split: option.splits)

locale drain_keeps =
  fixes P :: "('j, 'c) server_state \<Rightarrow> bool"
  assumes calls: "P (s\<lparr>sv_calls := k\<rparr>) = P s"
    and claim: "keeps P (ClaimNext pg locked)" and update: "keeps P (UpdateAudiobookMetadata row)"
    and completed: "keeps P (MarkCompleted i)" and failed: "keeps P (MarkFailed i n err)"
begin

lemma process_keeps:
  assumes "wk_Store w = worker_store"
  shows "process w j s = (r, s') \<Longrightarrow> P s \<Longrightarrow> P s'"
  by (auto simp: process_def assms split: option.splits prod.splits sum.splits if_splits
      dest!: run_readD [OF _ read_only_load calls] run_keepsD [OF _ update])

lemma turn_keeps:
  assumes "wk_Store w = worker_store" and "P s"
  shows "case turn w s of Inl x \<Rightarrow> P (snd x) | Inr s' \<Rightarrow> P s'"
  using assms(2)
  by (auto simp: turn_def split: option.split prod.split sum.split
      dest!: process_keeps [OF assms(1)] run_keepsD [OF _ claim]
      intro!: run_keeps [OF completed] run_keeps [OF failed])

lemma Drain_keeps:
  assumes "wk_Store w = worker_store" and "Drain w s = Some x" and "P s"
  shows "P (snd x)"
  using assms(2,3)
proof (induction rule: Drain_induct)
  case (return s x)
  with turn_keeps [OF assms(1), of s] show ?case by simp
next
  case (turn s s' x)
  with turn_keeps [OF assms(1), of s] show ?case by simp
qed

end


section \<open>A metadata search\<close>

lemma read_only_cache [simp]: "read_only (cache_Get ttl now key)"
  by (auto simp: read_only_def cache_Get_def split: option.splits)

locale search_keeps =
  fixes P :: "('j, 'c) server_state \<Rightarrow> bool"
  assumes calls: "P (s\<lparr>sv_calls := k\<rparr>) = P s"
    and hit: "keeps P (PutHit key src region response)" and not_found: "keeps P (PutNotFound braces key src region)"
begin

lemma fetch_live_keeps: "P s \<Longrightarrow> P (snd (fetch_live env src query region original s))"
  by (auto simp: fetch_live_def Let_def split: sum.split option.split
      intro!: run_keeps [OF hit] run_keeps [OF not_found])

lemma searchOne_keeps: "P s \<Longrightarrow> P (snd (searchOne env src query region original s))"
  by (auto simp: searchOne_def split: prod.split sum.split option.split
      intro!: fetch_live_keeps dest!: run_readD [OF _ read_only_cache calls])

lemma aggregator_Search_keeps:
  "P s \<Longrightarrow> P (snd (aggregator_Search env order query region enabled original s))"
proof -
  have "P s \<Longrightarrow> P (snd (search_all env srcs query region original s))" for srcs s
    by (induction srcs arbitrary: s)
      (auto simp: Let_def split: prod.split dest: arg_cong [where f = snd] searchOne_keeps, metis searchOne_keeps snd_conv)
  then show "P s \<Longrightarrow> P (snd (aggregator_Search env order query region enabled original s))"
    by (auto simp: aggregator_Search_def Let_def split: prod.split) (metis snd_conv)
qed

end


section \<open>The schema and the scan events\<close>

lemmas stmt_invs = UpsertAudiobook_inv ReplaceChapters_inv UpsertCover_inv SoftDeleteAudiobook_inv Enqueue_inv
  ClaimNext_inv UpdateAudiobookMetadata_inv MarkCompleted_inv MarkFailed_inv PutHit_inv PutNotFound_inv EvictExpired_inv

interpretation scan_inv: scan_keeps "\<lambda>s. db_inv (sv_db s)"
  by unfold_locales (simp_all add: keeps_schema stmt_invs)

interpretation drain_inv: drain_keeps "\<lambda>s. db_inv (sv_db s)"
  by unfold_locales (simp_all add: keeps_schema stmt_invs)

interpretation search_inv: search_keeps "\<lambda>s. db_inv (sv_db s)"
  by unfold_locales (simp_all add: keeps_schema stmt_invs)

interpretation scan_faults: scan_keeps "\<lambda>s. sv_fault s = F" for F
  by unfold_locales (simp_all add: keeps_faults)

lemma insert_chapters_events: "insert_chapters i cs d = Inr d' \<Longrightarrow> t_scan_event d' = t_scan_event d \<and> t_library_path d' = t_library_path d"
  by (induction i cs d rule: insert_chapters.induct) (auto split: if_splits)

lemma ReplaceChapters_events:
  "ReplaceChapters i cs now d = Inr (u, d') \<Longrightarrow> t_scan_event d' = t_scan_event d \<and> t_library_path d' = t_library_path d"
  by (cases "insert_chapters i cs (d\<lparr>t_chapter := filter (\<lambda>c. ch_AudiobookID c \<noteq> i) (t_chapter d)\<rparr>)")
    (auto simp: ReplaceChapters_def dest!: insert_chapters_events)

interpretation scan_events: scan_keeps "\<lambda>s. t_scan_event (sv_db s) = evs \<and> t_library_path (sv_db s) = lps" for evs lps
  by unfold_locales
    (auto intro!: keeps_tables dest!: ReplaceChapters_events simp: UpsertAudiobook_def UpsertCover_def SoftDeleteAudiobook_def
      Enqueue_def Let_def split: if_splits option.splits sum.splits)

interpretation drain_events: drain_keeps "\<lambda>s. t_scan_event (sv_db s) = evs \<and> t_library_path (sv_db s) = lps" for evs lps
  by unfold_locales
    (auto intro!: keeps_tables simp: ClaimNext_def UpdateAudiobookMetadata_def MarkCompleted_def MarkFailed_def Let_def
      split: if_splits list.splits)

end
