(* ===== verification/Json.thy ===== *)
theory Json
  imports Go_Strings
begin

text \<open>
  JSON values and the part of Go's \<^verbatim>\<open>encoding/json\<close> the program uses: decoding an object into the
  fields of a struct. A value is the parsed document; the text syntax is not modelled. Strings are UTF-8.
\<close>

text \<open>\<open>JInt\<close> is a literal without fraction and exponent, \<open>JDec\<close> any other number.\<close>

datatype json =
    JNull
  | JBool bool
  | JInt int
  | JDec rat
  | JStr string
  | JArr "json list"
  | JObj "(string \<times> json) list"

text \<open>
  The field a key of an object is decoded into: the one with that name, else the first one that agrees
  with it up to case.
\<close>

definition field_for :: "unicode \<Rightarrow> string list \<Rightarrow> string \<Rightarrow> string option" where
  "field_for u names k =
     (if k \<in> set names then Some k else find (\<lambda>f. EqualFold u f k) names)"

text \<open>
  Decoding into a struct: the keys in order, unknown ones passed over, \<^verbatim>\<open>null\<close> without effect. \<open>put\<close>
  decodes one field and is \<open>None\<close> when the value has the wrong type, which makes the whole call fail.
\<close>

fun decode_fields ::
  "unicode \<Rightarrow> string list \<Rightarrow> (string \<Rightarrow> json \<Rightarrow> 'a \<Rightarrow> 'a option) \<Rightarrow> (string \<times> json) list \<Rightarrow> 'a \<Rightarrow> 'a option" where
  "decode_fields u names put [] x = Some x"
| "decode_fields u names put ((k, v) # kvs) x =
     (case field_for u names k of
        None \<Rightarrow> decode_fields u names put kvs x
      | Some f \<Rightarrow>
          (case put f v x of
             None \<Rightarrow> None
           | Some y \<Rightarrow> decode_fields u names put kvs y))"

definition decode_struct ::
  "unicode \<Rightarrow> string list \<Rightarrow> (string \<Rightarrow> json \<Rightarrow> 'a \<Rightarrow> 'a option) \<Rightarrow> json \<Rightarrow> 'a \<Rightarrow> 'a option" where
  "decode_struct u names put v x =
     (case v of
        JObj kvs \<Rightarrow> decode_fields u names put kvs x
      | JNull \<Rightarrow> Some x
      | _ \<Rightarrow> None)"

text \<open>The scalar types; \<open>old\<close> is what the target holds, which \<^verbatim>\<open>null\<close> leaves in place.\<close>

definition decode_string :: "json \<Rightarrow> string \<Rightarrow> string option" where
  "decode_string v old = (case v of JStr s \<Rightarrow> Some s | JNull \<Rightarrow> Some old | _ \<Rightarrow> None)"

definition decode_int :: "json \<Rightarrow> int \<Rightarrow> int option" where
  "decode_int v old =
     (case v of JInt n \<Rightarrow> if is_int64 n then Some n else None | JNull \<Rightarrow> Some old | _ \<Rightarrow> None)"

definition decode_bool :: "json \<Rightarrow> bool \<Rightarrow> bool option" where
  "decode_bool v old = (case v of JBool b \<Rightarrow> Some b | JNull \<Rightarrow> Some old | _ \<Rightarrow> None)"

text \<open>
  A slice of strings. The elements are decoded in place over those the slice has, so a \<^verbatim>\<open>null\<close> keeps
  the old element, or is the empty string beyond them; \<^verbatim>\<open>null\<close> for the whole slice empties it.
\<close>

fun decode_elements :: "string list \<Rightarrow> json list \<Rightarrow> string list option" where
  "decode_elements old [] = Some []"
| "decode_elements old (v # vs) =
     (case decode_string v (case old of [] \<Rightarrow> [] | s # _ \<Rightarrow> s) of
        None \<Rightarrow> None
      | Some s \<Rightarrow> map_option ((#) s) (decode_elements (tl old) vs))"

definition decode_strings :: "json \<Rightarrow> string list \<Rightarrow> string list option" where
  "decode_strings v old =
     (case v of JArr vs \<Rightarrow> decode_elements old vs | JNull \<Rightarrow> Some [] | _ \<Rightarrow> None)"

lemma decode_elements_strings [simp]: "decode_elements old (map JStr ss) = Some ss"
  by (induction ss arbitrary: old) (auto simp: decode_string_def)

lemma decode_scalar_simps [simp]:
  "decode_string (JStr s) old = Some s" "decode_bool (JBool b) old' = Some b"
  "is_int64 n \<Longrightarrow> decode_int (JInt n) i = Some n" "decode_strings (JArr (map JStr ss)) ol = Some ss"
  by (simp_all add: decode_string_def decode_bool_def decode_int_def decode_strings_def)

lemma decode_fields_known [simp]:
  "k \<in> set names \<Longrightarrow> decode_fields u names f ((k, v) # kvs) x =
     (case f k v x of None \<Rightarrow> None | Some y \<Rightarrow> decode_fields u names f kvs y)"
  by (simp add: field_for_def)

end
