(* ===== verification/App_Config.thy ===== *)
theory App_Config
  imports Json Listing
begin

text \<open>
  The plugin's own settings: \<^verbatim>\<open>internal/store/app_config.go\<close> over the one-row table \<^verbatim>\<open>app_config\<close>, whose
  \<^verbatim>\<open>data\<close> column is a JSON document.
\<close>

record AppConfig =
  ac_MetadataSourcesEnabled :: "string list"
  ac_MetadataDefaultRegion :: string
  ac_MetadataCacheTTLDays :: int
  ac_MetadataRateLimitRPS :: int
  ac_ScanInlineEnrich :: bool
  ac_MetadataScanSource :: string
  ac_StandaloneHTTPListen :: string
  ac_StreamSigningSecret :: string

definition zero_config :: AppConfig where
  "zero_config = \<lparr>ac_MetadataSourcesEnabled = [], ac_MetadataDefaultRegion = [], ac_MetadataCacheTTLDays = 0,
     ac_MetadataRateLimitRPS = 0, ac_ScanInlineEnrich = False, ac_MetadataScanSource = [],
     ac_StandaloneHTTPListen = [], ac_StreamSigningSecret = []\<rparr>"

definition DefaultAppConfig :: AppConfig where
  "DefaultAppConfig = \<lparr>ac_MetadataSourcesEnabled = [''audnexus'', ''audimeta'', ''itunes'', ''storytel'',
       ''bookbeat'', ''audioteka'', ''audiobookcovers''],
     ac_MetadataDefaultRegion = ''us'', ac_MetadataCacheTTLDays = 30, ac_MetadataRateLimitRPS = 5,
     ac_ScanInlineEnrich = False, ac_MetadataScanSource = ''audnexus'', ac_StandaloneHTTPListen = [],
     ac_StreamSigningSecret = []\<rparr>"

definition WithDefaults :: "AppConfig \<Rightarrow> AppConfig" where
  "WithDefaults c =
     (let def = DefaultAppConfig in
      c\<lparr>ac_MetadataSourcesEnabled := (if ac_MetadataSourcesEnabled c = []
          then ac_MetadataSourcesEnabled def else ac_MetadataSourcesEnabled c),
        ac_MetadataDefaultRegion := (if ac_MetadataDefaultRegion c = []
          then ac_MetadataDefaultRegion def else ac_MetadataDefaultRegion c),
        ac_MetadataCacheTTLDays := (if ac_MetadataCacheTTLDays c \<le> 0
          then ac_MetadataCacheTTLDays def else ac_MetadataCacheTTLDays c),
        ac_MetadataRateLimitRPS := (if ac_MetadataRateLimitRPS c \<le> 0
          then ac_MetadataRateLimitRPS def else ac_MetadataRateLimitRPS c),
        ac_MetadataScanSource := (if ac_MetadataScanSource c = []
          then ac_MetadataScanSource def else ac_MetadataScanSource c)\<rparr>)"

definition validMetadataSource :: "string \<Rightarrow> bool" where
  "validMetadataSource i \<longleftrightarrow> i \<in> {''audnexus'', ''audimeta'', ''itunes'', ''storytel'', ''bookbeat'',
     ''audioteka'', ''audiobookcovers''}"

definition validScanSource :: "string \<Rightarrow> bool" where
  "validScanSource i \<longleftrightarrow> i \<in> {''audnexus'', ''audimeta'', ''itunes'', ''storytel'', ''bookbeat'',
     ''audioteka''}"

datatype config_error = UnknownSource string | NotScanSource string

definition Validate :: "AppConfig \<Rightarrow> config_error option" where
  "Validate c0 =
     (let c = WithDefaults c0 in
      case find (\<lambda>i. \<not> validMetadataSource i) (ac_MetadataSourcesEnabled c) of
        Some i \<Rightarrow> Some (UnknownSource i)
      | None \<Rightarrow>
          if \<not> validScanSource (ac_MetadataScanSource c) then Some (NotScanSource (ac_MetadataScanSource c))
          else None)"


section \<open>The stored document\<close>

definition config_fields :: "string list" where
  "config_fields = [''metadata_sources_enabled'', ''metadata_default_region'', ''metadata_cache_ttl_days'',
     ''metadata_rate_limit_rps'', ''scan_inline_enrich'', ''metadata_scan_source'',
     ''standalone_http_listen'', ''stream_signing_secret'']"

definition set_config_field :: "string \<Rightarrow> json \<Rightarrow> AppConfig \<Rightarrow> AppConfig option" where
  "set_config_field f v c =
     (if f = ''metadata_sources_enabled'' then
        map_option (\<lambda>x. c\<lparr>ac_MetadataSourcesEnabled := x\<rparr>) (decode_strings v (ac_MetadataSourcesEnabled c))
      else if f = ''metadata_default_region'' then
        map_option (\<lambda>x. c\<lparr>ac_MetadataDefaultRegion := x\<rparr>) (decode_string v (ac_MetadataDefaultRegion c))
      else if f = ''metadata_cache_ttl_days'' then
        map_option (\<lambda>x. c\<lparr>ac_MetadataCacheTTLDays := x\<rparr>) (decode_int v (ac_MetadataCacheTTLDays c))
      else if f = ''metadata_rate_limit_rps'' then
        map_option (\<lambda>x. c\<lparr>ac_MetadataRateLimitRPS := x\<rparr>) (decode_int v (ac_MetadataRateLimitRPS c))
      else if f = ''scan_inline_enrich'' then
        map_option (\<lambda>x. c\<lparr>ac_ScanInlineEnrich := x\<rparr>) (decode_bool v (ac_ScanInlineEnrich c))
      else if f = ''metadata_scan_source'' then
        map_option (\<lambda>x. c\<lparr>ac_MetadataScanSource := x\<rparr>) (decode_string v (ac_MetadataScanSource c))
      else if f = ''standalone_http_listen'' then
        map_option (\<lambda>x. c\<lparr>ac_StandaloneHTTPListen := x\<rparr>) (decode_string v (ac_StandaloneHTTPListen c))
      else
        map_option (\<lambda>x. c\<lparr>ac_StreamSigningSecret := x\<rparr>) (decode_string v (ac_StreamSigningSecret c)))"

definition unmarshal_config :: "unicode \<Rightarrow> json \<Rightarrow> AppConfig \<Rightarrow> AppConfig option" where
  "unmarshal_config u = decode_struct u config_fields set_config_field"

definition marshal_config :: "AppConfig \<Rightarrow> json" where
  "marshal_config c = JObj [
     (''metadata_sources_enabled'', JArr (map JStr (ac_MetadataSourcesEnabled c))),
     (''metadata_default_region'', JStr (ac_MetadataDefaultRegion c)),
     (''metadata_cache_ttl_days'', JInt (ac_MetadataCacheTTLDays c)),
     (''metadata_rate_limit_rps'', JInt (ac_MetadataRateLimitRPS c)),
     (''scan_inline_enrich'', JBool (ac_ScanInlineEnrich c)),
     (''metadata_scan_source'', JStr (ac_MetadataScanSource c)),
     (''standalone_http_listen'', JStr (ac_StandaloneHTTPListen c)),
     (''stream_signing_secret'', JStr (ac_StreamSigningSecret c))]"


section \<open>Operations on the store\<close>

datatype app_config_error = ConfigSql sql_error | BadDocument | Invalid config_error

text \<open>The statement that reads the row; \<open>None\<close> when there is none.\<close>

definition select_config :: "(json option, 'j, json) stmt" where
  "select_config now d = Inr (t_app_config d, d)"

definition write_config :: "AppConfig \<Rightarrow> (unit, 'j, json) stmt" where
  "write_config c now d = Inr ((), d\<lparr>t_app_config := Some (marshal_config c)\<rparr>)"

lemma write_config_inv: "keeps_inv (write_config c)"
  by (rule keeps_invI) (auto simp: write_config_def intro: one_table_inv(5))

definition GetAppConfig ::
  "unicode \<Rightarrow> ('j, json) server_state \<Rightarrow> (app_config_error + AppConfig) \<times> ('j, json) server_state" where
  "GetAppConfig u s =
     (case run_stmt select_config s of
        (Inl e, s1) \<Rightarrow> (Inl (ConfigSql e), s1)
      | (Inr None, s1) \<Rightarrow> (Inr DefaultAppConfig, s1)
      | (Inr (Some raw), s1) \<Rightarrow>
          (case unmarshal_config u raw DefaultAppConfig of
             None \<Rightarrow> (Inl BadDocument, s1)
           | Some c \<Rightarrow> (Inr (WithDefaults c), s1)))"

definition PutAppConfig ::
  "AppConfig \<Rightarrow> ('j, json) server_state \<Rightarrow> (app_config_error + unit) \<times> ('j, json) server_state" where
  "PutAppConfig cfg s =
     (let c = WithDefaults cfg in
      case Validate c of
        Some e \<Rightarrow> (Inl (Invalid e), s)
      | None \<Rightarrow>
          (case run_stmt (write_config c) s of
             (Inl e, s1) \<Rightarrow> (Inl (ConfigSql e), s1)
           | (Inr _, s1) \<Rightarrow> (Inr (), s1)))"

definition ImportLegacyAppConfig ::
  "unicode \<Rightarrow> AppConfig \<Rightarrow> ('j, json) server_state \<Rightarrow> (app_config_error + bool) \<times> ('j, json) server_state" where
  "ImportLegacyAppConfig u cfg s =
     (case GetAppConfig u s of
        (Inl e, s1) \<Rightarrow> (Inl e, s1)
      | (Inr current, s1) \<Rightarrow>
          if current \<noteq> DefaultAppConfig then (Inr False, s1)
          else let legacy = WithDefaults cfg in
               if legacy = current then (Inr False, s1)
               else (case PutAppConfig legacy s1 of
                       (Inl e, s2) \<Rightarrow> (Inl e, s2)
                     | (Inr _, s2) \<Rightarrow> (Inr True, s2)))"


section \<open>Laws\<close>

text \<open>The numbers of a configuration are Go \<^verbatim>\<open>int\<close>s.\<close>

definition config_ints :: "AppConfig \<Rightarrow> bool" where
  "config_ints c \<longleftrightarrow> is_int64 (ac_MetadataCacheTTLDays c) \<and> is_int64 (ac_MetadataRateLimitRPS c)"

lemma WithDefaults_idem [simp]: "WithDefaults (WithDefaults c) = WithDefaults c"
  by (simp add: WithDefaults_def DefaultAppConfig_def Let_def)

lemma Validate_WithDefaults [simp]: "Validate (WithDefaults c) = Validate c"
  by (simp add: Validate_def)

lemma WithDefaults_default [simp]: "WithDefaults DefaultAppConfig = DefaultAppConfig"
  by (simp add: WithDefaults_def DefaultAppConfig_def)

lemma WithDefaults_ints: "config_ints c \<Longrightarrow> config_ints (WithDefaults c)"
  by (auto simp: config_ints_def WithDefaults_def DefaultAppConfig_def Let_def is_int64_def)

lemma set_config_simps:
  "set_config_field ''metadata_sources_enabled'' v c =
     map_option (\<lambda>x. c\<lparr>ac_MetadataSourcesEnabled := x\<rparr>) (decode_strings v (ac_MetadataSourcesEnabled c))"
  "set_config_field ''metadata_default_region'' v c =
     map_option (\<lambda>x. c\<lparr>ac_MetadataDefaultRegion := x\<rparr>) (decode_string v (ac_MetadataDefaultRegion c))"
  "set_config_field ''metadata_cache_ttl_days'' v c =
     map_option (\<lambda>x. c\<lparr>ac_MetadataCacheTTLDays := x\<rparr>) (decode_int v (ac_MetadataCacheTTLDays c))"
  "set_config_field ''metadata_rate_limit_rps'' v c =
     map_option (\<lambda>x. c\<lparr>ac_MetadataRateLimitRPS := x\<rparr>) (decode_int v (ac_MetadataRateLimitRPS c))"
  "set_config_field ''scan_inline_enrich'' v c =
     map_option (\<lambda>x. c\<lparr>ac_ScanInlineEnrich := x\<rparr>) (decode_bool v (ac_ScanInlineEnrich c))"
  "set_config_field ''metadata_scan_source'' v c =
     map_option (\<lambda>x. c\<lparr>ac_MetadataScanSource := x\<rparr>) (decode_string v (ac_MetadataScanSource c))"
  "set_config_field ''standalone_http_listen'' v c =
     map_option (\<lambda>x. c\<lparr>ac_StandaloneHTTPListen := x\<rparr>) (decode_string v (ac_StandaloneHTTPListen c))"
  "set_config_field ''stream_signing_secret'' v c =
     map_option (\<lambda>x. c\<lparr>ac_StreamSigningSecret := x\<rparr>) (decode_string v (ac_StreamSigningSecret c))"
  by (simp_all add: set_config_field_def)

lemma config_field_names:
  "''metadata_sources_enabled'' \<in> set config_fields" "''metadata_default_region'' \<in> set config_fields"
  "''metadata_cache_ttl_days'' \<in> set config_fields" "''metadata_rate_limit_rps'' \<in> set config_fields"
  "''scan_inline_enrich'' \<in> set config_fields" "''metadata_scan_source'' \<in> set config_fields"
  "''standalone_http_listen'' \<in> set config_fields" "''stream_signing_secret'' \<in> set config_fields"
  by (simp_all add: config_fields_def)

lemma unmarshal_marshal: "config_ints c \<Longrightarrow> unmarshal_config u (marshal_config c) c0 = Some c"
  by (simp add: unmarshal_config_def marshal_config_def decode_struct_def config_field_names
      set_config_simps config_ints_def del: decode_fields.simps(2))

lemma Get_stored:
  assumes "\<not> sv_fault s (sv_calls s)" and "t_app_config (sv_db s) = Some (marshal_config c)" and "config_ints c"
  shows "GetAppConfig u s = (Inr (WithDefaults c), s\<lparr>sv_calls := Suc (sv_calls s)\<rparr>)"
  using assms by (simp add: GetAppConfig_def run_stmt_def select_config_def unmarshal_marshal)

lemma Put_ok:
  assumes "\<not> sv_fault s (sv_calls s)" and "Validate c = None"
  shows "PutAppConfig c s = (Inr (), s\<lparr>sv_calls := Suc (sv_calls s),
    sv_db := (sv_db s)\<lparr>t_app_config := Some (marshal_config (WithDefaults c))\<rparr>\<rparr>)"
  using assms by (simp add: PutAppConfig_def run_stmt_def write_config_def Let_def)

text \<open>What a stored configuration satisfies.\<close>

definition config_ok :: "AppConfig \<Rightarrow> bool" where
  "config_ok c \<longleftrightarrow> ac_MetadataSourcesEnabled c \<noteq> [] \<and> list_all validMetadataSource (ac_MetadataSourcesEnabled c) \<and>
     validScanSource (ac_MetadataScanSource c) \<and> ac_MetadataDefaultRegion c \<noteq> [] \<and>
     0 < ac_MetadataCacheTTLDays c \<and> 0 < ac_MetadataRateLimitRPS c"

lemma Validate_ok: "Validate c = None \<longleftrightarrow> config_ok (WithDefaults c)"
proof -
  have "ac_MetadataSourcesEnabled (WithDefaults c) \<noteq> []" "ac_MetadataDefaultRegion (WithDefaults c) \<noteq> []"
    "0 < ac_MetadataCacheTTLDays (WithDefaults c)" "0 < ac_MetadataRateLimitRPS (WithDefaults c)"
    by (simp_all add: WithDefaults_def DefaultAppConfig_def Let_def)
  moreover have "Validate c = None \<longleftrightarrow>
      find (\<lambda>i. \<not> validMetadataSource i) (ac_MetadataSourcesEnabled (WithDefaults c)) = None \<and>
      validScanSource (ac_MetadataScanSource (WithDefaults c))"
    by (simp add: Validate_def Let_def split: option.split del: find_None find_None')
  ultimately show ?thesis
    by (simp add: config_ok_def list_all_iff)
qed



section \<open>Properties\<close>

text \<open>
  C19. Settings read back as they were saved: after a configuration was accepted, reading it gives the
  configuration with its defaults filled in; it names only known sources, a source that can scan, and
  positive limits, and a configuration that does not is refused and changes nothing.
\<close>

theorem config_roundtrip:
  assumes "\<forall>n. \<not> sv_fault s n" and "config_ints c" and "PutAppConfig c s = (r, s')"
  shows "if config_ok (WithDefaults c)
    then r = Inr () \<and> fst (GetAppConfig u s') = Inr (WithDefaults c)
    else (\<exists>e. r = Inl (Invalid e)) \<and> s' = s"
proof (cases "Validate c")
  case None
  then have "s' = s\<lparr>sv_calls := Suc (sv_calls s), sv_db := (sv_db s)\<lparr>t_app_config := Some (marshal_config (WithDefaults c))\<rparr>\<rparr>"
    and "r = Inr ()" and "config_ok (WithDefaults c)"
    using assms Put_ok [of s c] Validate_ok [of c] by simp_all
  then show ?thesis
    using assms(1,2) Get_stored [of s' "WithDefaults c" u] WithDefaults_ints [of c] by simp
next
  case (Some e)
  with assms(3) Validate_ok [of c] show ?thesis
    by (auto simp: PutAppConfig_def Let_def)
qed

definition quiet_server :: "('j, 'c) db \<Rightarrow> ('j, 'c) server_state" where
  "quiet_server d = \<lparr>sv_db = d, sv_calls = 0, sv_clock = (\<lambda>n. 0), sv_fault = (\<lambda>n. False)\<rparr>"

theorem config_roundtrip_witness:
  "\<forall>u. \<exists>s' :: (unit, json) server_state.
     PutAppConfig (zero_config\<lparr>ac_MetadataDefaultRegion := ''gb''\<rparr>) (quiet_server empty_db) = (Inr (), s') \<and>
     fst (GetAppConfig u s') = Inr (DefaultAppConfig\<lparr>ac_MetadataDefaultRegion := ''gb''\<rparr>)"
proof
  fix u
  let ?c = "zero_config\<lparr>ac_MetadataDefaultRegion := ''gb''\<rparr>"
  have c: "WithDefaults ?c = DefaultAppConfig\<lparr>ac_MetadataDefaultRegion := ''gb''\<rparr>"
    by (simp add: WithDefaults_def zero_config_def DefaultAppConfig_def)
  have "config_ok (WithDefaults ?c)"
    by (simp add: c config_ok_def DefaultAppConfig_def validMetadataSource_def validScanSource_def)
  moreover have "config_ints ?c"
    by (simp add: config_ints_def zero_config_def is_int64_def)
  moreover obtain r s' where "PutAppConfig ?c (quiet_server empty_db :: (unit, json) server_state) = (r, s')"
    by fastforce
  ultimately show "\<exists>s' :: (unit, json) server_state. PutAppConfig ?c (quiet_server empty_db) = (Inr (), s') \<and>
      fst (GetAppConfig u s') = Inr (DefaultAppConfig\<lparr>ac_MetadataDefaultRegion := ''gb''\<rparr>)"
    using config_roundtrip [of "quiet_server empty_db :: (unit, json) server_state" ?c r s' u]
    by (simp add: c quiet_server_def)
qed

text \<open>
  C20. The import of the host's settings happens at most once: it writes only over an untouched
  configuration, and after an import no later one, of any settings, changes what is stored.
\<close>

theorem legacy_import_once:
  assumes "\<forall>n. \<not> sv_fault s n" and "config_ints c" and "ImportLegacyAppConfig u c s = (Inr True, s')"
  shows "fst (GetAppConfig u s) = Inr DefaultAppConfig \<and> fst (GetAppConfig u s') = Inr (WithDefaults c) \<and>
    (\<forall>c'. \<exists>s''. ImportLegacyAppConfig u c' s' = (Inr False, s'') \<and> sv_db s'' = sv_db s')"
proof -
  obtain s1 where get: "GetAppConfig u s = (Inr DefaultAppConfig, s1)" and ne: "WithDefaults c \<noteq> DefaultAppConfig"
    and put: "PutAppConfig (WithDefaults c) s1 = (Inr (), s')"
    using assms(3)
    by (auto simp: ImportLegacyAppConfig_def Let_def split: sum.splits prod.splits if_splits)
  have s1: "\<forall>n. \<not> sv_fault s1 n"
    using get assms(1) by (auto simp: GetAppConfig_def split: sum.splits prod.splits option.splits dest!: run_stmt_eqD)
  have val: "Validate c = None"
    using put by (cases "Validate c") (auto simp: PutAppConfig_def Let_def)
  have s': "t_app_config (sv_db s') = Some (marshal_config (WithDefaults c))" "\<forall>n. \<not> sv_fault s' n"
    using put Put_ok [of s1 "WithDefaults c"] s1 val by auto
  have g': "GetAppConfig u s' = (Inr (WithDefaults c), s'\<lparr>sv_calls := Suc (sv_calls s')\<rparr>)"
    using Get_stored [OF _ s'(1)] s'(2) WithDefaults_ints [OF assms(2)] by simp
  then have "ImportLegacyAppConfig u c' s' = (Inr False, s'\<lparr>sv_calls := Suc (sv_calls s')\<rparr>)" for c'
    using ne by (simp add: ImportLegacyAppConfig_def)
  with get g' show ?thesis by auto
qed

theorem legacy_import_once_witness:
  "\<forall>u. \<exists>s' :: (unit, json) server_state.
     ImportLegacyAppConfig u (DefaultAppConfig\<lparr>ac_MetadataDefaultRegion := ''gb''\<rparr>) (quiet_server empty_db) = (Inr True, s') \<and>
     (\<forall>c'. \<exists>s''. ImportLegacyAppConfig u c' s' = (Inr False, s'') \<and> sv_db s'' = sv_db s')"
proof
  fix u
  let ?c = "DefaultAppConfig\<lparr>ac_MetadataDefaultRegion := ''gb''\<rparr>" and ?s = "quiet_server empty_db :: (unit, json) server_state"
  have c: "WithDefaults ?c = ?c" "?c \<noteq> DefaultAppConfig"
    by (simp_all add: WithDefaults_def DefaultAppConfig_def)
  have "config_ok ?c"
    by (simp add: config_ok_def DefaultAppConfig_def validMetadataSource_def validScanSource_def)
  then have "Validate ?c = None" by (simp add: Validate_ok c)
  moreover have "GetAppConfig u ?s = (Inr DefaultAppConfig, ?s\<lparr>sv_calls := 1\<rparr>)"
    by (simp add: GetAppConfig_def run_stmt_def select_config_def quiet_server_def empty_db_def)
  ultimately obtain s' where s': "ImportLegacyAppConfig u ?c ?s = (Inr True, s')"
    using Put_ok [of "?s\<lparr>sv_calls := 1\<rparr>" ?c] c by (simp add: ImportLegacyAppConfig_def Let_def quiet_server_def)
  moreover have "config_ints ?c" by (simp add: config_ints_def DefaultAppConfig_def is_int64_def)
  ultimately show "\<exists>s' :: (unit, json) server_state. ImportLegacyAppConfig u ?c (quiet_server empty_db) = (Inr True, s') \<and>
      (\<forall>c'. \<exists>s''. ImportLegacyAppConfig u c' s' = (Inr False, s'') \<and> sv_db s'' = sv_db s')"
    using legacy_import_once [of ?s ?c u s'] by (simp add: quiet_server_def)
qed

end
