(* ===== verification/Runtime_Config.thy ===== *)
theory Runtime_Config
  imports App_Config Encodings
begin

text \<open>
  The host's configuration call, \<^verbatim>\<open>internal/runtime/runtime.go\<close>: reading the entries into a \<open>Config\<close>,
  checking it, applying it through the callback of \<^verbatim>\<open>main.go\<close> and keeping it for \<open>Snapshot\<close>.
\<close>


section \<open>Reading the entries\<close>

text \<open>
  A protobuf \<^verbatim>\<open>Value\<close> as \<^verbatim>\<open>AsMap\<close> yields it. A number is a \<^verbatim>\<open>float64\<close>: its value, or \<open>None\<close> when it
  is infinite or not a number. The conversion of a number outside the range of \<^verbatim>\<open>int\<close> is left to the
  implementation by Go, so it is the argument \<open>wide\<close>.
\<close>

datatype pvalue =
    VNil
  | VNumber "rat option"
  | VString string
  | VBool bool
  | VList "pvalue list"
  | VStruct "(string \<times> pvalue) list"

record Config =
  cf_DatabaseURL :: string
  cf_LibraryPaths :: "string list"
  cf_StandaloneHTTPListen :: string
  cf_StreamSigningSecret :: string
  cf_MetadataSourcesEnabled :: "string list"
  cf_MetadataDefaultRegion :: string
  cf_MetadataCacheTTLDays :: int
  cf_MetadataRateLimitRPS :: int
  cf_ScanInlineEnrich :: bool
  cf_MetadataScanSource :: string

definition empty_Config :: Config where
  "empty_Config = \<lparr>cf_DatabaseURL = [], cf_LibraryPaths = [], cf_StandaloneHTTPListen = [], cf_StreamSigningSecret = [],
     cf_MetadataSourcesEnabled = [], cf_MetadataDefaultRegion = [], cf_MetadataCacheTTLDays = 0,
     cf_MetadataRateLimitRPS = 0, cf_ScanInlineEnrich = False, cf_MetadataScanSource = []\<rparr>"

definition stringFrom :: "pvalue \<Rightarrow> string" where
  "stringFrom v = (case v of VString s \<Rightarrow> s | _ \<Rightarrow> [])"

definition stringSliceFrom :: "pvalue \<Rightarrow> string list" where
  "stringSliceFrom v =
     (case v of
        VList vs \<Rightarrow> concat (map (\<lambda>x. case x of VString s \<Rightarrow> if s \<noteq> [] then [s] else [] | _ \<Rightarrow> []) vs)
      | _ \<Rightarrow> [])"

definition go_trunc :: "rat \<Rightarrow> int" where
  "go_trunc q = (if q < 0 then \<lceil>q\<rceil> else \<lfloor>q\<rfloor>)"

definition intFrom :: "(rat option \<Rightarrow> int) \<Rightarrow> pvalue \<Rightarrow> int" where
  "intFrom wide v =
     (case v of
        VNumber (Some q) \<Rightarrow> if is_int64 (go_trunc q) then go_trunc q else wide (Some q)
      | VNumber None \<Rightarrow> wide None
      | _ \<Rightarrow> 0)"

definition boolFrom :: "pvalue \<Rightarrow> bool" where
  "boolFrom v = (case v of VBool b \<Rightarrow> b | _ \<Rightarrow> False)"

text \<open>One entry: its key and its struct, \<open>None\<close> when it has none.\<close>

type_synonym config_entry = "string \<times> (string \<times> pvalue) list option"

definition set_entry :: "(rat option \<Rightarrow> int) \<Rightarrow> config_entry \<Rightarrow> Config \<Rightarrow> Config" where
  "set_entry wide e cfg =
     (case snd e of
        None \<Rightarrow> cfg
      | Some m \<Rightarrow>
          (let val = (case map_of m ''value'' of Some v \<Rightarrow> v | None \<Rightarrow> VNil);
               key = fst e
           in if key = ''database_url'' then cfg\<lparr>cf_DatabaseURL := stringFrom val\<rparr>
              else if key = ''library_paths'' then cfg\<lparr>cf_LibraryPaths := stringSliceFrom val\<rparr>
              else if key = ''standalone_http_listen'' then cfg\<lparr>cf_StandaloneHTTPListen := stringFrom val\<rparr>
              else if key = ''stream_signing_secret'' then cfg\<lparr>cf_StreamSigningSecret := stringFrom val\<rparr>
              else if key = ''metadata_sources_enabled'' then cfg\<lparr>cf_MetadataSourcesEnabled := stringSliceFrom val\<rparr>
              else if key = ''metadata_default_region'' then cfg\<lparr>cf_MetadataDefaultRegion := stringFrom val\<rparr>
              else if key = ''metadata_cache_ttl_days'' then cfg\<lparr>cf_MetadataCacheTTLDays := intFrom wide val\<rparr>
              else if key = ''metadata_rate_limit_rps'' then cfg\<lparr>cf_MetadataRateLimitRPS := intFrom wide val\<rparr>
              else if key = ''scan_inline_enrich'' then cfg\<lparr>cf_ScanInlineEnrich := boolFrom val\<rparr>
              else if key = ''metadata_scan_source'' then cfg\<lparr>cf_MetadataScanSource := stringFrom val\<rparr>
              else cfg))"

definition config_from :: "(rat option \<Rightarrow> int) \<Rightarrow> config_entry list \<Rightarrow> Config" where
  "config_from wide req = fold (set_entry wide) req empty_Config"


section \<open>Checking and applying\<close>

datatype secret_error = NotBase64 | Not32Bytes

definition DecodeStreamSigningSecret :: "string \<Rightarrow> secret_error + bytes" where
  "DecodeStreamSigningSecret raw =
     (case Std_DecodeString raw of
        None \<Rightarrow> Inl NotBase64
      | Some secret \<Rightarrow> if length secret \<noteq> 32 then Inl Not32Bytes else Inr secret)"

datatype 'e configure_error =
    DatabaseURLRequired
  | SecretRequired
  | BadSecret secret_error
  | BadScanSource string
  | CallbackFailed 'e

definition config_defaults :: "Config \<Rightarrow> Config" where
  "config_defaults cfg =
     (let cfg = (if cf_MetadataDefaultRegion cfg = [] then cfg\<lparr>cf_MetadataDefaultRegion := ''us''\<rparr> else cfg);
          cfg = (if cf_MetadataCacheTTLDays cfg = 0 then cfg\<lparr>cf_MetadataCacheTTLDays := 30\<rparr> else cfg);
          cfg = (if cf_MetadataRateLimitRPS cfg = 0 then cfg\<lparr>cf_MetadataRateLimitRPS := 5\<rparr> else cfg);
          cfg = (if cf_MetadataScanSource cfg = [] then cfg\<lparr>cf_MetadataScanSource := ''audnexus''\<rparr> else cfg)
      in if cf_MetadataSourcesEnabled cfg = []
         then cfg\<lparr>cf_MetadataSourcesEnabled := [''audnexus'', ''audimeta'', ''itunes'', ''storytel'', ''bookbeat'',
                ''audioteka'', ''audiobookcovers'']\<rparr>
         else cfg)"

definition valid_scan_sources :: "string list" where
  "valid_scan_sources = [''audnexus'', ''audimeta'', ''itunes'', ''storytel'', ''bookbeat'', ''audioteka'']"

text \<open>
  The server's state is the kept configuration, next to the state \<open>s\<close> the callback works on. \<open>None\<close> is
  a nil error.
\<close>

definition Configure ::
  "(rat option \<Rightarrow> int) \<Rightarrow> (Config \<Rightarrow> 's \<Rightarrow> 'e option \<times> 's) option \<Rightarrow> config_entry list \<Rightarrow> Config \<times> 's \<Rightarrow>
   'e configure_error option \<times> Config \<times> 's" where
  "Configure wide onCfg req st =
     (let cfg = config_from wide req in
      if cf_DatabaseURL cfg = [] then (Some DatabaseURLRequired, st)
      else if cf_StandaloneHTTPListen cfg \<noteq> [] \<and> cf_StreamSigningSecret cfg = [] then (Some SecretRequired, st)
      else case (if cf_StreamSigningSecret cfg \<noteq> [] then map_sum id Some (DecodeStreamSigningSecret (cf_StreamSigningSecret cfg))
                 else Inr None) of
        Inl e \<Rightarrow> (Some (BadSecret e), st)
      | Inr _ \<Rightarrow>
          (let cfg = config_defaults cfg in
           if cf_MetadataScanSource cfg \<notin> set valid_scan_sources then (Some (BadScanSource (cf_MetadataScanSource cfg)), st)
           else case onCfg of
             None \<Rightarrow> (None, cfg, snd st)
           | Some apply_cfg \<Rightarrow>
               (case apply_cfg cfg (snd st) of
                  (Some e, s') \<Rightarrow> (Some (CallbackFailed e), fst st, s')
                | (None, s') \<Rightarrow> (None, cfg, s'))))"

definition Snapshot :: "Config \<times> 's \<Rightarrow> Config" where
  "Snapshot st = fst st"


section \<open>What a configuration that is kept satisfies\<close>

definition usable :: "Config \<Rightarrow> bool" where
  "usable cfg \<longleftrightarrow> cf_DatabaseURL cfg \<noteq> [] \<and>
     (cf_StandaloneHTTPListen cfg \<noteq> [] \<longrightarrow> cf_StreamSigningSecret cfg \<noteq> []) \<and>
     (cf_StreamSigningSecret cfg \<noteq> [] \<longrightarrow>
        (\<exists>k. DecodeStreamSigningSecret (cf_StreamSigningSecret cfg) = Inr k \<and> length k = 32)) \<and>
     cf_MetadataDefaultRegion cfg \<noteq> [] \<and> cf_MetadataCacheTTLDays cfg \<noteq> 0 \<and> cf_MetadataRateLimitRPS cfg \<noteq> 0 \<and>
     cf_MetadataSourcesEnabled cfg \<noteq> [] \<and> validScanSource (cf_MetadataScanSource cfg)"

lemma decoded_secret: "DecodeStreamSigningSecret raw = Inr k \<Longrightarrow> length k = 32"
  by (auto simp: DecodeStreamSigningSecret_def split: option.splits if_splits)

lemma valid_scan_sources_iff: "i \<in> set valid_scan_sources \<longleftrightarrow> validScanSource i"
  by (auto simp: valid_scan_sources_def validScanSource_def)

lemma config_defaults_frame [simp]:
  "cf_DatabaseURL (config_defaults cfg) = cf_DatabaseURL cfg"
  "cf_StandaloneHTTPListen (config_defaults cfg) = cf_StandaloneHTTPListen cfg"
  "cf_StreamSigningSecret (config_defaults cfg) = cf_StreamSigningSecret cfg"
  "cf_LibraryPaths (config_defaults cfg) = cf_LibraryPaths cfg"
  by (simp_all add: config_defaults_def Let_def)

lemma config_defaults_set [simp]:
  "cf_MetadataDefaultRegion (config_defaults cfg) \<noteq> []" "cf_MetadataCacheTTLDays (config_defaults cfg) \<noteq> 0"
  "cf_MetadataRateLimitRPS (config_defaults cfg) \<noteq> 0" "cf_MetadataSourcesEnabled (config_defaults cfg) \<noteq> []"
  by (simp_all add: config_defaults_def Let_def)

text \<open>Every outcome of the call.\<close>

lemma Configure_cases:
  assumes "Configure wide onCfg req st = (r, st')"
  obtains (refused) e where "r = Some e" and "\<forall>e'. e \<noteq> CallbackFailed e'" and "st' = st"
  | (failed) f e s' where "onCfg = Some f" and "f (config_defaults (config_from wide req)) (snd st) = (Some e, s')"
      and "r = Some (CallbackFailed e)" and "st' = (fst st, s')" and "usable (config_defaults (config_from wide req))"
  | (applied) "r = None" and "fst st' = config_defaults (config_from wide req)" and "usable (config_defaults (config_from wide req))"
      and "case onCfg of None \<Rightarrow> snd st' = snd st | Some f \<Rightarrow> f (fst st') (snd st) = (None, snd st')"
proof (cases "cf_DatabaseURL (config_from wide req) = [] \<or>
    (cf_StandaloneHTTPListen (config_from wide req) \<noteq> [] \<and> cf_StreamSigningSecret (config_from wide req) = []) \<or>
    (cf_StreamSigningSecret (config_from wide req) \<noteq> [] \<and>
       (\<exists>e. DecodeStreamSigningSecret (cf_StreamSigningSecret (config_from wide req)) = Inl e)) \<or>
    cf_MetadataScanSource (config_defaults (config_from wide req)) \<notin> set valid_scan_sources")
  case True
  with assms have "(\<exists>e. r = Some e \<and> (\<forall>e'. e \<noteq> CallbackFailed e')) \<and> st' = st"
    by (auto simp: Configure_def Let_def split: if_splits sum.splits)
  with refused show thesis by blast
next
  case False
  then have u: "usable (config_defaults (config_from wide req))"
    by (cases "DecodeStreamSigningSecret (cf_StreamSigningSecret (config_from wide req))")
      (auto simp: usable_def valid_scan_sources_iff dest: decoded_secret)
  have c: "Configure wide onCfg req st = (case onCfg of
             None \<Rightarrow> (None, config_defaults (config_from wide req), snd st)
           | Some apply_cfg \<Rightarrow>
               (case apply_cfg (config_defaults (config_from wide req)) (snd st) of
                  (Some e, s') \<Rightarrow> (Some (CallbackFailed e), fst st, s')
                | (None, s') \<Rightarrow> (None, config_defaults (config_from wide req), s')))"
    using False by (cases "DecodeStreamSigningSecret (cf_StreamSigningSecret (config_from wide req))")
      (auto simp: Configure_def Let_def)
  show thesis
    using assms u failed applied unfolding c by (auto split: option.splits prod.splits)
qed

text \<open>
  C17. A configuration call either fails, leaving the kept configuration as it was, or keeps a usable
  one: a database address, a 32-byte secret whenever the standalone listener is on, every default filled
  in, and a source that can be used for scans.
\<close>

theorem configure_keeps_usable:
  assumes "Configure wide onCfg req st = (r, st')"
  shows "if r = None then usable (Snapshot st') else Snapshot st' = Snapshot st"
  using assms by (cases rule: Configure_cases) (auto simp: Snapshot_def)

theorem configure_keeps_usable_witness:
  "usable (Snapshot (snd (Configure (\<lambda>q. 0) (None :: (Config \<Rightarrow> unit \<Rightarrow> unit option \<times> unit) option)
     [(''database_url'', Some [(''value'', VString ''pg'')]), (''metadata_cache_ttl_days'', Some [(''value'', VNumber (Some 7))])]
     (empty_Config, ()))))"
proof -
  let ?req = "[(''database_url'', Some [(''value'', VString ''pg'')]), (''metadata_cache_ttl_days'', Some [(''value'', VNumber (Some 7))])]"
  let ?call = "Configure (\<lambda>q. 0) (None :: (Config \<Rightarrow> unit \<Rightarrow> unit option \<times> unit) option) ?req (empty_Config, ())"
  have "fst ?call = None"
    by (simp add: Configure_def config_from_def set_entry_def stringFrom_def empty_Config_def config_defaults_def
        valid_scan_sources_def Let_def)
  then show ?thesis
    using configure_keeps_usable [of "\<lambda>q. 0" "None :: (Config \<Rightarrow> unit \<Rightarrow> unit option \<times> unit) option" ?req "(empty_Config, ())",
        OF prod.collapse [symmetric]]
    by simp
qed

end
