(* ===== verification/Stream_Auth.thy ===== *)
theory Stream_Auth
  imports Json Floats
begin

text \<open>
  Presigned stream URLs: \<^verbatim>\<open>internal/auth/streamtoken.go\<close>. The JWT library (\<^verbatim>\<open>golang-jwt/jwt/v5\<close>) is a
  parameter: a parser that is handed the token, the key function and the expected audience. What its
  documentation promises is the predicate \<open>jwt_parser_sound\<close>.
\<close>

record jwt_token =
  jt_Valid :: bool
  jt_Claims :: "(string \<times> json) list option" \<comment> \<open>\<^verbatim>\<open>jwt.MapClaims\<close>, or another type of claims\<close>

text \<open>
  \<^verbatim>\<open>jwt.Parse\<close> at a time: the key function maps the algorithm named in the token's header to the key, or
  refuses it.
\<close>

type_synonym jwt_parser = "time \<Rightarrow> string \<Rightarrow> (string \<Rightarrow> string + bytes) \<Rightarrow> string \<Rightarrow> string + jwt_token"

definition expectedAudience :: string where
  "expectedAudience = ''audiobook_backend''"

record StreamClaims =
  cl_UserID :: string
  cl_BookID :: string
  cl_FileIdx :: int

datatype token_error =
    EmptySecret
  | BookRequired
  | NegativeFileIdx
  | VerifyFailed string
  | TokenInvalid
  | NotMapClaims
  | BookMismatch
  | FileIdxMismatch
  | SubRequired

definition stream_keyfunc :: "bytes \<Rightarrow> string \<Rightarrow> string + bytes" where
  "stream_keyfunc secret alg = (if alg \<noteq> ''HS256'' then Inl ''unexpected signing method'' else Inr secret)"

text \<open>Type assertions on a claim: \<^verbatim>\<open>.(string)\<close> and \<^verbatim>\<open>.(float64)\<close>; numbers are decoded as \<^verbatim>\<open>float64\<close>.\<close>

definition claim_string :: "(string \<times> json) list \<Rightarrow> string \<Rightarrow> string" where
  "claim_string claims k = (case map_of claims k of Some (JStr s) \<Rightarrow> s | _ \<Rightarrow> [])"

definition claim_float :: "(string \<times> json) list \<Rightarrow> string \<Rightarrow> rat option" where
  "claim_float claims k =
     (case map_of claims k of Some (JInt n) \<Rightarrow> Some (sfl (of_int n)) | Some (JDec q) \<Rightarrow> Some (sfl q) | _ \<Rightarrow> None)"

definition VerifyStreamToken ::
  "jwt_parser \<Rightarrow> time \<Rightarrow> bytes \<Rightarrow> string \<Rightarrow> string \<Rightarrow> int \<Rightarrow> token_error + StreamClaims" where
  "VerifyStreamToken parse now secret token expectedBookID expectedFileIdx =
     (if secret = [] then Inl EmptySecret
      else if expectedBookID = [] then Inl BookRequired
      else if expectedFileIdx < 0 then Inl NegativeFileIdx
      else case parse now token (stream_keyfunc secret) expectedAudience of
        Inl e \<Rightarrow> Inl (VerifyFailed e)
      | Inr parsed \<Rightarrow>
          if \<not> jt_Valid parsed then Inl TokenInvalid
          else (case jt_Claims parsed of
            None \<Rightarrow> Inl NotMapClaims
          | Some claims \<Rightarrow>
              let bookID = claim_string claims ''book_id'';
                  sub = claim_string claims ''sub''
              in if bookID \<noteq> expectedBookID then Inl BookMismatch
                 else if claim_float claims ''file_idx'' \<noteq> Some (sfl (of_int expectedFileIdx)) then Inl FileIdxMismatch
                 else if sub = [] then Inl SubRequired
                 else Inr \<lparr>cl_UserID = sub, cl_BookID = bookID, cl_FileIdx = expectedFileIdx\<rparr>))"


section \<open>What the library promises\<close>

text \<open>
  A token \<^verbatim>\<open>jwt.Parse\<close> accepts with \<^verbatim>\<open>WithAudience\<close> and \<^verbatim>\<open>WithExpirationRequired\<close> carries a signature
  that checks under the algorithm of its header and the key the key function gave for it, the audience
  among its audiences, and an expiry in the future. \<open>signed alg key token claims\<close> says that \<open>token\<close> is
  the encoding of \<open>claims\<close> signed that way.
\<close>

definition has_audience :: "string \<Rightarrow> json option \<Rightarrow> bool" where
  "has_audience aud v = (case v of Some (JStr s) \<Rightarrow> s = aud | Some (JArr vs) \<Rightarrow> JStr aud \<in> set vs | _ \<Rightarrow> False)"

definition expires_after :: "time \<Rightarrow> json option \<Rightarrow> bool" where
  "expires_after now v =
     (case v of Some (JInt t) \<Rightarrow> now < t * 1000000000 | Some (JDec q) \<Rightarrow> of_int now < q * 1000000000 | _ \<Rightarrow> False)"

definition jwt_parser_sound ::
  "(string \<Rightarrow> bytes \<Rightarrow> string \<Rightarrow> (string \<times> json) list \<Rightarrow> bool) \<Rightarrow> jwt_parser \<Rightarrow> bool" where
  "jwt_parser_sound signed parse \<longleftrightarrow>
     (\<forall>now token keyfunc aud t claims.
        parse now token keyfunc aud = Inr t \<longrightarrow> jt_Valid t \<longrightarrow> jt_Claims t = Some claims \<longrightarrow>
        (\<exists>alg key. keyfunc alg = Inr key \<and> signed alg key token claims) \<and>
        has_audience aud (map_of claims ''aud'') \<and> expires_after now (map_of claims ''exp''))"


lemma accepted_token:
  assumes "jwt_parser_sound signed parse"
    and "VerifyStreamToken parse now secret token book idx = Inr c"
  shows "\<exists>claims. signed ''HS256'' secret token claims \<and> secret \<noteq> [] \<and>
    has_audience ''audiobook_backend'' (map_of claims ''aud'') \<and> expires_after now (map_of claims ''exp'') \<and>
    map_of claims ''book_id'' = Some (JStr book) \<and> map_of claims ''sub'' = Some (JStr (cl_UserID c)) \<and>
    cl_UserID c \<noteq> [] \<and> claim_float claims ''file_idx'' = Some (sfl (of_int idx)) \<and> 0 \<le> idx"
proof -
  from assms(2) obtain t claims
    where parse: "parse now token (stream_keyfunc secret) expectedAudience = Inr t" "jt_Valid t" "jt_Claims t = Some claims"
      and c: "secret \<noteq> []" "book \<noteq> []" "0 \<le> idx" "claim_string claims ''book_id'' = book"
        "claim_float claims ''file_idx'' = Some (sfl (of_int idx))" "cl_UserID c = claim_string claims ''sub''" "cl_UserID c \<noteq> []"
    by (auto simp: VerifyStreamToken_def Let_def split: if_splits sum.splits option.splits)
  have str: "map_of claims k = Some (JStr (claim_string claims k))" if "claim_string claims k \<noteq> []" for k
    using that by (auto simp: claim_string_def split: option.splits json.splits)
  from assms(1) parse obtain alg key where "stream_keyfunc secret alg = Inr key" "signed alg key token claims"
      "has_audience expectedAudience (map_of claims ''aud'')" "expires_after now (map_of claims ''exp'')"
    unfolding jwt_parser_sound_def by metis
  moreover from this(1) have "alg = ''HS256''" "key = secret"
    by (auto simp: stream_keyfunc_def split: if_splits)
  moreover have "map_of claims ''book_id'' = Some (JStr book)" "map_of claims ''sub'' = Some (JStr (cl_UserID c))"
    using c str by metis+
  ultimately show ?thesis
    using c by (auto simp: expectedAudience_def)
qed

section \<open>Properties\<close>

text \<open>
  A stream token that is accepted was signed with HS256 under the shared secret, for this audience,
  has not expired, and names this book, this file and a user. No other algorithm is ever accepted, and
  an empty secret accepts nothing.
\<close>

theorem stream_token_sound:
  assumes "jwt_parser_sound signed parse"
    and "VerifyStreamToken parse now secret token book idx = Inr c"
  shows "\<exists>claims. signed ''HS256'' secret token claims \<and> secret \<noteq> [] \<and>
    has_audience ''audiobook_backend'' (map_of claims ''aud'') \<and> expires_after now (map_of claims ''exp'') \<and>
    map_of claims ''book_id'' = Some (JStr book) \<and> map_of claims ''sub'' = Some (JStr (cl_UserID c)) \<and>
    cl_UserID c \<noteq> [] \<and> claim_float claims ''file_idx'' = Some (sfl (of_int idx)) \<and> 0 \<le> idx"
  using assms by (rule accepted_token)

text \<open>A parser of unencoded tokens for one secret, to run the check on.\<close>

definition sample_claims :: "(string \<times> json) list" where
  "sample_claims = [(''aud'', JStr ''audiobook_backend''), (''exp'', JInt 10), (''sub'', JStr ''u1''),
     (''book_id'', JStr ''a1''), (''file_idx'', JInt 0)]"

definition sample_signed :: "string \<Rightarrow> bytes \<Rightarrow> string \<Rightarrow> (string \<times> json) list \<Rightarrow> bool" where
  "sample_signed alg key token claims \<longleftrightarrow> alg = ''HS256'' \<and> key = ''k'' \<and> token = ''t'' \<and> claims = sample_claims"

definition sample_parse :: jwt_parser where
  "sample_parse now token keyfunc aud =
     (if token = ''t'' \<and> keyfunc ''HS256'' = Inr ''k'' \<and> aud = ''audiobook_backend'' \<and> now < 10000000000
      then Inr \<lparr>jt_Valid = True, jt_Claims = Some sample_claims\<rparr> else Inl ''signature is invalid'')"

lemma sample_parse_sound: "jwt_parser_sound sample_signed sample_parse"
  by (auto simp: jwt_parser_sound_def sample_parse_def sample_signed_def has_audience_def expires_after_def
      sample_claims_def split: if_splits)

theorem stream_token_sound_witness:
  "\<exists>c claims. VerifyStreamToken sample_parse 5 ''k'' ''t'' ''a1'' 0 = Inr c \<and>
     sample_signed ''HS256'' ''k'' ''t'' claims \<and> map_of claims ''book_id'' = Some (JStr ''a1'')"
proof -
  obtain c where "VerifyStreamToken sample_parse 5 ''k'' ''t'' ''a1'' 0 = Inr c"
    by (simp add: VerifyStreamToken_def sample_parse_def stream_keyfunc_def expectedAudience_def claim_string_def
        claim_float_def sample_claims_def)
  with stream_token_sound [OF sample_parse_sound this] show ?thesis by blast
qed

end
