(* ===== verification/Covers.thy ===== *)
theory Covers
  imports Prelude Floats
begin

text \<open>
  Scaling of cover images, the second half of \<^verbatim>\<open>internal/server/cover.go\<close>. The image codecs and the
  resampler are a parameter; the sizes they are asked for are the subject.
\<close>

text \<open>
  \<open>il_DecodeConfig\<close> gives the declared width and height, \<open>il_Decode\<close> the bounds of the decoded picture,
  \<open>il_ScaleJPEG\<close> the picture of the input drawn into a rectangle of the given size, encoded as JPEG.
\<close>

record image_lib =
  il_DecodeConfig :: "bytes \<Rightarrow> (int \<times> int) option"
  il_Decode :: "bytes \<Rightarrow> (int \<times> int) option"
  il_ScaleJPEG :: "bytes \<Rightarrow> int \<Rightarrow> int \<Rightarrow> bytes option"

definition maxCoverPixels :: int where
  "maxCoverPixels = 40000000"

datatype resize_error = UndecodableCover | CoverTooLarge | EncodeFailed

text \<open>\<^verbatim>\<open>int(float64(edge) * (float64(target) / float64(longEdge)))\<close>\<close>

definition scaled_edge :: "int \<Rightarrow> int \<Rightarrow> int \<Rightarrow> int" where
  "scaled_edge target longEdge edge =
     (let ratio = fl (fl (of_int target) / fl (of_int longEdge))
      in go_int (fl (fl (of_int edge) * ratio)))"

definition resizeCover :: "image_lib \<Rightarrow> bytes \<Rightarrow> string \<Rightarrow> int \<Rightarrow> resize_error + (bytes \<times> string)" where
  "resizeCover lib inp inMIME target =
     (case il_DecodeConfig lib inp of
        None \<Rightarrow> Inl UndecodableCover
      | Some (width, height) \<Rightarrow>
          if wrap64 (width * height) > maxCoverPixels then Inl CoverTooLarge
          else (case il_Decode lib inp of
            None \<Rightarrow> Inl UndecodableCover
          | Some (dx, dy) \<Rightarrow>
              let longEdge = (if dy > dx then dy else dx) in
              if longEdge \<le> target then Inr (inp, inMIME)
              else (case il_ScaleJPEG lib inp (scaled_edge target longEdge dx) (scaled_edge target longEdge dy) of
                      None \<Rightarrow> Inl EncodeFailed
                    | Some out \<Rightarrow> Inr (out, ''image/jpeg''))))"

lemma scaled_edge_bounds:
  assumes "0 \<le> edge" and "edge \<le> longEdge" and "0 < target" and "target < longEdge" and "longEdge < 2 ^ 32"
  shows "0 \<le> scaled_edge target longEdge edge \<and> scaled_edge target longEdge edge \<le> target"
proof -
  have exact: "fl (of_int k) = of_int k" if "0 \<le> k" "k < 2 ^ 32" for k
    using that by (intro fl_of_int) simp_all
  let ?q = "of_int target / of_int longEdge :: rat"
  have q: "0 < ?q" "?q < 1" using assms by simp_all
  have r: "fl ?q \<le> ?q * (1 + 1 / 2 ^ 53)" using q by (intro fl_error)
  have t: "(of_int target :: rat) < 2 ^ 32"
    using assms by (metis of_int_less_iff of_int_numeral of_int_power order.strict_trans)
  have "of_int edge * fl ?q \<le> of_int edge * (?q * (1 + 1 / 2 ^ 53))"
    using r assms(1) by (intro mult_left_mono) simp_all
  also have "\<dots> \<le> of_int longEdge * (?q * (1 + 1 / 2 ^ 53))"
    using assms q by (intro mult_right_mono) simp_all
  also have "\<dots> = of_int target * (1 + 1 / 2 ^ 53)"
    using assms by simp
  also have "\<dots> \<le> of_int (2 * target + 1) / 2"
    using t assms by simp
  finally have "of_int edge * fl ?q \<le> of_int (2 * target + 1) / 2" .
  moreover from this t have "of_int edge * fl ?q < 2 ^ 52" by simp
  ultimately have "fl (of_int edge * fl ?q) \<le> of_int (2 * target + 1) / 2"
    using assms(3) by (intro fl_le_half) simp_all
  then have "fl (of_int edge * fl ?q) < of_int (target + 1)" by simp
  then have "\<lfloor>fl (of_int edge * fl ?q)\<rfloor> < target + 1" by (simp only: floor_less_iff)
  moreover have "scaled_edge target longEdge edge = \<lfloor>fl (of_int edge * fl ?q)\<rfloor>"
    using assms by (simp add: scaled_edge_def go_int_def exact)
  ultimately show ?thesis by simp
qed


section \<open>Properties\<close>

text \<open>
  C28. A cover is never blown up and never decoded when it is too large: images of more than 40 million
  declared pixels are refused; a picture within the target comes back unchanged; any other is drawn
  into a rectangle whose edges are at most the target, in spite of rounding, and comes back as JPEG.
\<close>

theorem cover_resize_bounded:
  assumes "resizeCover lib inp mime target = Inr (out, mime')" and "0 < target"
    and "il_DecodeConfig lib inp = Some (width, height)" and "0 \<le> width" and "width < 2 ^ 31" and "0 \<le> height" and "height < 2 ^ 31"
    and "il_Decode lib inp = Some (dx, dy)" and "0 \<le> dx" and "dx < 2 ^ 31" and "0 \<le> dy" and "dy < 2 ^ 31"
  shows "width * height \<le> 40000000 \<and>
    (if max dx dy \<le> target then out = inp \<and> mime' = mime
     else \<exists>w h. il_ScaleJPEG lib inp w h = Some out \<and> mime' = ''image/jpeg'' \<and>
            0 \<le> w \<and> w \<le> target \<and> 0 \<le> h \<and> h \<le> target)"
proof -
  have "width * height \<le> (2 ^ 31 - 1) * (2 ^ 31 - 1)"
    using assms by (intro mult_mono) simp_all
  moreover have "0 \<le> width * height" using assms by simp
  ultimately have "is_int64 (width * height)" by (simp add: is_int64_def)
  then have px: "width * height \<le> 40000000"
    using assms(1,3) by (simp add: resizeCover_def maxCoverPixels_def split: if_splits)
  let ?l = "if dy > dx then dy else dx"
  have l: "?l = max dx dy" by (simp add: max_def)
  have "\<exists>w h. il_ScaleJPEG lib inp w h = Some out \<and> mime' = ''image/jpeg'' \<and>
      0 \<le> w \<and> w \<le> target \<and> 0 \<le> h \<and> h \<le> target" if "target < ?l"
  proof -
    have "il_ScaleJPEG lib inp (scaled_edge target ?l dx) (scaled_edge target ?l dy) = Some out" and "mime' = ''image/jpeg''"
      using assms(1,3,8) that by (auto simp: resizeCover_def Let_def split: if_splits option.splits)
    moreover have "dx \<le> ?l" "dy \<le> ?l" "?l < 2 ^ 32" using assms by auto
    then have "0 \<le> scaled_edge target ?l dx \<and> scaled_edge target ?l dx \<le> target"
      "0 \<le> scaled_edge target ?l dy \<and> scaled_edge target ?l dy \<le> target"
      using scaled_edge_bounds [of dx ?l target] scaled_edge_bounds [of dy ?l target] assms that by blast+
    ultimately show ?thesis by blast
  qed
  moreover have "out = inp \<and> mime' = mime" if "?l \<le> target"
    using assms(1,3,8) that by (auto simp: resizeCover_def Let_def split: if_splits)
  ultimately show ?thesis
    using px unfolding l by auto
qed

definition sample_images :: image_lib where
  "sample_images = \<lparr>il_DecodeConfig = (\<lambda>b. Some (1000, 400)), il_Decode = (\<lambda>b. Some (1000, 400)),
     il_ScaleJPEG = (\<lambda>b w h. Some ''jpeg'')\<rparr>"

theorem cover_resize_bounded_witness:
  "resizeCover sample_images ''img'' ''image/png'' 250 = Inr (''jpeg'', ''image/jpeg'') \<and>
   (\<exists>w h. il_ScaleJPEG sample_images ''img'' w h = Some ''jpeg'' \<and> w \<le> 250 \<and> h \<le> 250)"
proof -
  have r: "resizeCover sample_images ''img'' ''image/png'' 250 = Inr (''jpeg'', ''image/jpeg'')"
    by (simp add: resizeCover_def sample_images_def maxCoverPixels_def is_int64_def)
  from cover_resize_bounded [OF r, of 1000 400 1000 400] r show ?thesis
    by (auto simp: sample_images_def)
qed

end
