(* ===== verification/Http_Api.thy ===== *)
theory Http_Api
  imports App_Config Stream_Auth Covers Filepath
begin

text \<open>
  The HTTP handlers of \<^verbatim>\<open>internal/server\<close>: catalog, browse, stream, cover and admin routes. The router
  (\<^verbatim>\<open>go-chi\<close>) is outside: a request arrives as the \<open>route\<close> it was matched to, with the URL parameters.
  A handler answers with a status and a body and leaves the server in a new state.
\<close>


section \<open>Requests and responses\<close>

datatype route =
    Catalog | Libraries | CatalogSearch | CatalogItem string
  | BrowseAuthors | BrowseGenres
  | StreamFile string string | CoverImage string string
  | Requests string
  | AdminHome | AdminScan | AdminScanStatus | AdminListPaths | AdminBrowse | AdminAddPath
  | AdminDeletePath string | AdminGetConfig | AdminPutConfig | AdminBackfill
  | NoRoute

text \<open>\<open>rq_query\<close> is \<^verbatim>\<open>Query().Get\<close>, \<open>rq_body\<close> the body parsed as JSON, \<open>None\<close> when it is none.\<close>

record request =
  rq_query :: "string \<Rightarrow> string"
  rq_theme_header :: string
  rq_body :: "json option"

record audiobookSummary =
  sm_ID :: string
  sm_Title :: string
  sm_Author :: string
  sm_Narrator :: string
  sm_Year :: string
  sm_Genre :: string
  sm_DurationMs :: int
  sm_LibraryID :: int
  sm_LibraryName :: string
  sm_MediaType :: string

record libraryInfo =
  li_ID :: int
  li_Name :: string
  li_MediaType :: string

record file_entry =
  fe_index :: int
  fe_format :: string
  fe_duration_ms :: int
  fe_path :: string

record facetItem =
  ft_Name :: string
  ft_Count :: int

record filesystemBrowseEntry =
  be_Name :: string
  be_Path :: string

datatype stream_error = MissingToken | Rejected token_error

datatype body =
    BText string
  | BRaw string
  | BTokenError stream_error
  | BStoreError sql_error
  | BList "audiobookSummary list" string
  | BLibraries "libraryInfo list"
  | BItem audiobookSummary "Chapter list" "file_entry list"
  | BFacets "facetItem list" string
  | BFile string string time bytes
  | BCover string bytes
  | BHome string
  | BAdminError string string
  | BAdminStoreError string sql_error
  | BAdminConfigError string app_config_error
  | BPaths "LibraryPath list"
  | BPath LibraryPath
  | BConfig AppConfig
  | BScan int
  | BEvents "ScanEvent list"
  | BQueued nat
  | BBrowse string string "filesystemBrowseEntry list"
  | BEmpty

type_synonym response = "nat \<times> body"

datatype stat = StatDir | StatOther | StatNotExist | StatFailed

record http_env =
  he_unicode :: unicode
  he_pg :: postgres
  he_jwt :: jwt_parser
  he_now :: "nat \<Rightarrow> time"
  he_Open :: "string \<Rightarrow> bytes option"
  he_Stat :: "string \<Rightarrow> stat"
  he_ReadDir :: "string \<Rightarrow> (string \<times> bool) list option" \<comment> \<open>names, and whether they are directories\<close>
  he_images :: image_lib

record 'j Deps =
  dp_StandaloneOn :: bool
  dp_StreamSecret :: bytes
  dp_Scan :: "(('j, json) server_state \<Rightarrow> (string + int) \<times> ('j, json) server_state) option"

type_synonym 'j handler = "('j, json) server_state \<Rightarrow> response \<times> ('j, json) server_state"


section \<open>catalog.go\<close>

definition toSummary :: "Audiobook \<Rightarrow> (int \<times> string) list \<Rightarrow> audiobookSummary" where
  "toSummary a libraryNames = \<lparr>sm_ID = ab_ID a, sm_Title = ab_Title a, sm_Author = ab_Author a,
     sm_Narrator = ab_Narrator a, sm_Year = ab_Year a, sm_Genre = ab_Genre a, sm_DurationMs = ab_DurationMs a,
     sm_LibraryID = ab_LibraryPathID a,
     sm_LibraryName = (case map_of libraryNames (ab_LibraryPathID a) of Some n \<Rightarrow> n | None \<Rightarrow> []),
     sm_MediaType = ''audiobook''\<rparr>"

definition libraryName :: "string \<Rightarrow> string" where
  "libraryName path =
     (let name = Base (Clean path) in if name = ''.'' \<or> name = ''/'' then path else name)"

definition libraryNameMap :: "('j, json) server_state \<Rightarrow> (int \<times> string) list \<times> ('j, json) server_state" where
  "libraryNameMap s =
     (case run_stmt ListLibraryPaths s of
        (Inl _, s1) \<Rightarrow> ([], s1)
      | (Inr paths, s1) \<Rightarrow> (map (\<lambda>lp. (lp_ID lp, libraryName (lp_Path lp))) paths, s1))"

definition parseLimit :: "string \<Rightarrow> int \<Rightarrow> int" where
  "parseLimit s def =
     (if s = [] then def
      else case Atoi s of
             None \<Rightarrow> def
           | Some n \<Rightarrow> if n \<le> 0 then def else if n > 200 then 200 else n)"

definition parseLibraryPathID :: "request \<Rightarrow> int" where
  "parseLibraryPathID r =
     (let raw = rq_query r ''library_id'' in
      if raw = [] then 0
      else case ParseInt raw of None \<Rightarrow> 0 | Some i \<Rightarrow> if i < 0 then 0 else i)"

definition handleListLibraries :: "'j handler" where
  "handleListLibraries s =
     (case run_stmt ListLibraryPaths s of
        (Inl e, s1) \<Rightarrow> ((500, BStoreError e), s1)
      | (Inr paths, s1) \<Rightarrow>
          ((200, BLibraries (map (\<lambda>lp. \<lparr>li_ID = lp_ID lp, li_Name = libraryName (lp_Path lp), li_MediaType = ''audiobook''\<rparr>)
             (filter lp_Enabled paths))), s1))"

text \<open>The items and the cursor of the last one, encoded for the requested sort.\<close>

definition list_envelope :: "Audiobook list \<Rightarrow> string \<Rightarrow> (int \<times> string) list \<Rightarrow> body" where
  "list_envelope books srt names =
     BList (map (\<lambda>a. toSummary a names) books) (if books = [] then [] else EncodeCursor (last books) srt)"

definition catalog_params :: "request \<Rightarrow> ListAudiobooksParams" where
  "catalog_params r = \<lparr>p_Cursor = rq_query r ''cursor'', p_Limit = parseLimit (rq_query r ''limit'') 50,
     p_Sort = rq_query r ''sort'', p_Order = rq_query r ''order'', p_LibraryPathID = parseLibraryPathID r\<rparr>"

definition handleListCatalog :: "http_env \<Rightarrow> request \<Rightarrow> 'j handler" where
  "handleListCatalog env r s =
     (case run_stmt (ListActiveAudiobooks (he_pg env) (catalog_params r)) s of
        (Inl e, s1) \<Rightarrow> ((500, BStoreError e), s1)
      | (Inr books, s1) \<Rightarrow>
          (let (names, s2) = libraryNameMap s1
           in ((200, list_envelope books (rq_query r ''sort'') names), s2)))"

text \<open>The query leaves sort and order empty; the cursor is encoded with the request's sort.\<close>

definition search_params :: "request \<Rightarrow> ListAudiobooksParams" where
  "search_params r = \<lparr>p_Cursor = rq_query r ''cursor'', p_Limit = parseLimit (rq_query r ''limit'') 50,
     p_Sort = [], p_Order = [], p_LibraryPathID = parseLibraryPathID r\<rparr>"

definition handleSearchCatalog :: "http_env \<Rightarrow> request \<Rightarrow> 'j handler" where
  "handleSearchCatalog env r s =
     (let query = rq_query r ''q'' in
      if query = [] then ((200, BList [] []), s)
      else case run_stmt (SearchAudiobooks (he_pg env) query (search_params r)) s of
        (Inl e, s1) \<Rightarrow> ((500, BStoreError e), s1)
      | (Inr books, s1) \<Rightarrow>
          (let (names, s2) = libraryNameMap s1
           in ((200, list_envelope books (rq_query r ''sort'') names), s2)))"

definition handleGetCatalog :: "string \<Rightarrow> 'j handler" where
  "handleGetCatalog i s =
     (case run_stmt (GetAudiobook i) s of
        (Inl _, s1) \<Rightarrow> ((404, BText ''not found''), s1)
      | (Inr book, s1) \<Rightarrow>
          (case run_stmt (ListChapters i) s1 of
             (Inl e, s2) \<Rightarrow> ((500, BStoreError e), s2)
           | (Inr chapters, s2) \<Rightarrow>
               (let (names, s3) = libraryNameMap s2
                in ((200, BItem (toSummary book names) chapters
                      [\<lparr>fe_index = 0, fe_format = ''m4b'', fe_duration_ms = ab_DurationMs book, fe_path = ab_Path book\<rparr>]), s3))))"


section \<open>browse.go and requests.go\<close>

definition facet_envelope :: "FacetCount list \<Rightarrow> body" where
  "facet_envelope rows =
     BFacets (map (\<lambda>f. \<lparr>ft_Name = fc_Value f, ft_Count = fc_Count f\<rparr>) rows)
       (if rows = [] then [] else fc_Value (last rows))"

definition handleBrowseAuthors :: "http_env \<Rightarrow> request \<Rightarrow> 'j handler" where
  "handleBrowseAuthors env r s =
     (case run_stmt (ListAuthorsWithCounts (he_pg env) (rq_query r ''cursor'')
              (parseLimit (rq_query r ''limit'') 100) (parseLibraryPathID r)) s of
        (Inl e, s1) \<Rightarrow> ((500, BStoreError e), s1)
      | (Inr rows, s1) \<Rightarrow> ((200, facet_envelope rows), s1))"

definition handleBrowseGenres :: "http_env \<Rightarrow> request \<Rightarrow> 'j handler" where
  "handleBrowseGenres env r s =
     (case run_stmt (ListGenresWithCounts (he_pg env) (rq_query r ''cursor'')
              (parseLimit (rq_query r ''limit'') 100) (parseLibraryPathID r)) s of
        (Inl e, s1) \<Rightarrow> ((500, BStoreError e), s1)
      | (Inr rows, s1) \<Rightarrow> ((200, facet_envelope rows), s1))"

definition handleRequestsStub :: "'j handler" where
  "handleRequestsStub s = ((404, BRaw ''{\"error\":\"local backend has no concept of requests\"}''), s)"


section \<open>file.go and cover.go\<close>

definition requireStreamToken ::
  "http_env \<Rightarrow> request \<Rightarrow> bytes \<Rightarrow> string \<Rightarrow> int \<Rightarrow> ('j, json) server_state \<Rightarrow> stream_error option" where
  "requireStreamToken env r secret bookID fileIdx s =
     (let token = rq_query r ''token'' in
      if token = [] then Some MissingToken
      else case VerifyStreamToken (he_jwt env) (he_now env (sv_calls s)) secret token bookID fileIdx of
             Inl e \<Rightarrow> Some (Rejected e)
           | Inr _ \<Rightarrow> None)"

definition contentTypeFor :: "unicode \<Rightarrow> string \<Rightarrow> string" where
  "contentTypeFor u path =
     (let e = ToLower u (Ext path) in
      if e = ''.m4b'' \<or> e = ''.m4a'' then ''audio/mp4''
      else if e = ''.mp3'' then ''audio/mpeg''
      else ''application/octet-stream'')"

definition serveBookFile :: "http_env \<Rightarrow> string \<Rightarrow> 'j handler" where
  "serveBookFile env bookID s =
     (case run_stmt (GetAudiobook bookID) s of
        (Inl _, s1) \<Rightarrow> ((404, BText ''not found''), s1)
      | (Inr book, s1) \<Rightarrow>
          (case he_Open env (ab_Path book) of
             None \<Rightarrow> ((500, BText ''file not readable''), s1)
           | Some content \<Rightarrow>
               ((200, BFile (contentTypeFor (he_unicode env) (ab_Path book)) (ab_Path book) (ab_MTime book) content), s1)))"

definition handleStream :: "http_env \<Rightarrow> 'j Deps \<Rightarrow> request \<Rightarrow> string \<Rightarrow> string \<Rightarrow> 'j handler" where
  "handleStream env dp r bookID idxStr s =
     (case Atoi idxStr of
        None \<Rightarrow> ((400, BText ''file_idx must be a non-negative integer''), s)
      | Some idx \<Rightarrow>
          if idx < 0 then ((400, BText ''file_idx must be a non-negative integer''), s)
          else (case requireStreamToken env r (dp_StreamSecret dp) bookID idx s of
            Some e \<Rightarrow> ((401, BTokenError e), s)
          | None \<Rightarrow>
              if idx \<noteq> 0 then ((404, BText ''file index not found''), s)
              else serveBookFile env bookID s))"

text \<open>The standalone variant has the same body.\<close>

definition handleStreamStandalone :: "http_env \<Rightarrow> 'j Deps \<Rightarrow> request \<Rightarrow> string \<Rightarrow> string \<Rightarrow> 'j handler" where
  "handleStreamStandalone = handleStream"

definition cover_body :: "http_env \<Rightarrow> string \<Rightarrow> Cover \<Rightarrow> body" where
  "cover_body env sz cov =
     (if sz = ''thumb'' \<or> sz = ''medium'' then
        (case resizeCover (he_images env) (cv_Bytes cov) (cv_ContentType cov) (if sz = ''medium'' then 500 else 250) of
           Inr (resized, mime) \<Rightarrow> BCover mime resized
         | Inl _ \<Rightarrow> BCover (cv_ContentType cov) (cv_Bytes cov))
      else BCover (cv_ContentType cov) (cv_Bytes cov))"

definition handleCover :: "http_env \<Rightarrow> 'j Deps \<Rightarrow> request \<Rightarrow> string \<Rightarrow> string \<Rightarrow> 'j handler" where
  "handleCover env dp r i sz s =
     (case requireStreamToken env r (dp_StreamSecret dp) i (-1) s of
        Some e \<Rightarrow> ((401, BTokenError e), s)
      | None \<Rightarrow>
          (case run_stmt (GetCover i) s of
             (Inl e, s1) \<Rightarrow> (case not_found_error e of
                 ErrNotFound \<Rightarrow> ((404, BText ''no cover''), s1)
               | ErrSQL e' \<Rightarrow> ((500, BStoreError e'), s1))
           | (Inr cov, s1) \<Rightarrow> ((200, cover_body env sz cov), s1)))"

definition handleCoverStandalone :: "http_env \<Rightarrow> 'j Deps \<Rightarrow> request \<Rightarrow> string \<Rightarrow> string \<Rightarrow> 'j handler" where
  "handleCoverStandalone env dp r i sz s =
     (case requireStreamToken env r (dp_StreamSecret dp) i (-1) s of
        Some e \<Rightarrow> ((401, BTokenError e), s)
      | None \<Rightarrow> handleCover env dp r i sz s)"


section \<open>admin.go\<close>

definition handleAdminListPaths :: "'j handler" where
  "handleAdminListPaths s =
     (case run_stmt ListLibraryPaths s of
        (Inl e, s1) \<Rightarrow> ((500, BAdminStoreError ''store_error'' e), s1)
      | (Inr paths, s1) \<Rightarrow> ((200, BPaths paths), s1))"

text \<open>\<^verbatim>\<open>addPathReq\<close> has the one field \<^verbatim>\<open>path\<close>.\<close>

definition decode_path :: "unicode \<Rightarrow> json option \<Rightarrow> string option" where
  "decode_path u b =
     (case b of None \<Rightarrow> None | Some v \<Rightarrow> decode_struct u [''path''] (\<lambda>f w old. decode_string w old) v [])"

definition handleAdminAddPath :: "http_env \<Rightarrow> request \<Rightarrow> 'j handler" where
  "handleAdminAddPath env r s =
     (case decode_path (he_unicode env) (rq_body r) of
        None \<Rightarrow> ((400, BAdminError ''invalid_input'' ''path required''), s)
      | Some path \<Rightarrow>
          if path = [] then ((400, BAdminError ''invalid_input'' ''path required''), s)
          else if he_Stat env path \<noteq> StatDir
          then ((400, BAdminError ''invalid_input'' ''path is not a readable directory''), s)
          else (case run_stmt (UpsertLibraryPath path) s of
                  (Inl e, s1) \<Rightarrow> ((500, BAdminStoreError ''store_error'' e), s1)
                | (Inr row, s1) \<Rightarrow> ((200, BPath row), s1)))"

definition handleAdminDeletePath :: "string \<Rightarrow> 'j handler" where
  "handleAdminDeletePath idStr s =
     (case ParseInt idStr of
        None \<Rightarrow> ((400, BAdminError ''invalid_input'' ''bad id''), s)
      | Some i \<Rightarrow>
          (case run_stmt (DeleteLibraryPath i) s of
             (Inl e, s1) \<Rightarrow> ((500, BAdminStoreError ''store_error'' e), s1)
           | (Inr deleted, s1) \<Rightarrow>
               if deleted then ((204, BEmpty), s1)
               else ((404, BAdminError ''not_found'' ''library path not found''), s1)))"

definition handleAdminGetConfig :: "http_env \<Rightarrow> 'j handler" where
  "handleAdminGetConfig env s =
     (case GetAppConfig (he_unicode env) s of
        (Inl e, s1) \<Rightarrow> ((500, BAdminConfigError ''store_error'' e), s1)
      | (Inr cfg, s1) \<Rightarrow> ((200, BConfig cfg), s1))"

definition handleAdminPutConfig :: "http_env \<Rightarrow> request \<Rightarrow> 'j handler" where
  "handleAdminPutConfig env r s =
     (case rq_body r of
        None \<Rightarrow> ((400, BAdminConfigError ''invalid_input'' BadDocument), s)
      | Some v \<Rightarrow>
          (case unmarshal_config (he_unicode env) v zero_config of
             None \<Rightarrow> ((400, BAdminConfigError ''invalid_input'' BadDocument), s)
           | Some c \<Rightarrow>
               (let cfg = WithDefaults c in
                if ac_StandaloneHTTPListen cfg \<noteq> [] \<and> ac_StreamSigningSecret cfg = []
                then ((400, BAdminError ''invalid_input''
                        ''stream_signing_secret is required when standalone_http_listen is set''), s)
                else case Validate cfg of
                  Some e \<Rightarrow> ((400, BAdminConfigError ''invalid_input'' (Invalid e)), s)
                | None \<Rightarrow>
                    (case PutAppConfig cfg s of
                       (Inl e, s1) \<Rightarrow> ((500, BAdminConfigError ''store_error'' e), s1)
                     | (Inr _, s1) \<Rightarrow> ((200, BConfig cfg), s1)))))"

definition handleAdminScan :: "'j Deps \<Rightarrow> 'j handler" where
  "handleAdminScan dp s =
     (case dp_Scan dp of
        None \<Rightarrow> ((503, BAdminError ''not_configured'' ''scan not configured''), s)
      | Some scan \<Rightarrow>
          (case scan s of
             (Inl e, s1) \<Rightarrow> ((500, BAdminError ''scan_failed'' e), s1)
           | (Inr eventID, s1) \<Rightarrow> ((202, BScan eventID), s1)))"

definition handleAdminScanStatus :: "'j handler" where
  "handleAdminScanStatus s =
     (case run_stmt (ListRecentScanEvents 50) s of
        (Inl e, s1) \<Rightarrow> ((500, BAdminStoreError ''store_error'' e), s1)
      | (Inr events, s1) \<Rightarrow> ((200, BEvents events), s1))"

definition handleMetadataBackfill :: "'j handler" where
  "handleMetadataBackfill s =
     (case run_stmt BulkEnqueueBackfill s of
        (Inl e, s1) \<Rightarrow> ((500, BAdminStoreError ''backfill_failed'' e), s1)
      | (Inr n, s1) \<Rightarrow> ((200, BQueued n), s1))"

definition browse_lt :: "filesystemBrowseEntry \<Rightarrow> filesystemBrowseEntry \<Rightarrow> bool" where
  "browse_lt a b \<longleftrightarrow>
     (if be_Name a = be_Name b then byte_lt (be_Path a) (be_Path b) else byte_lt (be_Name a) (be_Name b))"

definition browse_parent :: "string \<Rightarrow> string" where
  "browse_parent cleaned =
     (let parent = Dir cleaned in
      if cleaned = ''/'' \<or> parent = ''.'' \<or> parent = cleaned then cleaned else parent)"

definition handleAdminFilesystemBrowse :: "http_env \<Rightarrow> request \<Rightarrow> response" where
  "handleAdminFilesystemBrowse env r =
     (let p = TrimSpace (rq_query r ''path'');
          path = (if p = [] then ''/'' else p)
      in if \<not> IsAbs path then (400, BAdminError ''bad_request'' ''path must be an absolute path'')
         else let cleaned = Clean path in
           case he_Stat env cleaned of
             StatNotExist \<Rightarrow> (404, BAdminError ''not_found'' ''directory not found'')
           | StatFailed \<Rightarrow> (400, BAdminError ''bad_request'' ''invalid path'')
           | StatOther \<Rightarrow> (400, BAdminError ''bad_request'' ''path must point to a directory'')
           | StatDir \<Rightarrow>
               (case he_ReadDir env cleaned of
                  None \<Rightarrow> (500, BAdminError ''internal_error'' ''failed to read directory'')
                | Some entries \<Rightarrow>
                    (200, BBrowse cleaned (browse_parent cleaned)
                       (sort_by browse_lt (map (\<lambda>(name, d). \<lparr>be_Name = name, be_Path = Join2 cleaned name\<rparr>)
                          (filter snd entries))))))"


section \<open>server.go\<close>

text \<open>\<^verbatim>\<open>html.EscapeString\<close>\<close>

definition escape_char :: "char \<Rightarrow> string" where
  "escape_char c =
     (if c = CHR ''&'' then ''&amp;''
      else if c = CHR 0x27 then ''&#39;''
      else if c = CHR ''<'' then ''&lt;''
      else if c = CHR ''>'' then ''&gt;''
      else if c = CHR 0x22 then ''&#34;''
      else [c])"

definition EscapeString :: "string \<Rightarrow> string" where
  "EscapeString s = concat (map escape_char s)"

definition adminTheme :: "request \<Rightarrow> string" where
  "adminTheme r =
     (let h = rq_theme_header r;
          q = (if h = [] then rq_query r ''theme'' else h);
          theme = (if q = [] then ''default'' else q)
      in EscapeString theme)"

text \<open>The page is static apart from the theme it carries in an attribute.\<close>

definition handleAdminHome :: "request \<Rightarrow> response" where
  "handleAdminHome r = (200, BHome (adminTheme r))"

definition not_allowed :: string where
  "not_allowed = ''{\"error\":{\"code\":\"not_allowed\",\"message\":\"only stream/cover are exposed on standalone listener\"}}''"

definition standalone_routes :: "http_env \<Rightarrow> 'j Deps \<Rightarrow> request \<Rightarrow> route \<Rightarrow> 'j handler" where
  "standalone_routes env dp r rt s =
     (case rt of
        StreamFile b i \<Rightarrow> handleStreamStandalone env dp r b i s
      | CoverImage b sz \<Rightarrow> handleCoverStandalone env dp r b sz s
      | _ \<Rightarrow> ((404, BText not_allowed), s))"

definition host_routes :: "http_env \<Rightarrow> 'j Deps \<Rightarrow> request \<Rightarrow> route \<Rightarrow> 'j handler" where
  "host_routes env dp r rt s =
     (case rt of
        Catalog \<Rightarrow> handleListCatalog env r s
      | Libraries \<Rightarrow> handleListLibraries s
      | CatalogSearch \<Rightarrow> handleSearchCatalog env r s
      | CatalogItem i \<Rightarrow> handleGetCatalog i s
      | BrowseAuthors \<Rightarrow> handleBrowseAuthors env r s
      | BrowseGenres \<Rightarrow> handleBrowseGenres env r s
      | StreamFile b i \<Rightarrow> handleStream env dp r b i s
      | CoverImage b sz \<Rightarrow> handleCover env dp r b sz s
      | Requests x \<Rightarrow> handleRequestsStub s
      | AdminHome \<Rightarrow> (handleAdminHome r, s)
      | AdminScan \<Rightarrow> handleAdminScan dp s
      | AdminScanStatus \<Rightarrow> handleAdminScanStatus s
      | AdminListPaths \<Rightarrow> handleAdminListPaths s
      | AdminBrowse \<Rightarrow> (handleAdminFilesystemBrowse env r, s)
      | AdminAddPath \<Rightarrow> handleAdminAddPath env r s
      | AdminDeletePath i \<Rightarrow> handleAdminDeletePath i s
      | AdminGetConfig \<Rightarrow> handleAdminGetConfig env s
      | AdminPutConfig \<Rightarrow> handleAdminPutConfig env r s
      | AdminBackfill \<Rightarrow> handleMetadataBackfill s
      | NoRoute \<Rightarrow> ((404, BText ''404 page not found''), s))"

definition Handler :: "http_env \<Rightarrow> 'j Deps \<Rightarrow> request \<Rightarrow> route \<Rightarrow> 'j handler" where
  "Handler env dp r rt s =
     (if dp_StandaloneOn dp then standalone_routes env dp r rt s else host_routes env dp r rt s)"

end
