(* ===== verification/Http_Spec.thy ===== *)
theory Http_Spec
  imports Http_Api
begin

text \<open>
  What the HTTP interface guarantees: which books a response can show, who gets at the bytes of a file,
  that reading through the catalog is complete, and that the admin page is safe to render. Also three
  defects of the handlers, stated as theorems.
\<close>


section \<open>Reading statements\<close>

lemma read_only_stmts [simp]:
  "read_only ListLibraryPaths" "read_only (GetAudiobook i)" "read_only (ListChapters i)" "read_only (GetCover i)"
  "read_only (ListRecentScanEvents n)"
  by (auto simp: read_only_def ListLibraryPaths_def GetAudiobook_def ListChapters_def GetCover_def
      ListRecentScanEvents_def Let_def split: option.splits)

lemma read_only_list_query: "read_only (list_query pg extra p)"
  by (auto simp: read_only_def list_query_def Let_def split: prod.splits sum.splits)

lemma read_only_listings [simp]:
  "read_only (ListActiveAudiobooks pg p)" "read_only (SearchAudiobooks pg q p)"
  "read_only (ListAuthorsWithCounts pg c l lib)" "read_only (ListGenresWithCounts pg c l lib)"
  by (simp_all add: ListActiveAudiobooks_def SearchAudiobooks_def read_only_list_query)
    (simp_all add: read_only_def ListAuthorsWithCounts_def ListGenresWithCounts_def facet_query_def Let_def)

lemmas run_reads = run_read_only [OF read_only_stmts(1)] run_read_only [OF read_only_stmts(2)]
  run_read_only [OF read_only_stmts(3)] run_read_only [OF read_only_stmts(4)] run_read_only [OF read_only_stmts(5)]
  run_read_only [OF read_only_listings(1)] run_read_only [OF read_only_listings(2)]
  run_read_only [OF read_only_listings(3)] run_read_only [OF read_only_listings(4)]

lemma list_query_visible:
  "list_query pg extra p now d = Inr (rows, d') \<Longrightarrow> a \<in> set rows \<Longrightarrow> a \<in> set (t_audiobook d) \<and> visible d a"
  by (auto simp: list_query_def Let_def split: prod.splits sum.splits dest!: in_set_takeD)

text \<open>The database has a visible book with this id.\<close>

definition shown :: "('j, json) server_state \<Rightarrow> string \<Rightarrow> bool" where
  "shown s i \<longleftrightarrow> (\<exists>a\<in>set (t_audiobook (sv_db s)). ab_ID a = i \<and> visible (sv_db s) a)"

text \<open>A reading statement leaves the tables alone and returns visible books only.\<close>

lemma run_catalog:
  assumes "run_stmt (ListActiveAudiobooks pg p) s = (r, s')"
  shows "s' = s\<lparr>sv_calls := Suc (sv_calls s)\<rparr> \<and>
    (\<forall>rows a. r = Inr rows \<longrightarrow> a \<in> set rows \<longrightarrow> shown s (ab_ID a))"
  using run_reads(6) [OF assms] list_query_visible
  by (fastforce simp: ListActiveAudiobooks_def shown_def)

lemma run_search:
  assumes "run_stmt (SearchAudiobooks pg q p) s = (r, s')"
  shows "s' = s\<lparr>sv_calls := Suc (sv_calls s)\<rparr> \<and>
    (\<forall>rows a. r = Inr rows \<longrightarrow> a \<in> set rows \<longrightarrow> shown s (ab_ID a))"
  using run_reads(7) [OF assms] list_query_visible
  by (fastforce simp: SearchAudiobooks_def shown_def)

lemma run_book:
  assumes "run_stmt (GetAudiobook i) s = (r, s')"
  shows "s' = s\<lparr>sv_calls := Suc (sv_calls s)\<rparr> \<and>
    (\<forall>a. r = Inr a \<longrightarrow> a \<in> set (t_audiobook (sv_db s)) \<and> visible (sv_db s) a \<and> ab_ID a = i)"
  using run_reads(2) [OF assms] by (auto simp: GetAudiobook_def split: option.splits dest: find_SomeD)

lemma run_cover:
  assumes "run_stmt (GetCover i) s = (r, s')"
  shows "s' = s\<lparr>sv_calls := Suc (sv_calls s)\<rparr> \<and>
    (\<forall>c. r = Inr c \<longrightarrow> (\<exists>a\<in>set (t_audiobook (sv_db s)). visible (sv_db s) a \<and> ab_ID a = i))"
  using run_reads(4) [OF assms] by (auto simp: GetCover_def list_ex_iff split: option.splits dest!: find_SomeD)

lemma libraryNameMap_reads: "libraryNameMap s = (names, s') \<Longrightarrow> s' = s\<lparr>sv_calls := Suc (sv_calls s)\<rparr>"
  by (auto simp: libraryNameMap_def split: prod.splits sum.splits dest: run_reads(1))


section \<open>Which books a response shows\<close>

text \<open>The ids of the books whose data a response to a route carries.\<close>

fun exposes :: "route \<Rightarrow> body \<Rightarrow> string set" where
  "exposes rt (BList items cur) = sm_ID ` set items"
| "exposes rt (BItem item chs files) = {sm_ID item}"
| "exposes (StreamFile b i) (BFile ct p m content) = {b}"
| "exposes (CoverImage b sz) (BCover ct content) = {b}"
| "exposes rt bd = {}"

definition content_route :: "route \<Rightarrow> bool" where
  "content_route rt \<longleftrightarrow>
     (case rt of Catalog \<Rightarrow> True | Libraries \<Rightarrow> True | CatalogSearch \<Rightarrow> True | CatalogItem _ \<Rightarrow> True
       | BrowseAuthors \<Rightarrow> True | BrowseGenres \<Rightarrow> True | StreamFile _ _ \<Rightarrow> True | CoverImage _ _ \<Rightarrow> True
       | Requests _ \<Rightarrow> True | _ \<Rightarrow> False)"

lemma sm_ID_toSummary [simp]: "sm_ID (toSummary a names) = ab_ID a"
  by (simp add: toSummary_def)

lemma exposes_envelope [simp]: "exposes rt (list_envelope books srt names) = ab_ID ` set books"
  by (simp add: list_envelope_def image_image)

lemma catalog_shows:
  "handleListCatalog env r s = ((st, bd), s') \<Longrightarrow> sv_db s' = sv_db s \<and> (\<forall>i\<in>exposes rt bd. shown s i)"
  by (auto simp: handleListCatalog_def split: prod.splits sum.splits
      dest!: run_catalog libraryNameMap_reads)

lemma search_shows:
  "handleSearchCatalog env r s = ((st, bd), s') \<Longrightarrow> sv_db s' = sv_db s \<and> (\<forall>i\<in>exposes rt bd. shown s i)"
  by (auto simp: handleSearchCatalog_def Let_def split: if_splits prod.splits sum.splits
      dest!: run_search libraryNameMap_reads)

lemma item_shows:
  "handleGetCatalog k s = ((st, bd), s') \<Longrightarrow> sv_db s' = sv_db s \<and> (\<forall>i\<in>exposes rt bd. shown s i)"
  by (auto simp: handleGetCatalog_def shown_def split: prod.splits sum.splits
      dest!: run_book run_reads(3) libraryNameMap_reads)

text \<open>A stream response, with what it takes from the disk.\<close>

lemma serve_shows:
  "serveBookFile env b s = ((st, bd), s') \<Longrightarrow> sv_db s' = sv_db s \<and> (\<forall>i\<in>exposes (StreamFile b f) bd. shown s i) \<and>
     (\<forall>ct p m content. bd = BFile ct p m content \<longrightarrow> he_Open env p = Some content \<and>
        (\<exists>a\<in>set (t_audiobook (sv_db s)). ab_ID a = b \<and> visible (sv_db s) a \<and> ab_Path a = p))"
  by (auto simp: serveBookFile_def shown_def split: prod.splits sum.splits option.splits dest!: run_book)

lemma stream_shows:
  "handleStream env dp r b f s = ((st, bd), s') \<Longrightarrow> sv_db s' = sv_db s \<and> (\<forall>i\<in>exposes (StreamFile b f) bd. shown s i) \<and>
     (\<forall>ct p m content. bd = BFile ct p m content \<longrightarrow> he_Open env p = Some content \<and>
        (\<exists>a\<in>set (t_audiobook (sv_db s)). ab_ID a = b \<and> visible (sv_db s) a \<and> ab_Path a = p))"
  by (auto simp: handleStream_def split: option.splits if_splits dest: serve_shows [where f = f])

lemma cover_shows:
  "handleCover env dp r b sz s = ((st, bd), s') \<Longrightarrow> sv_db s' = sv_db s \<and> (\<forall>i\<in>exposes (CoverImage b sz) bd. shown s i)"
  by (auto simp: handleCover_def shown_def cover_body_def split: option.splits prod.splits sum.splits store_error.splits if_splits
      dest!: run_cover)

lemma browse_shows:
  "handleBrowseAuthors env r s = ((st, bd), s') \<Longrightarrow> sv_db s' = sv_db s \<and> exposes rt bd = {}"
  "handleBrowseGenres env r s = ((st, bd), s') \<Longrightarrow> sv_db s' = sv_db s \<and> exposes rt bd = {}"
  "handleListLibraries s = ((st, bd), s') \<Longrightarrow> sv_db s' = sv_db s \<and> exposes rt bd = {}"
  by (auto simp: handleBrowseAuthors_def handleBrowseGenres_def handleListLibraries_def facet_envelope_def
      split: prod.splits sum.splits dest!: run_reads(8) run_reads(9) run_reads(1))



section \<open>A client that reads the catalog\<close>

text \<open>
  The client follows the cursors of the responses until a page is empty. \<open>fuel\<close> bounds its requests.
\<close>

definition at_cursor :: "request \<Rightarrow> string \<Rightarrow> request" where
  "at_cursor r cur = r\<lparr>rq_query := (rq_query r)(''cursor'' := cur)\<rparr>"

fun client_pages :: "(request \<Rightarrow> 'j handler) \<Rightarrow> request \<Rightarrow> nat \<Rightarrow> string \<Rightarrow> ('j, json) server_state \<Rightarrow> audiobookSummary list" where
  "client_pages h r 0 cur s = []"
| "client_pages h r (Suc fuel) cur s =
     (case h (at_cursor r cur) s of
        ((st, BList items next), s') \<Rightarrow> if items = [] then [] else items @ client_pages h r fuel next s'
      | _ \<Rightarrow> [])"

definition library_names :: "('j, 'c) db \<Rightarrow> (int \<times> string) list" where
  "library_names d = map (\<lambda>lp. (lp_ID lp, libraryName (lp_Path lp))) (rows_of (ListLibraryPaths 0 d))"

lemma libraryNameMap_ok:
  "\<not> sv_fault s (sv_calls s) \<Longrightarrow> libraryNameMap s = (library_names (sv_db s), s\<lparr>sv_calls := Suc (sv_calls s)\<rparr>)"
  by (simp add: libraryNameMap_def run_stmt_def ListLibraryPaths_def library_names_def rows_of_def)

lemma list_query_now: "list_query pg extra p now d = list_query pg extra p 0 d"
  by (simp add: list_query_def)

text \<open>One request, when no statement fails.\<close>

lemma listing_request:
  assumes "\<And>n. \<not> sv_fault s n"
    and "h = (\<lambda>s. case run_stmt (list_query pg extra p) s of
        (Inl e, s1) \<Rightarrow> ((500, BStoreError e), s1)
      | (Inr books, s1) \<Rightarrow>
          (let (names, s2) = libraryNameMap s1 in ((200, list_envelope books srt names), s2)))"
  shows "(\<exists>e. fst (h s) = (500, BStoreError e) \<and> rows_of (list_query pg extra p 0 (sv_db s)) = []) \<or>
    (\<exists>s'. h s = ((200, list_envelope (rows_of (list_query pg extra p 0 (sv_db s))) srt (library_names (sv_db s))), s') \<and>
      sv_db s' = sv_db s \<and> sv_fault s' = sv_fault s)"
proof (cases "list_query pg extra p 0 (sv_db s)")
  case (Inl e)
  with assms show ?thesis
    by (simp add: run_stmt_def list_query_now [of pg extra p "pg_time _"] rows_of_def)
next
  case (Inr x)
  then obtain books where x: "x = (books, sv_db s)"
    using read_only_list_query [of pg extra p] unfolding read_only_def by (metis prod.collapse)
  then have "run_stmt (list_query pg extra p) s = (Inr books, s\<lparr>sv_calls := Suc (sv_calls s)\<rparr>)"
    using Inr assms(1) by (simp add: run_stmt_def list_query_now [of pg extra p "pg_time _"])
  with assms Inr x show ?thesis
    by (simp add: libraryNameMap_ok rows_of_def)
qed

lemma client_pages_walk:
  assumes "\<And>s cur. \<lbrakk>\<And>n. \<not> sv_fault s n\<rbrakk> \<Longrightarrow>
      (\<exists>e. fst (h (at_cursor r cur) s) = (500, BStoreError e) \<and> fetch (sv_db s) cur = []) \<or>
      (\<exists>s'. h (at_cursor r cur) s = ((200, list_envelope (fetch (sv_db s) cur) srt (library_names (sv_db s))), s') \<and>
        sv_db s' = sv_db s \<and> sv_fault s' = sv_fault s)"
    and "\<And>n. \<not> sv_fault s n"
  shows "client_pages h r fuel cur s =
    map (\<lambda>a. toSummary a (library_names (sv_db s))) (concat (page_walk (fetch (sv_db s)) (\<lambda>a. EncodeCursor a srt) fuel cur))"
  using assms(2)
proof (induction fuel arbitrary: cur s)
  case (Suc fuel)
  from assms(1) [OF Suc.prems, of cur] show ?case
  proof (elim disjE exE conjE)
    fix e assume "fst (h (at_cursor r cur) s) = (500, BStoreError e)" "fetch (sv_db s) cur = []"
    then show ?thesis by (auto split: prod.split)
  next
    fix s' assume s': "h (at_cursor r cur) s =
        ((200, list_envelope (fetch (sv_db s) cur) srt (library_names (sv_db s))), s')"
      "sv_db s' = sv_db s" "sv_fault s' = sv_fault s"
    then have "client_pages h r fuel nxt s' = map (\<lambda>a. toSummary a (library_names (sv_db s)))
        (concat (page_walk (fetch (sv_db s)) (\<lambda>a. EncodeCursor a srt) fuel nxt))" for nxt
      using Suc.IH [of s' nxt] Suc.prems by simp
    with s' show ?thesis by (simp add: list_envelope_def Let_def)
  qed
qed simp


section \<open>Properties\<close>

text \<open>
  C11. No response discloses a hidden book. Whatever is requested, on either listener, with any
  parameters: every book whose metadata, cover or audio a content response carries is one that is not
  deleted and lies in an enabled library; audio is read from the path recorded for that book and from
  no other; and a content request changes nothing in the database.
\<close>

theorem responses_show_visible_books:
  assumes "Handler env dp r rt s = ((st, bd), s')" and "content_route rt"
  shows "sv_db s' = sv_db s \<and>
    (\<forall>i\<in>exposes rt bd. \<exists>a\<in>set (t_audiobook (sv_db s)). ab_ID a = i \<and> visible (sv_db s) a) \<and>
    (\<forall>b f ct p m content. rt = StreamFile b f \<longrightarrow> bd = BFile ct p m content \<longrightarrow> he_Open env p = Some content \<and>
       (\<exists>a\<in>set (t_audiobook (sv_db s)). ab_ID a = b \<and> visible (sv_db s) a \<and> ab_Path a = p))"
proof -
  have stream: ?thesis if "rt = StreamFile b f" and "handleStream env dp r b f s = ((st, bd), s')" for b f
    using stream_shows [OF that(2)] that(1) by (auto simp: shown_def)
  have cover: ?thesis if "rt = CoverImage b sz" and "handleCover env dp r b sz s = ((st, bd), s')" for b sz
    using cover_shows [OF that(2)] that(1) by (auto simp: shown_def)
  show ?thesis
  proof (cases rt)
    case (StreamFile b f)
    with stream assms(1) show ?thesis
      by (auto simp: Handler_def standalone_routes_def host_routes_def handleStreamStandalone_def split: if_splits)
  next
    case (CoverImage b sz)
    with assms(1) have "handleCover env dp r b sz s = ((st, bd), s') \<or> (s' = s \<and> (\<exists>e. bd = BTokenError e))"
      by (auto simp: Handler_def standalone_routes_def host_routes_def handleCoverStandalone_def
          split: if_splits option.splits)
    with cover CoverImage show ?thesis by auto
  qed (use assms in \<open>auto simp: content_route_def Handler_def standalone_routes_def host_routes_def
      handleRequestsStub_def shown_def [symmetric] split: if_splits
      dest: catalog_shows [where rt = rt] search_shows [where rt = rt] item_shows [where rt = rt]
        browse_shows [where rt = rt]\<close>)
qed


definition sample_http :: http_env where
  "sample_http = \<lparr>he_unicode = \<lparr>map_to_lower = (\<lambda>s. s), fold_equal = (=)\<rparr>, he_pg = c_server (\<lambda>s. None),
     he_jwt = sample_parse, he_now = (\<lambda>n. 5), he_Open = (\<lambda>p. Some ''audio''), he_Stat = (\<lambda>p. StatDir),
     he_ReadDir = (\<lambda>p. Some [(''b'', True), (''f.txt'', False), (''a'', True)]), he_images = sample_images\<rparr>"

definition sample_request :: "(string \<times> string) list \<Rightarrow> request" where
  "sample_request q = \<lparr>rq_query = (\<lambda>k. case map_of q k of Some v \<Rightarrow> v | None \<Rightarrow> []), rq_theme_header = [], rq_body = None\<rparr>"

definition sample_library :: "(unit, json) server_state" where
  "sample_library = quiet_server sample_db"

definition sample_standalone :: "unit Deps" where
  "sample_standalone = \<lparr>dp_StandaloneOn = True, dp_StreamSecret = ''k'', dp_Scan = None\<rparr>"

lemma sample_token:
  "requireStreamToken sample_http (sample_request [(''token'', ''t'')]) ''k'' ''a1'' 0 s = None"
  by (simp add: requireStreamToken_def sample_request_def sample_http_def VerifyStreamToken_def sample_parse_def
      stream_keyfunc_def expectedAudience_def claim_string_def claim_float_def sample_claims_def)

lemma sample_stream:
  "\<exists>ct m s'. Handler sample_http sample_standalone (sample_request [(''token'', ''t'')]) (StreamFile ''a1'' ''0'') sample_library
     = ((200, BFile ct ''/m/one/a.mp3'' m ''audio''), s')"
proof -
  have "Atoi ''0'' = Some 0" by code_simp
  moreover have "he_Open sample_http p = Some ''audio''" for p by (simp add: sample_http_def)
  ultimately show ?thesis
    by (simp add: sample_token Handler_def sample_standalone_def standalone_routes_def handleStreamStandalone_def handleStream_def
        serveBookFile_def run_stmt_def sample_library_def quiet_server_def GetAudiobook_def sample_db_def sample_book_def
        visible_def enabled_library_def)
qed

theorem responses_show_visible_books_witness:
  "\<exists>st bd s'. Handler sample_http sample_standalone (sample_request [(''token'', ''t'')]) (StreamFile ''a1'' ''0'') sample_library
      = ((st, bd), s') \<and> sv_db s' = sample_db \<and> exposes (StreamFile ''a1'' ''0'') bd = {''a1''} \<and>
     (\<exists>a\<in>set (t_audiobook (sample_db :: (unit, json) db)). ab_ID a = ''a1'' \<and> visible (sample_db :: (unit, json) db) a)"
proof -
  obtain ct m s' where h: "Handler sample_http sample_standalone (sample_request [(''token'', ''t'')])
      (StreamFile ''a1'' ''0'') sample_library = ((200, BFile ct ''/m/one/a.mp3'' m ''audio''), s')"
    using sample_stream by blast
  from responses_show_visible_books [OF h] h show ?thesis
    by (auto simp: content_route_def sample_library_def quiet_server_def)
qed




text \<open>
  C40. Cover requests are always refused: the handler asks the token check for file index -1, which the
  check rejects before it looks at the token, so every cover request is answered with 401 whatever token
  it carries.
\<close>

theorem cover_always_unauthorized:
  "fst (fst (Handler env dp r (CoverImage b sz) s)) = 401"
proof -
  have "requireStreamToken env r (dp_StreamSecret dp) b (-1) s \<noteq> None"
    by (simp add: requireStreamToken_def VerifyStreamToken_def Let_def split: sum.split)
  then show ?thesis
    by (auto simp: Handler_def standalone_routes_def host_routes_def handleCoverStandalone_def handleCover_def
        split: option.split)
qed

text \<open>
  The theme a client supplies cannot break out of the attribute it is put in: what the admin page
  carries contains no quote and no angle bracket, whatever the header or the query says.
\<close>

theorem theme_attribute_safe:
  "set (adminTheme r) \<inter> {CHR ''<'', CHR ''>'', CHR 0x22, CHR 0x27} = {}"
proof -
  have "set (escape_char c) \<inter> {CHR ''<'', CHR ''>'', CHR 0x22, CHR 0x27} = {}" for c
    by (auto simp: escape_char_def)
  then have "set (EscapeString t) \<inter> {CHR ''<'', CHR ''>'', CHR 0x22, CHR 0x27} = {}" for t
    by (induction t) (auto simp: EscapeString_def)
  then show ?thesis by (simp add: adminTheme_def Let_def)
qed

text \<open>
  Saving the settings without the secret erases it: a PUT whose body has no
  \<^verbatim>\<open>stream_signing_secret\<close> (what the admin page sends when the field is left blank) stores an empty one,
  whatever was stored before.
\<close>

theorem put_config_erases_secret:
  assumes "\<forall>n. \<not> sv_fault s n" and "config_ok (WithDefaults c)" and "ac_StandaloneHTTPListen c = []"
    and "rq_body r = Some v" and "unmarshal_config (he_unicode env) v zero_config = Some c"
    and "ac_StreamSigningSecret c = []" and "config_ints c"
  shows "\<exists>s'. handleAdminPutConfig env r s = ((200, BConfig (WithDefaults c)), s') \<and>
    (\<exists>cfg. fst (GetAppConfig u s') = Inr cfg \<and> ac_StreamSigningSecret cfg = [])"
proof -
  have sec: "ac_StreamSigningSecret (WithDefaults c) = []" and listen: "ac_StandaloneHTTPListen (WithDefaults c) = []"
    using assms(3,6) by (simp_all add: WithDefaults_def Let_def)
  have val: "Validate c = None" using assms(2) by (simp add: Validate_ok)
  obtain s' where put: "PutAppConfig (WithDefaults c) s = (Inr (), s')"
    and s': "t_app_config (sv_db s') = Some (marshal_config (WithDefaults c))" "\<forall>n. \<not> sv_fault s' n"
    using Put_ok [of s "WithDefaults c"] assms(1) val by simp
  have "fst (GetAppConfig u s') = Inr (WithDefaults c)"
    using Get_stored [OF _ s'(1)] s'(2) WithDefaults_ints [OF assms(7)] by simp
  moreover have "handleAdminPutConfig env r s = ((200, BConfig (WithDefaults c)), s')"
    using assms(4,5) put val listen by (simp add: handleAdminPutConfig_def Let_def)
  ultimately show ?thesis using sec by blast
qed

theorem put_config_erases_secret_witness:
  "\<exists>s'. handleAdminPutConfig sample_http (sample_request []\<lparr>rq_body := Some (JObj [])\<rparr>)
       (quiet_server (empty_db\<lparr>t_app_config := Some (marshal_config (DefaultAppConfig\<lparr>ac_StreamSigningSecret := ''s3cret''\<rparr>))\<rparr>) :: (unit, json) server_state)
     = ((200, BConfig DefaultAppConfig), s') \<and>
     (\<exists>cfg. fst (GetAppConfig (he_unicode sample_http) s') = Inr cfg \<and> ac_StreamSigningSecret cfg = [])"
proof -
  have d: "WithDefaults zero_config = DefaultAppConfig"
    by (simp add: WithDefaults_def zero_config_def DefaultAppConfig_def)
  have ok: "config_ok DefaultAppConfig"
    by (simp add: config_ok_def DefaultAppConfig_def validMetadataSource_def validScanSource_def)
  show ?thesis
    by (rule put_config_erases_secret [where c = zero_config and v = "JObj []", unfolded d])
      (simp_all add: quiet_server_def ok unmarshal_config_def decode_struct_def,
       simp_all add: zero_config_def config_ints_def is_int64_def)
qed


text \<open>
  C7. A client that reads the catalog through the HTTP interface, following the cursor of each response
  until a page comes back empty, receives the summary of every visible book of the (optionally one)
  library exactly once, in the requested order, for every sort, order and page size it asks for.
\<close>

theorem api_catalog_complete:
  assumes "catalog_order (he_pg env)" and "db_inv (sv_db s)" and "\<forall>n. \<not> sv_fault s n" and "\<not> dp_StandaloneOn dp"
    and "\<forall>a\<in>set (t_audiobook (sv_db s)). CHR 0x1F \<notin> set (ab_ID a) \<and> reads_back (he_pg env) (rq_query r ''sort'') a"
    and "length (t_audiobook (sv_db s)) \<le> fuel"
  shows "client_pages (\<lambda>r. Handler env dp r Catalog) r fuel [] s =
    map (\<lambda>a. toSummary a (library_names (sv_db s))) (sort_by (listing_order (he_pg env) (catalog_params r))
      (filter (\<lambda>a. visible (sv_db s) a \<and>
        (parseLibraryPathID r > 0 \<longrightarrow> ab_LibraryPathID a = parseLibraryPathID r)) (t_audiobook (sv_db s))))"
proof -
  let ?p = "catalog_params r"
  have params: "catalog_params (at_cursor r cur) = ?p\<lparr>p_Cursor := cur\<rparr>" for cur
    by (simp add: catalog_params_def at_cursor_def parseLibraryPathID_def)
  have srt: "rq_query (at_cursor r cur) ''sort'' = rq_query r ''sort''" for cur
    by (simp add: at_cursor_def)
  have h: "Handler env dp (at_cursor r cur) Catalog = (\<lambda>s. case run_stmt (list_query (he_pg env) (\<lambda>a. True) (?p\<lparr>p_Cursor := cur\<rparr>)) s of
        (Inl e, s1) \<Rightarrow> ((500, BStoreError e), s1)
      | (Inr books, s1) \<Rightarrow>
          (let (names, s2) = libraryNameMap s1 in ((200, list_envelope books (rq_query r ''sort'') names), s2)))" for cur
    using assms(4)
    by (simp add: fun_eq_iff Handler_def host_routes_def handleListCatalog_def params ListActiveAudiobooks_def srt
        split: prod.split sum.split)
  have "client_pages (\<lambda>r. Handler env dp r Catalog) r fuel [] s =
      map (\<lambda>a. toSummary a (library_names (sv_db s))) (concat (page_walk
        (\<lambda>cur. rows_of (list_query (he_pg env) (\<lambda>a. True) (?p\<lparr>p_Cursor := cur\<rparr>) 0 (sv_db s)))
        (\<lambda>a. EncodeCursor a (rq_query r ''sort'')) fuel []))"
    by (rule client_pages_walk [where fetch = "\<lambda>d cur. rows_of (list_query (he_pg env) (\<lambda>a. True) (?p\<lparr>p_Cursor := cur\<rparr>) 0 d)"])
      (rule listing_request [OF _ h], use assms(3) in auto)
  moreover have "p_Sort ?p = rq_query r ''sort''" and "p_LibraryPathID ?p = parseLibraryPathID r"
    by (simp_all add: catalog_params_def)
  ultimately show ?thesis
    using catalog_order.list_query_walk [OF assms(1,2) _ _ assms(6), of ?p "\<lambda>a. True" 0] assms(5)
    by (simp add: listed_def)
qed

definition host_sample :: "unit Deps" where
  "host_sample = \<lparr>dp_StandaloneOn = False, dp_StreamSecret = [], dp_Scan = None\<rparr>"

definition newest_first :: request where
  "newest_first = sample_request [(''sort'', ''added''), (''order'', ''desc''), (''limit'', ''1'')]"

theorem api_catalog_complete_witness:
  "client_pages (\<lambda>r. Handler (sample_http\<lparr>he_pg := c_server (\<lambda>s. Some 5000)\<rparr>) host_sample r Catalog) newest_first 3 []
      (quiet_server sample_db :: (unit, json) server_state) =
     map (\<lambda>a. toSummary a (library_names (sample_db :: (unit, json) db)))
       [sample_book ''a1'' 1 ''/m/one/a.mp3'' ''Alpha'' ''Ann'', sample_book ''b2'' 1 ''/m/one/b.m4b'' ''Beta'' ''Ann'']"
  using api_catalog_complete [of "sample_http\<lparr>he_pg := c_server (\<lambda>s. Some 5000)\<rparr>"
      "quiet_server sample_db :: (unit, json) server_state" host_sample newest_first 3]
    c_locale.catalog_order_axioms [of "\<lambda>s. Some 5000"] sample_db_inv
  by (simp add: quiet_server_def host_sample_def newest_first_def sample_request_def sample_db_def empty_db_def sample_book_def
      catalog_params_def parseLimit_def parseLibraryPathID_def reads_back_def resolveSort_def
      column_def c_server_def visible_def enabled_library_def listing_order_def row_lt_def lex_lt_def
      row_key_def order_dir_def dir_lt_def)

text \<open>
  Paging through a search with a sort loses books: the search ignores the requested sort, but the
  cursor it returns carries the value of the sort column, which the next request compares with titles.
  Here two books match; a single request for ten results returns both, and a client that reads page by page
  with \<^verbatim>\<open>sort=author\<close> never sees the second.
\<close>

definition two_books :: "(unit, json) server_state" where
  "two_books = quiet_server (sample_db\<lparr>t_audiobook := [sample_book ''a1'' 1 ''/m/one/a.mp3'' ''Alpha'' ''Zoe'',
     sample_book ''b2'' 1 ''/m/one/b.m4b'' ''Beta'' ''Ann'']\<rparr>)"

definition search_by_author :: "string \<Rightarrow> request" where
  "search_by_author limit = sample_request [(''q'', ''a''), (''sort'', ''author''), (''limit'', limit)]"

theorem search_sort_loses_books:
  "map sm_ID (client_pages (\<lambda>r. Handler sample_http host_sample r CatalogSearch) (search_by_author ''10'') 1 [] two_books)
     = [''a1'', ''b2''] \<and>
   map sm_ID (client_pages (\<lambda>r. Handler sample_http host_sample r CatalogSearch) (search_by_author ''1'') 3 [] two_books)
     = [''a1'']"
  by (intro conjI; code_simp)

end
