(* ===== verification/Scheduler.thy ===== *)
theory Scheduler
  imports Go_Strings "HOL-Library.Multiset"
begin

text \<open>
  Scheduled tasks, \<^verbatim>\<open>internal/scheduler/tasks.go\<close>. A call of \<open>Run\<close> that starts a task is in progress
  until the task returns, so it is split at that point: \<open>Run_enter\<close> is the code up to the call of the task
  function, \<open>Run_exit\<close> the deferred code after it. Calls of different requests interleave; scans also come
  from the admin page, and all scans take the mutex of \<^verbatim>\<open>runScan\<close> in \<^verbatim>\<open>main.go\<close>.
\<close>


section \<open>tasks.go\<close>

definition taskID :: "string \<Rightarrow> string" where
  "taskID key = (case LastIndexByte key CHR '':'' of Some i \<Rightarrow> drop (Suc i) key | None \<Rightarrow> key)"

datatype task = LibraryScan | EnrichmentDrain

text \<open>Which task functions are set, and the two guards.\<close>

record Tasks =
  tk_ScanFn :: bool
  tk_DrainFn :: bool
  tk_running :: bool
  tk_draining :: bool

text \<open>What a call does: return at once, with nil or with the error, or run a task.\<close>

datatype run_entry = Returns | UnknownTaskKey | Runs task

definition Run_enter :: "string \<Rightarrow> Tasks option \<Rightarrow> run_entry \<times> Tasks option" where
  "Run_enter key t =
     (if taskID key = ''library_scan'' then
        (case t of
           None \<Rightarrow> (Returns, t)
         | Some tk \<Rightarrow>
             if \<not> tk_ScanFn tk then (Returns, t)
             else if tk_running tk then (Returns, t)
             else (Runs LibraryScan, Some (tk\<lparr>tk_running := True\<rparr>)))
      else if taskID key = ''metadata_enrichment_worker'' then
        (case t of
           None \<Rightarrow> (Returns, t)
         | Some tk \<Rightarrow>
             if \<not> tk_DrainFn tk then (Returns, t)
             else if tk_draining tk then (Returns, t)
             else (Runs EnrichmentDrain, Some (tk\<lparr>tk_draining := True\<rparr>)))
      else (UnknownTaskKey, t))"

fun Run_exit :: "task \<Rightarrow> Tasks \<Rightarrow> Tasks" where
  "Run_exit LibraryScan tk = tk\<lparr>tk_running := False\<rparr>"
| "Run_exit EnrichmentDrain tk = tk\<lparr>tk_draining := False\<rparr>"

text \<open>
  A key of the host, \<^verbatim>\<open>plugin:<installation>:<task>\<close>, and the bare name select the same task.
\<close>

lemma taskID_prefixed: "CHR '':'' \<notin> set name \<Longrightarrow> taskID (host @ '':'' @ name) = name"
  by (simp add: taskID_def LastIndexByte_append)

lemma taskID_bare: "CHR '':'' \<notin> set name \<Longrightarrow> taskID name = name"
  by (simp add: taskID_def LastIndexByte_None [THEN iffD2])


section \<open>Calls in progress\<close>

datatype caller = Scheduled | Admin

text \<open>
  The guards, the callers waiting for the scan mutex, the one that holds it, and the drains the
  scheduler has in progress.
\<close>

record sched_state =
  sc_tasks :: Tasks
  sc_waiting :: "caller multiset"
  sc_holder :: "caller option"
  sc_drains :: nat

text \<open>
  One step of any call. The rules are the points where calls can interleave: entering \<open>Run\<close> (its guard is
  one compare-and-swap), an admin request reaching the mutex, taking and releasing the mutex, and a
  task returning.
\<close>

inductive sched_step :: "sched_state \<Rightarrow> sched_state \<Rightarrow> bool" where
  dropped: "Run_enter key (Some (sc_tasks s)) = (r, t) \<Longrightarrow> r = Returns \<or> r = UnknownTaskKey \<Longrightarrow> sched_step s s"
| tick_scan: "Run_enter key (Some (sc_tasks s)) = (Runs LibraryScan, Some t) \<Longrightarrow>
    sched_step s (s\<lparr>sc_tasks := t, sc_waiting := add_mset Scheduled (sc_waiting s)\<rparr>)"
| tick_drain: "Run_enter key (Some (sc_tasks s)) = (Runs EnrichmentDrain, Some t) \<Longrightarrow>
    sched_step s (s\<lparr>sc_tasks := t, sc_drains := Suc (sc_drains s)\<rparr>)"
| admin_scan: "sched_step s (s\<lparr>sc_waiting := add_mset Admin (sc_waiting s)\<rparr>)"
| lock: "sc_holder s = None \<Longrightarrow> c \<in># sc_waiting s \<Longrightarrow>
    sched_step s (s\<lparr>sc_holder := Some c, sc_waiting := sc_waiting s - {#c#}\<rparr>)"
| unlock_scheduled: "sc_holder s = Some Scheduled \<Longrightarrow>
    sched_step s (s\<lparr>sc_holder := None, sc_tasks := Run_exit LibraryScan (sc_tasks s)\<rparr>)"
| unlock_admin: "sc_holder s = Some Admin \<Longrightarrow> sched_step s (s\<lparr>sc_holder := None\<rparr>)"
| drain_done: "sc_drains s = Suc n \<Longrightarrow>
    sched_step s (s\<lparr>sc_drains := n, sc_tasks := Run_exit EnrichmentDrain (sc_tasks s)\<rparr>)"

definition idle :: sched_state where
  "idle = \<lparr>sc_tasks = \<lparr>tk_ScanFn = True, tk_DrainFn = True, tk_running = False, tk_draining = False\<rparr>,
     sc_waiting = {#}, sc_holder = None, sc_drains = 0\<rparr>"

definition scheduled_scans :: "sched_state \<Rightarrow> nat" where
  "scheduled_scans s = count (sc_waiting s) Scheduled + (if sc_holder s = Some Scheduled then 1 else 0)"

definition sched_inv :: "sched_state \<Rightarrow> bool" where
  "sched_inv s \<longleftrightarrow> scheduled_scans s = (if tk_running (sc_tasks s) then 1 else 0) \<and>
     sc_drains s = (if tk_draining (sc_tasks s) then 1 else 0) \<and>
     tk_ScanFn (sc_tasks s) \<and> tk_DrainFn (sc_tasks s)"

lemma Run_enter_scan:
  "Run_enter key (Some tk) = (Runs LibraryScan, Some t) \<Longrightarrow> \<not> tk_running tk \<and> t = tk\<lparr>tk_running := True\<rparr>"
  by (auto simp: Run_enter_def split: if_splits)

lemma Run_enter_drain:
  "Run_enter key (Some tk) = (Runs EnrichmentDrain, Some t) \<Longrightarrow> \<not> tk_draining tk \<and> t = tk\<lparr>tk_draining := True\<rparr>"
  by (auto simp: Run_enter_def split: if_splits)

lemma sched_step_inv: "sched_step s s' \<Longrightarrow> sched_inv s \<Longrightarrow> sched_inv s'"
proof (induction rule: sched_step.induct)
  case (lock s c)
  then show ?case
    by (cases c) (auto simp: sched_inv_def scheduled_scans_def simp flip: count_greater_zero_iff split: if_splits)
qed (auto simp: sched_inv_def scheduled_scans_def dest!: Run_enter_scan Run_enter_drain split: if_splits)

lemma sched_reach_inv: "sched_step\<^sup>*\<^sup>* idle s \<Longrightarrow> sched_inv s"
proof (induction rule: rtranclp_induct)
  case base
  show ?case by (simp add: sched_inv_def idle_def scheduled_scans_def)
next
  case (step s t)
  then show ?case by (blast intro: sched_step_inv)
qed


definition one_tick :: sched_state where
  "one_tick = idle\<lparr>sc_tasks := (sc_tasks idle)\<lparr>tk_running := True\<rparr>, sc_waiting := {#Scheduled#}\<rparr>"


text \<open>
  The calls never deadlock: while a scan waits or runs, or a drain runs, some call can move on.
\<close>

lemma sched_progress:
  assumes "sc_waiting s \<noteq> {#} \<or> sc_holder s \<noteq> None \<or> sc_drains s > 0"
  shows "\<exists>s'. sched_step s s' \<and> s' \<noteq> s"
proof (cases "sc_holder s")
  case None
  with assms consider c where "c \<in># sc_waiting s" | n where "sc_drains s = Suc n"
    by (auto simp: gr0_conv_Suc dest: multiset_nonemptyE)
  then show ?thesis
  proof cases
    case 1
    with sched_step.lock [OF None] None show ?thesis by (force dest: arg_cong [where f = sc_holder])
  next
    case 2
    from sched_step.drain_done [OF this] 2 show ?thesis by (force dest: arg_cong [where f = sc_drains])
  qed
next
  case (Some c)
  with sched_step.unlock_scheduled [of s] sched_step.unlock_admin [of s] show ?thesis
    by (cases c) (force dest: arg_cong [where f = sc_holder])+
qed

end
