(* ===== verification/Migrate.thy ===== *)
theory Migrate
  imports Listing
begin

text \<open>
  The migration runner, \<^verbatim>\<open>internal/migrate/migrate.go\<close>. A migration file is its name and the effect of its
  SQL on the schema \<open>'d\<close>, which may fail. Every statement can be lost to the connection, before or after
  the server has carried it out; inside a transaction that makes no difference, because the transaction
  is rolled back.
\<close>


section \<open>The database\<close>

datatype link = Works | LostBefore | LostAfter

text \<open>
  \<open>sd_versions\<close> is the table \<^verbatim>\<open>schema_migration\<close>, \<open>None\<close> before it exists; \<open>sd_calls\<close> counts statements.
\<close>

record 'd schema_db =
  sd_versions :: "string list option"
  sd_data :: 'd
  sd_calls :: nat
  sd_link :: "nat \<Rightarrow> link"

type_synonym 'd migration = "string \<times> ('d \<Rightarrow> 'd option)"

datatype migrate_error =
    ConnectFailed
  | BookkeepingFailed
  | BeginFailed
  | ApplyFailed string
  | RecordFailed string
  | CommitFailed string

definition next_link :: "'d schema_db \<Rightarrow> link" where
  "next_link s = sd_link s (sd_calls s)"

definition tick :: "'d schema_db \<Rightarrow> 'd schema_db" where
  "tick s = s\<lparr>sd_calls := Suc (sd_calls s)\<rparr>"


section \<open>migrate.go\<close>

definition is_up :: "string \<Rightarrow> bool" where
  "is_up name \<longleftrightarrow> HasSuffix name ''.up.sql''"

definition version_of :: "string \<Rightarrow> string" where
  "version_of name = TrimSuffix name ''.up.sql''"

text \<open>\<^verbatim>\<open>sort.Strings\<close> over the names.\<close>

definition ups :: "'d migration list \<Rightarrow> 'd migration list" where
  "ups files = sort_by (\<lambda>a b. byte_lt (fst a) (fst b)) (filter (\<lambda>f. is_up (fst f)) files)"

text \<open>The lookup: any error, also a lost connection, counts as not applied.\<close>

definition already_applied :: "string \<Rightarrow> 'd schema_db \<Rightarrow> bool" where
  "already_applied version s \<longleftrightarrow> next_link s = Works \<and> (\<exists>vs\<in>set_option (sd_versions s). version \<in> set vs)"

text \<open>One transaction: begin, the script, the bookkeeping row, commit.\<close>

definition apply_one :: "'d migration \<Rightarrow> 'd schema_db \<Rightarrow> migrate_error option \<times> 'd schema_db" where
  "apply_one f s =
     (let name = fst f; version = version_of name;
          s1 = tick s; s2 = tick s1; s3 = tick s2; s4 = tick s3
      in if next_link s \<noteq> Works then (Some BeginFailed, s1)
         else (case (if next_link s1 = Works then snd f (sd_data s) else None) of
           None \<Rightarrow> (Some (ApplyFailed name), s2)
         | Some d \<Rightarrow>
             (case sd_versions s of
                None \<Rightarrow> (Some (RecordFailed name), s3)
              | Some vs \<Rightarrow>
                  if next_link s2 \<noteq> Works \<or> version \<in> set vs then (Some (RecordFailed name), s3)
                  else (case next_link s3 of
                      Works \<Rightarrow> (None, s4\<lparr>sd_data := d, sd_versions := Some (vs @ [version])\<rparr>)
                    | LostBefore \<Rightarrow> (Some (CommitFailed name), s4)
                    | LostAfter \<Rightarrow> (Some (CommitFailed name), s4\<lparr>sd_data := d, sd_versions := Some (vs @ [version])\<rparr>)))))"

fun run_ups :: "'d migration list \<Rightarrow> 'd schema_db \<Rightarrow> migrate_error option \<times> 'd schema_db" where
  "run_ups [] s = (None, s)"
| "run_ups (f # fs) s =
     (if already_applied (version_of (fst f)) s then run_ups fs (tick s)
      else case apply_one f (tick s) of
             (Some e, s') \<Rightarrow> (Some e, s')
           | (None, s') \<Rightarrow> run_ups fs s')"

text \<open>The first call is the connect, the second the bookkeeping DDL.\<close>

definition create_table :: "'d schema_db \<Rightarrow> 'd schema_db" where
  "create_table s = s\<lparr>sd_versions := (case sd_versions s of None \<Rightarrow> Some [] | Some vs \<Rightarrow> Some vs)\<rparr>"

definition migrate_Run :: "'d migration list \<Rightarrow> 'd schema_db \<Rightarrow> migrate_error option \<times> 'd schema_db" where
  "migrate_Run files s =
     (if next_link s \<noteq> Works then (Some ConnectFailed, tick s)
      else let s1 = tick s in
      (case next_link s1 of
         Works \<Rightarrow> run_ups (ups files) (tick (create_table s1))
       | LostBefore \<Rightarrow> (Some BookkeepingFailed, tick s1)
       | LostAfter \<Rightarrow> (Some BookkeepingFailed, tick (create_table s1))))"


section \<open>Properties\<close>

text \<open>The scripts run in order, each on the result of the one before.\<close>

fun run_scripts :: "'d migration list \<Rightarrow> 'd \<Rightarrow> 'd option" where
  "run_scripts [] d = Some d"
| "run_scripts (f # fs) d = (case snd f d of None \<Rightarrow> None | Some d' \<Rightarrow> run_scripts fs d')"

definition versions :: "'d schema_db \<Rightarrow> string list" where
  "versions s = (case sd_versions s of None \<Rightarrow> [] | Some vs \<Rightarrow> vs)"

text \<open>
  From \<open>s\<close> to \<open>s'\<close> exactly the migrations \<open>done\<close> were carried out: recorded once each, in order, none of
  them recorded before, and the schema is the result of running them.
\<close>

definition carried_out :: "'d migration list \<Rightarrow> 'd schema_db \<Rightarrow> 'd schema_db \<Rightarrow> bool" where
  "carried_out done s s' \<longleftrightarrow>
     versions s' = versions s @ map (version_of \<circ> fst) done \<and>
     run_scripts done (sd_data s) = Some (sd_data s') \<and>
     distinct (map (version_of \<circ> fst) done) \<and> set (map (version_of \<circ> fst) done) \<inter> set (versions s) = {}"

lemma tick_simps [simp]:
  "sd_versions (tick s) = sd_versions s" "sd_data (tick s) = sd_data s" "versions (tick s) = versions s"
  "sd_link (tick s) = sd_link s"
  by (simp_all add: tick_def versions_def)

lemma carried_out_none: "sd_data s' = sd_data s \<Longrightarrow> versions s' = versions s \<Longrightarrow> carried_out [] s s'"
  by (simp add: carried_out_def)

lemma carried_out_Cons:
  "carried_out [f] s s1 \<Longrightarrow> carried_out done s1 s' \<Longrightarrow> carried_out (f # done) s s'"
  by (auto simp: carried_out_def split: option.splits)

lemma carried_out_cong:
  "carried_out done s s' \<Longrightarrow> sd_data s0 = sd_data s \<Longrightarrow> versions s0 = versions s \<Longrightarrow> carried_out done s0 s'"
  by (simp add: carried_out_def)

lemma apply_one_cases:
  assumes "apply_one f s = (r, s')"
  obtains (none) "carried_out [] s s'" and "r \<noteq> None" | (one) "carried_out [f] s s'" and "r = None \<or> (\<exists>n. r = Some (CommitFailed n))"
proof (cases "carried_out [f] s s'")
  case False
  then have "sd_data s' = sd_data s" "versions s' = versions s" "r \<noteq> None"
    using assms
    by (auto simp: apply_one_def Let_def carried_out_def versions_def split: if_splits option.splits link.splits)
  with none show thesis by (simp add: carried_out_none)
next
  case True
  show thesis
  proof (cases "r = None \<or> (\<exists>n. r = Some (CommitFailed n))")
    case c: True
    show thesis by (rule one [OF True c])
  next
    case c: False
    then have "sd_data s' = sd_data s" "versions s' = versions s" "r \<noteq> None"
      using assms
      by (auto simp: apply_one_def Let_def versions_def split: if_splits option.splits link.splits)
    with none show thesis by (simp add: carried_out_none)
  qed
qed

lemma run_ups_carried_out:
  assumes "run_ups fs s = (r, s')"
  shows "\<exists>done. subseq done fs \<and> carried_out done s s' \<and>
    (r = None \<longrightarrow> version_of ` fst ` set fs \<subseteq> set (versions s'))"
  using assms
proof (induction fs arbitrary: s)
  case Nil
  then show ?case by (auto simp: carried_out_none)
next
  case (Cons f fs)
  show ?case
  proof (cases "already_applied (version_of (fst f)) s")
    case True
    from Cons.IH [of "tick s"] Cons.prems True obtain ms where ms: "subseq ms fs" "carried_out ms (tick s) s'"
      "r = None \<longrightarrow> version_of ` fst ` set fs \<subseteq> set (versions s')" by auto
    have "carried_out ms s s'" using ms(2) by (rule carried_out_cong) simp_all
    moreover have "version_of (fst f) \<in> set (versions s')"
      using True ms(2) by (auto simp: already_applied_def carried_out_def versions_def)
    ultimately show ?thesis using ms(1,3) by (intro exI [of _ ms]) (auto simp: subseq_Cons')
  next
    case False
    obtain r1 s1 where one: "apply_one f (tick s) = (r1, s1)" by fastforce
    from one show ?thesis
    proof (cases rule: apply_one_cases)
      case none
      with False Cons.prems one have "r \<noteq> None" "carried_out [] s s'"
        by (auto elim: carried_out_cong split: option.splits)
      then show ?thesis by (intro exI [of _ "[]"]) auto
    next
      case o: one
      have c: "carried_out [f] s s1" using o(1) by (rule carried_out_cong) simp_all
      show ?thesis
      proof (cases r1)
        case None
        with False Cons.prems one have "run_ups fs s1 = (r, s')" by simp
        from Cons.IH [OF this] obtain ms where ms: "subseq ms fs" "carried_out ms s1 s'"
          "r = None \<longrightarrow> version_of ` fst ` set fs \<subseteq> set (versions s')" by auto
        have "version_of (fst f) \<in> set (versions s')"
          using c ms(2) by (auto simp: carried_out_def)
        then show ?thesis
          using ms carried_out_Cons [OF c ms(2)] by (intro exI [of _ "f # ms"]) auto
      next
        case (Some e)
        with False Cons.prems one c show ?thesis by (intro exI [of _ "[f]"]) auto
      qed
    qed
  qed
qed

lemma migrate_Run_done:
  assumes "migrate_Run files s = (r, s')"
  obtains ms where "subseq ms (ups files)" and "carried_out ms s s'"
    and "r = None \<Longrightarrow> version_of ` fst ` set (ups files) \<subseteq> set (versions s')"
proof -
  have eq: "versions (create_table s1) = versions s1" "sd_data (create_table s1) = sd_data s1" for s1 :: "'a schema_db"
    by (simp_all add: create_table_def versions_def split: option.split)
  have "\<exists>done. subseq done (ups files) \<and> carried_out done s s' \<and>
    (r = None \<longrightarrow> version_of ` fst ` set (ups files) \<subseteq> set (versions s'))"
  proof (cases "next_link s = Works \<and> next_link (tick s) = Works")
    case True
    with assms have "run_ups (ups files) (tick (create_table (tick s))) = (r, s')"
      by (simp add: migrate_Run_def Let_def)
    from run_ups_carried_out [OF this] show ?thesis
      using carried_out_cong [of _ "tick (create_table (tick s))" s' s] by (auto simp: eq)
  next
    case False
    with assms eq have "r \<noteq> None" "carried_out [] s s'"
      by (auto simp: migrate_Run_def Let_def carried_out_none split: if_splits link.splits)
    then show ?thesis by (intro exI [of _ "[]"]) auto
  qed
  with that show thesis by blast
qed

text \<open>On an up-to-date database whose connection works, a run only looks.\<close>

lemma run_ups_recorded:
  assumes "\<forall>n. sd_link s n = Works" and "\<forall>f\<in>set fs. version_of (fst f) \<in> set (versions s)"
  shows "run_ups fs s = (None, s\<lparr>sd_calls := sd_calls s + length fs\<rparr>)"
  using assms
proof (induction fs arbitrary: s)
  case (Cons f fs)
  then have "already_applied (version_of (fst f)) s"
    by (auto simp: already_applied_def next_link_def versions_def split: option.splits)
  with Cons.prems Cons.IH [of "tick s"] show ?case by (simp add: tick_def versions_def)
qed simp

lemma migrate_Run_recorded:
  assumes "\<forall>n. sd_link s n = Works" and "sd_versions s = Some vs" and "\<forall>f\<in>set files. is_up (fst f) \<longrightarrow> version_of (fst f) \<in> set vs"
  shows "\<exists>n. migrate_Run files s = (None, s\<lparr>sd_calls := n\<rparr>)"
proof -
  let ?s = "tick (create_table (tick s))"
  have s: "?s = s\<lparr>sd_calls := Suc (Suc (sd_calls s))\<rparr>"
    using assms(2) by (simp add: create_table_def tick_def)
  have "run_ups (ups files) ?s = (None, ?s\<lparr>sd_calls := sd_calls ?s + length (ups files)\<rparr>)"
    by (rule run_ups_recorded) (use assms in \<open>auto simp: s versions_def ups_def\<close>)
  with assms(1) have "migrate_Run files s = (None, s\<lparr>sd_calls := sd_calls ?s + length (ups files)\<rparr>)"
    by (simp add: migrate_Run_def Let_def next_link_def s)
  then show ?thesis by blast
qed

text \<open>
  C13. Migrations are applied once and in order, whatever happens to the connection: a run carries out a
  subsequence of the sorted up-files, records exactly those it carried out, leaves the schema as running
  them in that order gives it, and never repeats one that is recorded, not even when the lookup of a
  recorded version fails or a commit is acknowledged too late. When it returns nil, every up-file is
  recorded.
\<close>

theorem migrate_once_in_order:
  assumes "migrate_Run files s = (r, s')"
  shows "\<exists>done. subseq done (ups files) \<and> carried_out done s s' \<and>
    (r = None \<longrightarrow> version_of ` fst ` set (ups files) \<subseteq> set (versions s'))"
  using migrate_Run_done [OF assms] by metis

definition sample_files :: "string list migration list" where
  "sample_files = [(''0002_b.up.sql'', \<lambda>d. Some (d @ [''b''])), (''0001_a.up.sql'', \<lambda>d. Some (d @ [''a''])),
     (''0001_a.down.sql'', \<lambda>d. Some [])]"

text \<open>Here the lookup of the first version fails although it is recorded.\<close>

definition flaky_schema :: "string list schema_db" where
  "flaky_schema = \<lparr>sd_versions = Some [''0001_a''], sd_data = [''a''], sd_calls = 0,
     sd_link = (\<lambda>n. if n = 2 then LostBefore else Works)\<rparr>"

theorem migrate_once_in_order_witness:
  "\<exists>r s'. migrate_Run sample_files flaky_schema = (r, s') \<and> r = Some (RecordFailed ''0001_a.up.sql'') \<and>
     (\<exists>done. subseq done (ups sample_files) \<and> carried_out done flaky_schema s')"
proof -
  obtain r s' where run: "migrate_Run sample_files flaky_schema = (r, s')" by fastforce
  moreover have "fst (migrate_Run sample_files flaky_schema) = Some (RecordFailed ''0001_a.up.sql'')" by code_simp
  ultimately show ?thesis using migrate_once_in_order [OF run] by auto
qed

end
