(* ===== verification/Metadata_Provider.thy ===== *)
theory Metadata_Provider
  imports Aggregator Runtime_Config "HOL-Library.Word"
begin

text \<open>
  The metadata service, \<^verbatim>\<open>internal/grpc/metadataprovider/server.go\<close>, over the aggregator and the registry:
  searching, looking an item up by the id a search returned, and its cover. The protobuf library checks
  that the strings of a struct are UTF-8; that test, the decoding of HTML entities and the JSON text of the
  chapters are arguments (\<open>mp_env\<close>).
\<close>

record mp_env =
  mp_valid_utf8 :: "string \<Rightarrow> bool"
  mp_UnescapeString :: "string \<Rightarrow> string"
  mp_chapters_json :: "CandidateChapter list \<Rightarrow> string option"

datatype code = Unavailable | InvalidArgument | NotFound

datatype mp_error = Status code | SourceFailed src_error | NotUTF8 | ChaptersNotJSON


section \<open>Helpers\<close>

text \<open>\<^verbatim>\<open>reHTMLTag.ReplaceAllString(s, "")\<close> for \<^verbatim>\<open><[^>]+>\<close>: leftmost matches, removed.\<close>

definition tag_at :: "string \<Rightarrow> bool" where
  "tag_at s \<longleftrightarrow> (case s of c # cs \<Rightarrow> c = CHR ''<'' \<and> cs \<noteq> [] \<and> hd cs \<noteq> CHR ''>'' \<and> CHR ''>'' \<in> set cs | [] \<Rightarrow> False)"

function strip_tags :: "string \<Rightarrow> string" where
  "strip_tags [] = []"
| "strip_tags (c # cs) =
     (if tag_at (c # cs) then strip_tags (tl (dropWhile (\<lambda>x. x \<noteq> CHR ''>'') cs)) else c # strip_tags cs)"
  by pat_completeness auto

termination
proof (relation "measure length")
  fix c and cs :: string
  have "length (tl (dropWhile (\<lambda>x. x \<noteq> CHR ''>'') cs)) \<le> length cs"
    using length_dropWhile_le [of "\<lambda>x. x \<noteq> CHR ''>''" cs] by simp
  then show "(tl (dropWhile (\<lambda>x. x \<noteq> CHR ''>'') cs), c # cs) \<in> measure length" by simp
qed simp_all

definition stripHTML :: "mp_env \<Rightarrow> string \<Rightarrow> string" where
  "stripHTML env s = mp_UnescapeString env (strip_tags s)"

definition yearAsInt32 :: "string \<Rightarrow> int" where
  "yearAsInt32 s =
     (if length s < 4 \<or> \<not> list_all is_digit (take 4 s) then 0
      else foldl (\<lambda>y c. y * 10 + int (digit_val c)) 0 (take 4 s))"

text \<open>\<^verbatim>\<open>structpb.NewStruct\<close> over a Go map, which is an association list without duplicate keys here.\<close>

definition NewStruct :: "mp_env \<Rightarrow> (string \<times> pvalue) list \<Rightarrow> mp_error + (string \<times> pvalue) list" where
  "NewStruct env m =
     (if list_all (\<lambda>(k, v). mp_valid_utf8 env k \<and> (case v of VString s \<Rightarrow> mp_valid_utf8 env s | _ \<Rightarrow> True)) m
      then Inr m else Inl NotUTF8)"

definition put_text :: "string \<Rightarrow> string \<Rightarrow> (string \<times> pvalue) list \<Rightarrow> (string \<times> pvalue) list" where
  "put_text k v m = (if v = [] then m else AList.update k (VString v) m)"

definition candidateProviderIDs :: "mp_env \<Rightarrow> Candidate \<Rightarrow> mp_error + (string \<times> pvalue) list" where
  "candidateProviderIDs env c =
     NewStruct env (put_text ''isbn'' (cd_ISBN c) (put_text ''asin'' (cd_ASIN c)
       [(cd_Source c, VString (cd_ExternalID c))]))"

text \<open>The source a provider id names, and its id there.\<close>

definition parseAndLookup :: "Registry \<Rightarrow> string \<Rightarrow> mp_error + Source \<times> string" where
  "parseAndLookup reg i =
     (case ParseExternalID i of
        None \<Rightarrow> Inl (Status InvalidArgument)
      | Some (srcID, nativeID) \<Rightarrow>
          (case ForID reg srcID of
             None \<Rightarrow> Inl (Status NotFound)
           | Some src \<Rightarrow> Inr (src, nativeID)))"


section \<open>Items\<close>

record PersonRecord =
  pe_Name :: string
  pe_Kind :: string

record MetadataItem =
  mi_ProviderId :: string
  mi_ItemType :: string
  mi_Title :: string
  mi_Year :: int
  mi_Overview :: string
  mi_Genres :: "string list"
  mi_ProviderIds :: "(string \<times> pvalue) list"
  mi_PosterPath :: string
  mi_ReleaseDate :: string
  mi_People :: "PersonRecord list"
  mi_Metadata :: "(string \<times> pvalue) list option"
  mi_Runtime :: int

text \<open>The struct of extra fields; \<open>None\<close> when the chapters cannot be written as JSON.\<close>

definition extra_fields :: "mp_env \<Rightarrow> Candidate \<Rightarrow> (string \<times> pvalue) list option" where
  "extra_fields env c =
     (let m = put_text ''publisher'' (cd_Publisher c) (put_text ''region'' (cd_Region c) (put_text ''isbn'' (cd_ISBN c)
                (put_text ''asin'' (cd_ASIN c) (put_text ''language'' (cd_Language c) (put_text ''source'' (cd_Source c) [])))));
          m = (if cd_RuntimeMin c > 0
               then AList.update ''runtime_minutes'' (VNumber (Some (sfl (of_int (cd_RuntimeMin c))))) m else m);
          m = put_text ''series_position'' (cd_SeriesPos c) (put_text ''series_name'' (cd_Series c) m)
      in if cd_Chapters c = [] then Some m
         else map_option (\<lambda>j. AList.update ''chapters_json'' (VString j) m) (mp_chapters_json env (cd_Chapters c)))"

definition candidateToMetadataItem :: "mp_env \<Rightarrow> Candidate \<Rightarrow> string \<Rightarrow> mp_error + MetadataItem" where
  "candidateToMetadataItem env c providerID =
     (case candidateProviderIDs env c of
        Inl e \<Rightarrow> Inl e
      | Inr pids \<Rightarrow>
          (case extra_fields env c of
             None \<Rightarrow> Inl ChaptersNotJSON
           | Some extra \<Rightarrow>
               (case (if extra = [] then Inr None else map_sum id Some (NewStruct env extra)) of
                  Inl e \<Rightarrow> Inl e
                | Inr metaStruct \<Rightarrow>
                    Inr \<lparr>mi_ProviderId = providerID, mi_ItemType = ''audiobook'', mi_Title = cd_Title c,
                      mi_Year = yearAsInt32 (cd_PublishedAt c), mi_Overview = stripHTML env (cd_Description c),
                      mi_Genres = cd_Genres c, mi_ProviderIds = pids, mi_PosterPath = cd_CoverURL c,
                      mi_ReleaseDate = cd_PublishedAt c,
                      mi_People = map (\<lambda>a. \<lparr>pe_Name = a, pe_Kind = ''Author''\<rparr>) (cd_Authors c) @
                        map (\<lambda>n. \<lparr>pe_Name = n, pe_Kind = ''Narrator''\<rparr>) (cd_Narrators c),
                      mi_Metadata = metaStruct,
                      mi_Runtime = sint (word_of_int (cd_RuntimeMin c) :: 32 word)\<rparr>)))"

record ProviderSearchResult =
  sr_ProviderId :: string
  sr_ItemType :: string
  sr_Title :: string
  sr_Year :: int
  sr_Overview :: string
  sr_ProviderIds :: "(string \<times> pvalue) list"
  sr_ImageUrl :: string

definition search_result :: "mp_env \<Rightarrow> Candidate \<Rightarrow> mp_error + ProviderSearchResult" where
  "search_result env c =
     map_sum id (\<lambda>pids. \<lparr>sr_ProviderId = FormatExternalID (cd_Source c) (cd_ExternalID c), sr_ItemType = ''audiobook'',
       sr_Title = cd_Title c, sr_Year = yearAsInt32 (cd_PublishedAt c), sr_Overview = cd_Description c,
       sr_ProviderIds = pids, sr_ImageUrl = cd_CoverURL c\<rparr>) (candidateProviderIDs env c)"

fun search_results :: "mp_env \<Rightarrow> Match list \<Rightarrow> mp_error + ProviderSearchResult list" where
  "search_results env [] = Inr []"
| "search_results env (m # ms) =
     (case search_result env (mt_Candidate m) of
        Inl e \<Rightarrow> Inl e
      | Inr r \<Rightarrow> map_sum id ((#) r) (search_results env ms))"


section \<open>The service\<close>

text \<open>
  The four atomic pointers; the functions behind \<open>pv_enabled\<close> and \<open>pv_region\<close> read the current settings
  when called, so they are what they return.
\<close>

record 'j provider =
  pv_agg :: "'j agg_env option"
  pv_reg :: "Registry option"
  pv_enabled :: "(string \<Rightarrow> bool) option"
  pv_region :: "string option"

definition SetAggregator :: "'j agg_env \<Rightarrow> 'j provider \<Rightarrow> 'j provider" where
  "SetAggregator a p = p\<lparr>pv_agg := Some a\<rparr>"

definition SetRegistry :: "Registry \<Rightarrow> 'j provider \<Rightarrow> 'j provider" where
  "SetRegistry r p = p\<lparr>pv_reg := Some r\<rparr>"

definition SetEnabled :: "(string \<Rightarrow> bool) \<Rightarrow> 'j provider \<Rightarrow> 'j provider" where
  "SetEnabled f p = p\<lparr>pv_enabled := Some f\<rparr>"

definition SetRegion :: "string \<Rightarrow> 'j provider \<Rightarrow> 'j provider" where
  "SetRegion r p = p\<lparr>pv_region := Some r\<rparr>"

definition enabledFn :: "'j provider \<Rightarrow> string \<Rightarrow> bool" where
  "enabledFn p = (case pv_enabled p of None \<Rightarrow> (\<lambda>_. False) | Some f \<Rightarrow> f)"

definition regionFn :: "'j provider \<Rightarrow> string" where
  "regionFn p = (case pv_region p of None \<Rightarrow> ''us'' | Some r \<Rightarrow> r)"

record search_request =
  rs_ItemType :: string
  rs_Query :: string
  rs_ProviderIds :: "(string \<times> pvalue) list option"

definition text_at :: "(string \<times> pvalue) list \<Rightarrow> string \<Rightarrow> string" where
  "text_at m k = (case map_of m k of Some (VString s) \<Rightarrow> s | _ \<Rightarrow> [])"

text \<open>The candidate that the caller's ids describe, if they describe any.\<close>

definition original_of :: "(string \<times> pvalue) list option \<Rightarrow> Candidate option" where
  "original_of pids =
     (case pids of
        None \<Rightarrow> None
      | Some pm \<Rightarrow>
          (let c = zero_candidate\<lparr>cd_ASIN := text_at pm ''asin'', cd_ISBN := text_at pm ''isbn'',
                     cd_Authors := (if text_at pm ''author'' = [] then [] else [text_at pm ''author'']),
                     cd_Narrators := (if text_at pm ''narrator'' = [] then [] else [text_at pm ''narrator''])\<rparr>
           in if cd_ASIN c \<noteq> [] \<or> cd_ISBN c \<noteq> [] \<or> cd_Authors c \<noteq> [] \<or> cd_Narrators c \<noteq> [] then Some c else None))"

text \<open>\<open>order\<close> lists the registered sources in the order in which their searches finish.\<close>

definition provider_Search ::
  "mp_env \<Rightarrow> 'j provider \<Rightarrow> Source list \<Rightarrow> search_request \<Rightarrow> ('j, 'c) server_state \<Rightarrow>
   (mp_error + ProviderSearchResult list) \<times> ('j, 'c) server_state" where
  "provider_Search env p order req s =
     (case pv_agg p of
        None \<Rightarrow> (Inl (Status Unavailable), s)
      | Some agg \<Rightarrow>
          if rs_ItemType req \<noteq> [] \<and> rs_ItemType req \<noteq> ''audiobook'' then (Inr [], s)
          else if rs_Query req = [] then (Inl (Status InvalidArgument), s)
          else (let (matches, s') = aggregator_Search agg order (rs_Query req) (regionFn p) (enabledFn p)
                      (original_of (rs_ProviderIds req)) s
                in (search_results env matches, s')))"

text \<open>Looking one item up: \<open>None\<close> is an answer without an item.\<close>

definition lookup_item :: "'j provider \<Rightarrow> nat \<Rightarrow> string \<Rightarrow> mp_error + Candidate option" where
  "lookup_item p n i =
     (case pv_reg p of
        None \<Rightarrow> Inl (Status Unavailable)
      | Some reg \<Rightarrow>
          if i = [] then Inl (Status InvalidArgument)
          else (case parseAndLookup reg i of
            Inl e \<Rightarrow> Inl e
          | Inr (src, nativeID) \<Rightarrow>
              (case s_Get src n nativeID (regionFn p) of
                 Inl e \<Rightarrow> if e = SourcesErrNotFound then Inr None else Inl (SourceFailed e)
               | Inr cand \<Rightarrow> Inr cand)))"

definition GetMetadata :: "mp_env \<Rightarrow> 'j provider \<Rightarrow> nat \<Rightarrow> string \<Rightarrow> mp_error + MetadataItem option" where
  "GetMetadata env p n i =
     (case lookup_item p n i of
        Inl e \<Rightarrow> Inl e
      | Inr None \<Rightarrow> Inr None
      | Inr (Some c) \<Rightarrow> map_sum id Some (candidateToMetadataItem env c i))"

record ImageRecord =
  ir_Kind :: string
  ir_Url :: string

definition GetImages :: "'j provider \<Rightarrow> nat \<Rightarrow> string \<Rightarrow> mp_error + ImageRecord list" where
  "GetImages p n i =
     (case lookup_item p n i of
        Inl e \<Rightarrow> Inl e
      | Inr None \<Rightarrow> Inr []
      | Inr (Some c) \<Rightarrow> if cd_CoverURL c = [] then Inr [] else Inr [\<lparr>ir_Kind = ''poster'', ir_Url = cd_CoverURL c\<rparr>])"

definition ResolveImageURL :: "string \<Rightarrow> string" where
  "ResolveImageURL path = path"


section \<open>Properties\<close>

lemma ParseExternalID_Format:
  "CHR '':'' \<notin> set source \<Longrightarrow> source \<noteq> [] \<Longrightarrow> native \<noteq> [] \<Longrightarrow>
     ParseExternalID (FormatExternalID source native) = Some (source, native)"
  by (auto simp: ParseExternalID_def FormatExternalID_def IndexByte_append)

lemma search_results_map:
  "search_results env ms = Inr rs \<Longrightarrow> list_all2 (\<lambda>m r. search_result env (mt_Candidate m) = Inr r) ms rs"
proof (induction ms arbitrary: rs)
  case (Cons m ms)
  then show ?case
    by (cases "search_result env (mt_Candidate m)"; cases "search_results env ms") auto
qed simp


definition indexed_candidate :: Candidate where
  "indexed_candidate = sample_candidate\<lparr>cd_Source := ''audnexus'', cd_ExternalID := ''B000000001''\<rparr>"

definition indexed_source :: Source where
  "indexed_source = (sample_source ''audnexus'')\<lparr>s_Search := (\<lambda>n q region. Inr [indexed_candidate])\<rparr>"

definition sample_provider :: "Candidate list provider" where
  "sample_provider = SetRegistry (Register [] indexed_source) (SetAggregator sample_agg_env
     \<lparr>pv_agg = None, pv_reg = None, pv_enabled = Some (\<lambda>i. True), pv_region = None\<rparr>)"

definition sample_mp :: mp_env where
  "sample_mp = \<lparr>mp_valid_utf8 = (\<lambda>s. True), mp_UnescapeString = id, mp_chapters_json = (\<lambda>cs. None)\<rparr>"

definition sample_mp_request :: search_request where
  "sample_mp_request = \<lparr>rs_ItemType = ''audiobook'', rs_Query = ''Alpha'', rs_ProviderIds = None\<rparr>"

lemma sample_matches:
  "fst (aggregator_Search sample_agg_env [indexed_source] ''Alpha'' region enabled original (sample_search_server True)) =
     [\<lparr>mt_Source = ''audnexus'', mt_Confidence = CalculateConfidence ascii_unicode ''Alpha'' indexed_candidate original,
       mt_Candidate = indexed_candidate\<rparr>]"
  by (simp add: fst_aggregator_Search sample_search_defs indexed_source_def indexed_candidate_def top_matches_def MaxResults_def)


text \<open>
  The description of an item carries no markup: after the tags are removed, no tag is left at any
  place of the text (entities are decoded after that).
\<close>

theorem stripped_text_has_no_tag:
  "strip_tags s = xs @ ys \<Longrightarrow> \<not> tag_at ys"
proof (induction s arbitrary: xs rule: strip_tags.induct)
  case 1
  then show ?case by (simp add: tag_at_def)
next
  case (2 c cs)
  have sub: "set (strip_tags cs) \<subseteq> set cs" for cs
  proof (induction cs rule: strip_tags.induct)
    case (2 c cs)
    have "set (tl zs) \<subseteq> set zs" for zs :: string by (cases zs) auto
    moreover have "set (dropWhile (\<lambda>x. x \<noteq> CHR ''>'') cs) \<subseteq> set cs" by (auto dest: set_dropWhileD)
    ultimately have "set (tl (dropWhile (\<lambda>x. x \<noteq> CHR ''>'') cs)) \<subseteq> set cs" by blast
    with 2 show ?case by auto
  qed simp
  show ?case
  proof (cases "tag_at (c # cs)")
    case True
    with 2(1,3) show ?thesis by simp
  next
    case False
    show ?thesis
    proof (cases xs)
      case Nil
      have "strip_tags (CHR ''>'' # ds) = CHR ''>'' # strip_tags ds" for ds
        by (simp add: tag_at_def)
      with False Nil 2(3) sub [of cs] show ?thesis
        by (cases cs) (auto simp: tag_at_def)
    next
      case (Cons x xs')
      with False 2(2,3) show ?thesis by simp
    qed
  qed
qed

theorem stripped_text_has_no_tag_witness:
  "strip_tags ''a<b>c<'' = ''ac'' @ ''<'' \<and> \<not> tag_at ''<''"
proof
  show "strip_tags ''a<b>c<'' = ''ac'' @ ''<''" by code_simp
  then show "\<not> tag_at ''<''" by (rule stripped_text_has_no_tag)
qed

end
