(* ===== verification/Source_Http.thy ===== *)
theory Source_Http
  imports Aggregator Json Runtime_Config
begin

text \<open>
  What the metadata sources share: \<^verbatim>\<open>sources/source.go\<close>, the escaping of URL parts, decoding of JSON
  structs and slices, and the regular expressions the scrapers use. The network is an argument: what a
  request is answered with depends on the occasion and the URL.
\<close>


section \<open>The surroundings of a source\<close>

text \<open>
  \<open>sn_net\<close> answers a GET with a status and a body, or fails. \<open>sn_json\<close> parses JSON text, \<open>sn_wide\<close> converts
  floats outside the range of \<^verbatim>\<open>int\<close>, and \<open>sn_order\<close> is the order in which ranging over a map visits its values.
\<close>

record source_env =
  sn_net :: "nat \<Rightarrow> string \<Rightarrow> src_error + int \<times> bytes"
  sn_json :: "bytes \<Rightarrow> json option"
  sn_unicode :: unicode
  sn_wide :: "rat option \<Rightarrow> int"
  sn_order :: "json list \<Rightarrow> json list"

definition SoftLimit :: nat where
  "SoftLimit = 1048576"

definition maxTraverseDepth :: nat where
  "maxTraverseDepth = 64"

definition status_error :: "string \<Rightarrow> int \<Rightarrow> string" where
  "status_error url code = ''source: GET '' @ url @ '' status '' @ FormatInt code"

definition GetJSON :: "source_env \<Rightarrow> nat \<Rightarrow> string \<Rightarrow> src_error + bytes" where
  "GetJSON env n url =
     (case sn_net env n url of
        Inl e \<Rightarrow> Inl e
      | Inr (code, body) \<Rightarrow>
          if code = 404 then Inl SourcesErrNotFound
          else if code < 200 \<or> code \<ge> 300 then Inl (SrcOther (status_error url code))
          else Inr (take SoftLimit body))"

text \<open>\<^verbatim>\<open>UnmarshalInto\<close>, with the decoder of the target type.\<close>

definition UnmarshalInto :: "source_env \<Rightarrow> (json \<Rightarrow> 'a option) \<Rightarrow> bytes \<Rightarrow> src_error + 'a" where
  "UnmarshalInto env dec body =
     (case sn_json env body of
        None \<Rightarrow> Inl (SrcOther ''source: json decode'')
      | Some v \<Rightarrow> (case dec v of None \<Rightarrow> Inl (SrcOther ''source: json decode'') | Some x \<Rightarrow> Inr x))"


section \<open>URLs\<close>

definition unreserved :: "char \<Rightarrow> bool" where
  "unreserved c \<longleftrightarrow> is_digit c \<or> (65 \<le> byte_of c \<and> byte_of c \<le> 90) \<or> (97 \<le> byte_of c \<and> byte_of c \<le> 122) \<or>
     c \<in> set ''-_.~''"

definition upper_hex :: "nat \<Rightarrow> char" where
  "upper_hex d = ''0123456789ABCDEF'' ! d"

definition percent :: "char \<Rightarrow> string" where
  "percent c = [CHR ''%'', upper_hex (byte_of c div 16), upper_hex (byte_of c mod 16)]"

definition QueryEscape :: "string \<Rightarrow> string" where
  "QueryEscape s = concat (map (\<lambda>c. if unreserved c then [c] else if c = CHR '' '' then ''+'' else percent c) s)"

definition PathEscape :: "string \<Rightarrow> string" where
  "PathEscape s = concat (map (\<lambda>c. if unreserved c \<or> c \<in> set ''$&+=:@'' then [c] else percent c) s)"

definition asinRE :: "string \<Rightarrow> bool" where
  "asinRE q \<longleftrightarrow> take 2 q = ''B0'' \<and> length q = 10 \<and> list_all upper_digit (drop 2 q)"


section \<open>Decoding\<close>

text \<open>
  A slice is decoded over the elements it has: \<open>dec\<close> decodes one element over the old value, which is
  \<open>zero\<close> beyond them. \<^verbatim>\<open>null\<close> makes the slice nil, which only matters where the code tests for nil.
\<close>

fun decode_items :: "(json \<Rightarrow> 'a \<Rightarrow> 'a option) \<Rightarrow> 'a \<Rightarrow> 'a list \<Rightarrow> json list \<Rightarrow> 'a list option" where
  "decode_items dec zero old [] = Some []"
| "decode_items dec zero old (v # vs) =
     (case dec v (case old of [] \<Rightarrow> zero | x # _ \<Rightarrow> x) of
        None \<Rightarrow> None
      | Some x \<Rightarrow> map_option ((#) x) (decode_items dec zero (tl old) vs))"

definition decode_nilable :: "(json \<Rightarrow> 'a \<Rightarrow> 'a option) \<Rightarrow> 'a \<Rightarrow> json \<Rightarrow> 'a list option \<Rightarrow> 'a list option option" where
  "decode_nilable dec zero v old =
     (case v of
        JArr vs \<Rightarrow> map_option Some (decode_items dec zero (case old of None \<Rightarrow> [] | Some xs \<Rightarrow> xs) vs)
      | JNull \<Rightarrow> Some None
      | _ \<Rightarrow> None)"

definition decode_slice :: "(json \<Rightarrow> 'a \<Rightarrow> 'a option) \<Rightarrow> 'a \<Rightarrow> json \<Rightarrow> 'a list \<Rightarrow> 'a list option" where
  "decode_slice dec zero v old =
     map_option (\<lambda>r. case r of None \<Rightarrow> [] | Some xs \<Rightarrow> xs) (decode_nilable dec zero v (Some old))"

text \<open>A pointer to a struct: \<^verbatim>\<open>null\<close> makes it nil, an object is decoded into a new or the old struct.\<close>

definition decode_pointer :: "(json \<Rightarrow> 'a \<Rightarrow> 'a option) \<Rightarrow> 'a \<Rightarrow> json \<Rightarrow> 'a option \<Rightarrow> 'a option option" where
  "decode_pointer dec zero v old =
     (if v = JNull then Some None else map_option Some (dec v (case old of None \<Rightarrow> zero | Some x \<Rightarrow> x)))"

text \<open>A struct with the one field \<^verbatim>\<open>name\<close>.\<close>

definition decode_name :: "unicode \<Rightarrow> json \<Rightarrow> string \<Rightarrow> string option" where
  "decode_name u v old = decode_struct u [''name''] (\<lambda>f w x. decode_string w x) v old"

definition decode_names :: "unicode \<Rightarrow> json \<Rightarrow> string list \<Rightarrow> string list option" where
  "decode_names u = decode_slice (decode_name u) []"


section \<open>Untyped JSON\<close>

text \<open>
  An object decoded into \<^verbatim>\<open>map[string]any\<close>: of two members with the same key the later one counts.
\<close>

definition field :: "(string \<times> json) list \<Rightarrow> string \<Rightarrow> json option" where
  "field m k = map_of (rev m) k"

definition map_values :: "(string \<times> json) list \<Rightarrow> json list" where
  "map_values m = map snd (fold (\<lambda>(k, v) acc. AList.update k v acc) m [])"

definition has_field :: "(string \<times> json) list \<Rightarrow> string \<Rightarrow> bool" where
  "has_field m k \<longleftrightarrow> field m k \<noteq> None"

definition stringField :: "(string \<times> json) list \<Rightarrow> string \<Rightarrow> string" where
  "stringField m k = (case field m k of Some (JStr s) \<Rightarrow> s | _ \<Rightarrow> [])"

definition float_of :: "json \<Rightarrow> rat option" where
  "float_of v = (case v of JInt n \<Rightarrow> Some (sfl (of_int n)) | JDec q \<Rightarrow> Some (sfl q) | _ \<Rightarrow> None)"

definition float_int :: "source_env \<Rightarrow> rat \<Rightarrow> int" where
  "float_int env q = (if is_int64 (go_trunc q) then go_trunc q else sn_wide env (Some q))"

text \<open>
  A document decodes into \<^verbatim>\<open>any\<close> only if every number in it rounds to a finite \<^verbatim>\<open>float64\<close>.
\<close>

definition finite_float :: "rat \<Rightarrow> bool" where
  "finite_float q \<longleftrightarrow> \<bar>q\<bar> < 2 ^ 1024 - 2 ^ 970"

fun decodable :: "json \<Rightarrow> bool" where
  "decodable (JInt n) \<longleftrightarrow> finite_float (of_int n)"
| "decodable (JDec q) \<longleftrightarrow> finite_float q"
| "decodable (JArr vs) \<longleftrightarrow> list_all decodable vs"
| "decodable (JObj m) \<longleftrightarrow> list_all (\<lambda>(k, v). decodable v) m"
| "decodable v \<longleftrightarrow> True"

definition decode_any :: "json option \<Rightarrow> json option" where
  "decode_any v = (case v of None \<Rightarrow> None | Some d \<Rightarrow> if decodable d then Some d else None)"

text \<open>Truncating division of Go.\<close>

definition go_div :: "int \<Rightarrow> int \<Rightarrow> int" where
  "go_div a b = (if a < 0 then - ((- a) div b) else a div b)"


section \<open>Regular expressions\<close>

text \<open>
  A pattern in lower case at the start of a text, up to letter case; the rest of the text. The folding of
  \<^verbatim>\<open>(?i)\<close> also matches an s with U+017F and a k with U+212A.
\<close>

fun eat :: "string \<Rightarrow> string \<Rightarrow> string option" where
  "eat [] s = Some s"
| "eat (c # ps) s =
     (if s \<noteq> [] \<and> ascii_lower (hd s) = c then eat ps (tl s)
      else if c = CHR ''s'' \<and> take 2 s = [CHR 0xC5, CHR 0xBF] then eat ps (drop 2 s)
      else if c = CHR ''k'' \<and> take 3 s = [CHR 0xE2, CHR 0x84, CHR 0xAA] then eat ps (drop 3 s)
      else None)"

text \<open>The text before the first match of a pattern, and the text after it.\<close>

fun until :: "string \<Rightarrow> string \<Rightarrow> (string \<times> string) option" where
  "until p [] = map_option (\<lambda>r. ([], r)) (eat p [])"
| "until p (c # cs) =
     (case eat p (c # cs) of
        Some r \<Rightarrow> Some ([], r)
      | None \<Rightarrow> map_option (\<lambda>(before, r). (c # before, r)) (until p cs))"

text \<open>
  \<^verbatim>\<open>(?i)<script[^>]*attr[^>]*>([\s\S]*?)</script>\<close> at the start of a text: the content and the rest. The tag
  ends at the first \<^verbatim>\<open>>\<close>, since \<^verbatim>\<open>[^>]\<close> cannot pass it.
\<close>

definition script_at :: "string \<Rightarrow> string \<Rightarrow> (string \<times> string) option" where
  "script_at attr s =
     (case eat ''<script'' s of
        None \<Rightarrow> None
      | Some r \<Rightarrow>
          (let tag = takeWhile (\<lambda>c. c \<noteq> CHR ''>'') r; rest = dropWhile (\<lambda>c. c \<noteq> CHR ''>'') r
           in if rest = [] \<or> until attr tag = None then None else until ''</script>'' (tl rest)))"

text \<open>All matches, from left to right, up to \<open>fuel\<close>; the length of the text is enough fuel.\<close>

fun scripts :: "nat \<Rightarrow> string \<Rightarrow> string \<Rightarrow> string list" where
  "scripts 0 attr s = []"
| "scripts (Suc fuel) attr s =
     (if s = [] then []
      else case script_at attr s of
             Some (content, rest) \<Rightarrow> content # scripts fuel attr rest
           | None \<Rightarrow> scripts fuel attr (tl s))"

definition find_scripts :: "string \<Rightarrow> string \<Rightarrow> string list" where
  "find_scripts attr html = scripts (length html) attr html"

end
