(* ===== verification/Source_Apis.thy ===== *)
theory Source_Apis
  imports Source_Http
begin

text \<open>
  The sources with a JSON interface: \<^verbatim>\<open>audnexus.go\<close>, \<^verbatim>\<open>audimeta.go\<close>, \<^verbatim>\<open>itunes.go\<close> and \<^verbatim>\<open>audiobookcovers.go\<close>. The
  requests of one call that have the same URL are answered alike.
\<close>

text \<open>A lookup by id as a search: not found is an empty answer, not an error.\<close>

definition search_by_id :: "src_error + Candidate option \<Rightarrow> src_error + Candidate list" where
  "search_by_id r =
     (case r of
        Inl e \<Rightarrow> if e = SourcesErrNotFound then Inr [] else Inl e
      | Inr None \<Rightarrow> Inr []
      | Inr (Some c) \<Rightarrow> Inr [c])"


section \<open>audnexus.go\<close>

definition audnexusID :: string where "audnexusID = ''audnexus''"
definition audnexusBaseURL :: string where "audnexusBaseURL = ''https://api.audnex.us''"

record audnexusBook =
  xb_ASIN :: string
  xb_Title :: string
  xb_Description :: string
  xb_Image :: string
  xb_PublishedDate :: string
  xb_PublisherName :: string
  xb_Language :: string
  xb_FormatType :: string
  xb_RuntimeLengthMin :: int
  xb_Authors :: "string list"
  xb_Narrators :: "string list"
  xb_Genres :: "string list"
  xb_SeriesPrimary :: "(string \<times> string) option"

definition zero_audnexusBook :: audnexusBook where
  "zero_audnexusBook = \<lparr>xb_ASIN = [], xb_Title = [], xb_Description = [], xb_Image = [], xb_PublishedDate = [],
     xb_PublisherName = [], xb_Language = [], xb_FormatType = [], xb_RuntimeLengthMin = 0, xb_Authors = [],
     xb_Narrators = [], xb_Genres = [], xb_SeriesPrimary = None\<rparr>"

text \<open>A series: name and position.\<close>

definition decode_series :: "unicode \<Rightarrow> json \<Rightarrow> string \<times> string \<Rightarrow> (string \<times> string) option" where
  "decode_series u = decode_struct u [''name'', ''position'']
     (\<lambda>f w (name, pos). if f = ''name'' then map_option (\<lambda>x. (x, pos)) (decode_string w name)
                        else map_option (\<lambda>x. (name, x)) (decode_string w pos))"

definition decode_audnexusBook :: "unicode \<Rightarrow> json \<Rightarrow> audnexusBook option" where
  "decode_audnexusBook u v =
     decode_struct u [''asin'', ''title'', ''description'', ''image'', ''publishedDate'', ''publisherName'', ''language'',
         ''formatType'', ''runtimeLengthMin'', ''authors'', ''narrators'', ''genres'', ''seriesPrimary'']
       (\<lambda>f w b.
          if f = ''asin'' then map_option (\<lambda>x. b\<lparr>xb_ASIN := x\<rparr>) (decode_string w (xb_ASIN b))
          else if f = ''title'' then map_option (\<lambda>x. b\<lparr>xb_Title := x\<rparr>) (decode_string w (xb_Title b))
          else if f = ''description'' then map_option (\<lambda>x. b\<lparr>xb_Description := x\<rparr>) (decode_string w (xb_Description b))
          else if f = ''image'' then map_option (\<lambda>x. b\<lparr>xb_Image := x\<rparr>) (decode_string w (xb_Image b))
          else if f = ''publishedDate'' then map_option (\<lambda>x. b\<lparr>xb_PublishedDate := x\<rparr>) (decode_string w (xb_PublishedDate b))
          else if f = ''publisherName'' then map_option (\<lambda>x. b\<lparr>xb_PublisherName := x\<rparr>) (decode_string w (xb_PublisherName b))
          else if f = ''language'' then map_option (\<lambda>x. b\<lparr>xb_Language := x\<rparr>) (decode_string w (xb_Language b))
          else if f = ''formatType'' then map_option (\<lambda>x. b\<lparr>xb_FormatType := x\<rparr>) (decode_string w (xb_FormatType b))
          else if f = ''runtimeLengthMin'' then map_option (\<lambda>x. b\<lparr>xb_RuntimeLengthMin := x\<rparr>) (decode_int w (xb_RuntimeLengthMin b))
          else if f = ''authors'' then map_option (\<lambda>x. b\<lparr>xb_Authors := x\<rparr>) (decode_names u w (xb_Authors b))
          else if f = ''narrators'' then map_option (\<lambda>x. b\<lparr>xb_Narrators := x\<rparr>) (decode_names u w (xb_Narrators b))
          else if f = ''genres'' then map_option (\<lambda>x. b\<lparr>xb_Genres := x\<rparr>) (decode_names u w (xb_Genres b))
          else map_option (\<lambda>x. b\<lparr>xb_SeriesPrimary := x\<rparr>) (decode_pointer (decode_series u) ([], []) w (xb_SeriesPrimary b)))
       v zero_audnexusBook"

definition audnexus_toCandidate :: "audnexusBook \<Rightarrow> string \<Rightarrow> bytes \<Rightarrow> Candidate" where
  "audnexus_toCandidate b region raw =
     (let c = zero_candidate\<lparr>cd_Source := audnexusID, cd_ExternalID := xb_ASIN b, cd_Title := xb_Title b,
          cd_Description := xb_Description b, cd_ASIN := xb_ASIN b, cd_CoverURL := xb_Image b,
          cd_PublishedAt := xb_PublishedDate b, cd_Publisher := xb_PublisherName b, cd_Language := xb_Language b,
          cd_RuntimeMin := xb_RuntimeLengthMin b, cd_Region := region, cd_Raw := raw,
          cd_Authors := xb_Authors b, cd_Narrators := xb_Narrators b, cd_Genres := xb_Genres b\<rparr>
      in case xb_SeriesPrimary b of None \<Rightarrow> c | Some (name, pos) \<Rightarrow> c\<lparr>cd_Series := name, cd_SeriesPos := pos\<rparr>)"

text \<open>\<^verbatim>\<open>audnexusChapters\<close>: title, start and length. The end of a chapter is a 64-bit sum.\<close>

definition decode_audnexusChapter :: "unicode \<Rightarrow> json \<Rightarrow> string \<times> int \<times> int \<Rightarrow> (string \<times> int \<times> int) option" where
  "decode_audnexusChapter u = decode_struct u [''title'', ''startOffsetMs'', ''lengthMs'']
     (\<lambda>f w (t, s, l). if f = ''title'' then map_option (\<lambda>x. (x, s, l)) (decode_string w t)
                      else if f = ''startOffsetMs'' then map_option (\<lambda>x. (t, x, l)) (decode_int w s)
                      else map_option (\<lambda>x. (t, s, x)) (decode_int w l))"

definition decode_audnexusChapters :: "unicode \<Rightarrow> json \<Rightarrow> (string \<times> int \<times> int) list option" where
  "decode_audnexusChapters u v =
     decode_struct u [''chapters''] (\<lambda>f w cs. decode_slice (decode_audnexusChapter u) ([], 0, 0) w cs) v []"

definition audnexus_chapters :: "source_env \<Rightarrow> nat \<Rightarrow> string \<Rightarrow> string \<Rightarrow> CandidateChapter list" where
  "audnexus_chapters env n asin region =
     (case GetJSON env n (audnexusBaseURL @ ''/books/'' @ PathEscape asin @ ''/chapters?region='' @ QueryEscape region) of
        Inl _ \<Rightarrow> []
      | Inr chBody \<Rightarrow>
          (case sn_json env chBody of
             None \<Rightarrow> []
           | Some v \<Rightarrow>
               (case decode_audnexusChapters (sn_unicode env) v of
                  None \<Rightarrow> []
                | Some chs \<Rightarrow> map (\<lambda>(t, s, l). \<lparr>cc_Title = t, cc_StartMS = s, cc_EndMS = wrap64 (s + l)\<rparr>) chs)))"

definition audnexus_Get :: "source_env \<Rightarrow> nat \<Rightarrow> string \<Rightarrow> string \<Rightarrow> src_error + Candidate option" where
  "audnexus_Get env n asin region =
     (if \<not> asinRE asin then Inr None
      else case GetJSON env n (audnexusBaseURL @ ''/books/'' @ PathEscape asin @ ''?region='' @ QueryEscape region) of
        Inl e \<Rightarrow> Inl e
      | Inr body \<Rightarrow>
          (case UnmarshalInto env (decode_audnexusBook (sn_unicode env)) body of
             Inl e \<Rightarrow> Inl e
           | Inr book \<Rightarrow>
               Inr (Some ((audnexus_toCandidate book region body)\<lparr>cd_Chapters := audnexus_chapters env n asin region\<rparr>))))"

text \<open>\<^verbatim>\<open>audnexusAuthor\<close>: of an author only the books are used, as ASIN and title.\<close>

definition decode_audnexusAuthor :: "unicode \<Rightarrow> json \<Rightarrow> (string \<times> string) list \<Rightarrow> (string \<times> string) list option" where
  "decode_audnexusAuthor u = decode_struct u [''asin'', ''name'', ''books'']
     (\<lambda>f w bs. if f = ''asin'' \<or> f = ''name'' then map_option (\<lambda>_. bs) (decode_string w [])
               else decode_slice (decode_struct u [''asin'', ''title'']
                 (\<lambda>g x (a, t). if g = ''asin'' then map_option (\<lambda>y. (y, t)) (decode_string x a)
                               else map_option (\<lambda>y. (a, y)) (decode_string x t))) ([], []) w bs)"

definition audnexus_searchByAuthor :: "source_env \<Rightarrow> nat \<Rightarrow> string \<Rightarrow> string \<Rightarrow> src_error + Candidate list" where
  "audnexus_searchByAuthor env n query region =
     (let q = TrimSpace query; u = sn_unicode env in
      if q = [] then Inr []
      else case GetJSON env n (audnexusBaseURL @ ''/authors?name='' @ QueryEscape (hd (Fields q)) @ ''&region='' @ QueryEscape region) of
        Inl e \<Rightarrow> if e = SourcesErrNotFound then Inr [] else Inl e
      | Inr body \<Rightarrow>
          map_sum id (\<lambda>authors.
            concat (map (\<lambda>(asin, title).
              if \<not> Contains (ToLower u title) (ToLower u q) \<and> \<not> Contains (ToLower u q) (ToLower u title) then []
              else (case audnexus_Get env n asin region of Inr (Some full) \<Rightarrow> [full] | _ \<Rightarrow> []))
            (concat authors)))
          (UnmarshalInto env (\<lambda>v. decode_slice (decode_audnexusAuthor u) [] v []) body))"

definition audnexus_Search :: "source_env \<Rightarrow> nat \<Rightarrow> string \<Rightarrow> string \<Rightarrow> src_error + Candidate list" where
  "audnexus_Search env n query region =
     (if asinRE query then search_by_id (audnexus_Get env n query region)
      else audnexus_searchByAuthor env n query region)"

definition Audnexus :: "source_env \<Rightarrow> Source" where
  "Audnexus env = \<lparr>s_ID = audnexusID, s_Enabled = (\<lambda>cfg. cfg audnexusID),
     s_Search = audnexus_Search env, s_Get = audnexus_Get env\<rparr>"


section \<open>audimeta.go\<close>

definition audimetaID :: string where "audimetaID = ''audimeta''"
definition audimetaBaseURL :: string where "audimetaBaseURL = ''https://api.audimeta.de''"

text \<open>One record for \<^verbatim>\<open>audimetaBook\<close> and \<^verbatim>\<open>audimetaSearchResult\<close>, which has part of its fields.\<close>

record audimetaBook =
  mb_ASIN :: string
  mb_Title :: string
  mb_Subtitle :: string
  mb_Description :: string
  mb_Summary :: string
  mb_Image :: string
  mb_Language :: string
  mb_Publisher :: string
  mb_ReleaseDate :: string
  mb_RuntimeLengthMin :: int
  mb_Authors :: "string list"
  mb_Narrators :: "string list"
  mb_Genres :: "string list"
  mb_Series :: "(string \<times> string) option"
  mb_SeriesPrimary :: "(string \<times> string) option"
  mb_SeriesSecondary :: "(string \<times> string) option"

definition zero_audimetaBook :: audimetaBook where
  "zero_audimetaBook = \<lparr>mb_ASIN = [], mb_Title = [], mb_Subtitle = [], mb_Description = [], mb_Summary = [], mb_Image = [],
     mb_Language = [], mb_Publisher = [], mb_ReleaseDate = [], mb_RuntimeLengthMin = 0, mb_Authors = [], mb_Narrators = [],
     mb_Genres = [], mb_Series = None, mb_SeriesPrimary = None, mb_SeriesSecondary = None\<rparr>"

definition audimeta_result_fields :: "string list" where
  "audimeta_result_fields = [''asin'', ''title'', ''subtitle'', ''image'', ''releaseDate'', ''runtimeLengthMin'', ''authors'',
     ''narrators'', ''series'', ''seriesPrimary'']"

definition audimeta_book_fields :: "string list" where
  "audimeta_book_fields = audimeta_result_fields @
     [''description'', ''summary'', ''language'', ''publisher'', ''genres'', ''seriesSecondary'']"

text \<open>A genre also has a \<^verbatim>\<open>type\<close>, which must be a string and is not used.\<close>

definition decode_genre :: "unicode \<Rightarrow> json \<Rightarrow> string \<Rightarrow> string option" where
  "decode_genre u = decode_struct u [''name'', ''type'']
     (\<lambda>f w x. if f = ''name'' then decode_string w x else map_option (\<lambda>_. x) (decode_string w []))"

definition put_audimeta :: "unicode \<Rightarrow> string \<Rightarrow> json \<Rightarrow> audimetaBook \<Rightarrow> audimetaBook option" where
  "put_audimeta u f w b =
     (if f = ''asin'' then map_option (\<lambda>x. b\<lparr>mb_ASIN := x\<rparr>) (decode_string w (mb_ASIN b))
      else if f = ''title'' then map_option (\<lambda>x. b\<lparr>mb_Title := x\<rparr>) (decode_string w (mb_Title b))
      else if f = ''subtitle'' then map_option (\<lambda>x. b\<lparr>mb_Subtitle := x\<rparr>) (decode_string w (mb_Subtitle b))
      else if f = ''description'' then map_option (\<lambda>x. b\<lparr>mb_Description := x\<rparr>) (decode_string w (mb_Description b))
      else if f = ''summary'' then map_option (\<lambda>x. b\<lparr>mb_Summary := x\<rparr>) (decode_string w (mb_Summary b))
      else if f = ''image'' then map_option (\<lambda>x. b\<lparr>mb_Image := x\<rparr>) (decode_string w (mb_Image b))
      else if f = ''language'' then map_option (\<lambda>x. b\<lparr>mb_Language := x\<rparr>) (decode_string w (mb_Language b))
      else if f = ''publisher'' then map_option (\<lambda>x. b\<lparr>mb_Publisher := x\<rparr>) (decode_string w (mb_Publisher b))
      else if f = ''releaseDate'' then map_option (\<lambda>x. b\<lparr>mb_ReleaseDate := x\<rparr>) (decode_string w (mb_ReleaseDate b))
      else if f = ''runtimeLengthMin'' then map_option (\<lambda>x. b\<lparr>mb_RuntimeLengthMin := x\<rparr>) (decode_int w (mb_RuntimeLengthMin b))
      else if f = ''authors'' then map_option (\<lambda>x. b\<lparr>mb_Authors := x\<rparr>) (decode_names u w (mb_Authors b))
      else if f = ''narrators'' then map_option (\<lambda>x. b\<lparr>mb_Narrators := x\<rparr>) (decode_names u w (mb_Narrators b))
      else if f = ''genres'' then map_option (\<lambda>x. b\<lparr>mb_Genres := x\<rparr>) (decode_slice (decode_genre u) [] w (mb_Genres b))
      else if f = ''series'' then map_option (\<lambda>x. b\<lparr>mb_Series := x\<rparr>) (decode_pointer (decode_series u) ([], []) w (mb_Series b))
      else if f = ''seriesPrimary'' then
        map_option (\<lambda>x. b\<lparr>mb_SeriesPrimary := x\<rparr>) (decode_pointer (decode_series u) ([], []) w (mb_SeriesPrimary b))
      else map_option (\<lambda>x. b\<lparr>mb_SeriesSecondary := x\<rparr>) (decode_pointer (decode_series u) ([], []) w (mb_SeriesSecondary b)))"

definition decode_audimetaBook :: "unicode \<Rightarrow> json \<Rightarrow> audimetaBook option" where
  "decode_audimetaBook u v = decode_struct u audimeta_book_fields (put_audimeta u) v zero_audimetaBook"

definition decode_audimetaSearchResult :: "unicode \<Rightarrow> json \<Rightarrow> audimetaBook \<Rightarrow> audimetaBook option" where
  "decode_audimetaSearchResult u = decode_struct u audimeta_result_fields (put_audimeta u)"

definition first_series :: "(string \<times> string) option list \<Rightarrow> Candidate \<Rightarrow> Candidate" where
  "first_series ss c =
     (case find (\<lambda>s. s \<noteq> None) ss of
        Some (Some (name, pos)) \<Rightarrow> c\<lparr>cd_Series := name, cd_SeriesPos := pos\<rparr>
      | _ \<Rightarrow> c)"

definition audimeta_toCandidate :: "audimetaBook \<Rightarrow> string \<Rightarrow> bytes \<Rightarrow> Candidate" where
  "audimeta_toCandidate b region raw =
     first_series [mb_Series b, mb_SeriesPrimary b, mb_SeriesSecondary b]
       (zero_candidate\<lparr>cd_Source := audimetaID, cd_ExternalID := mb_ASIN b, cd_Title := mb_Title b,
          cd_Description := (if mb_Description b = [] then mb_Summary b else mb_Description b), cd_ASIN := mb_ASIN b,
          cd_CoverURL := mb_Image b, cd_PublishedAt := mb_ReleaseDate b, cd_Publisher := mb_Publisher b,
          cd_Language := mb_Language b, cd_RuntimeMin := mb_RuntimeLengthMin b, cd_Region := region, cd_Raw := raw,
          cd_Authors := mb_Authors b, cd_Narrators := mb_Narrators b, cd_Genres := mb_Genres b\<rparr>)"

definition audimeta_result_toCandidate :: "string \<Rightarrow> audimetaBook \<Rightarrow> Candidate" where
  "audimeta_result_toCandidate region r =
     first_series [mb_Series r, mb_SeriesPrimary r]
       (zero_candidate\<lparr>cd_Source := audimetaID, cd_ExternalID := mb_ASIN r, cd_Title := mb_Title r, cd_ASIN := mb_ASIN r,
          cd_CoverURL := mb_Image r, cd_PublishedAt := mb_ReleaseDate r, cd_RuntimeMin := mb_RuntimeLengthMin r,
          cd_Region := region, cd_Authors := mb_Authors r, cd_Narrators := mb_Narrators r\<rparr>)"

definition audimeta_Get :: "source_env \<Rightarrow> nat \<Rightarrow> string \<Rightarrow> string \<Rightarrow> src_error + Candidate option" where
  "audimeta_Get env n asin region =
     (if \<not> asinRE asin then Inr None
      else case GetJSON env n (audimetaBaseURL @ ''/books/'' @ PathEscape asin @ ''?region='' @ QueryEscape region) of
        Inl e \<Rightarrow> Inl e
      | Inr body \<Rightarrow>
          map_sum id (\<lambda>book. Some (audimeta_toCandidate book region body))
            (UnmarshalInto env (decode_audimetaBook (sn_unicode env)) body))"

text \<open>The wrapped answer: results, books, items and data, each a slice that may be nil.\<close>

type_synonym audimeta_slices = "audimetaBook list option \<times> audimetaBook list option \<times> audimetaBook list option \<times> audimetaBook list option"

definition decode_audimetaSearchResponse :: "unicode \<Rightarrow> json \<Rightarrow> audimeta_slices option" where
  "decode_audimetaSearchResponse u v =
     (let dec = decode_nilable (decode_audimetaSearchResult u) zero_audimetaBook in
      decode_struct u [''results'', ''books'', ''items'', ''data'']
       (\<lambda>f w (r, b, i, d).
          if f = ''results'' then map_option (\<lambda>x. (x, b, i, d)) (dec w r)
          else if f = ''books'' then map_option (\<lambda>x. (r, x, i, d)) (dec w b)
          else if f = ''items'' then map_option (\<lambda>x. (r, b, x, d)) (dec w i)
          else map_option (\<lambda>x. (r, b, i, x)) (dec w d)) v (None, None, None, None))"

definition searchResultsToCandidate :: "audimetaBook list \<Rightarrow> string \<Rightarrow> Candidate list" where
  "searchResultsToCandidate results region = map (audimeta_result_toCandidate region) results"

definition audimeta_searchByTitle :: "source_env \<Rightarrow> nat \<Rightarrow> string \<Rightarrow> string \<Rightarrow> src_error + Candidate list" where
  "audimeta_searchByTitle env n query region =
     (case GetJSON env n (audimetaBaseURL @ ''/search?q='' @ QueryEscape query @ ''&region='' @ QueryEscape region) of
        Inl e \<Rightarrow> if e = SourcesErrNotFound then Inr [] else Inl e
      | Inr body \<Rightarrow>
          (case UnmarshalInto env (\<lambda>v. decode_slice (decode_audimetaSearchResult (sn_unicode env)) zero_audimetaBook v []) body of
             Inr direct \<Rightarrow> Inr (searchResultsToCandidate direct region)
           | Inl _ \<Rightarrow>
               (case UnmarshalInto env (decode_audimetaSearchResponse (sn_unicode env)) body of
                  Inl e \<Rightarrow> Inl e
                | Inr (r, b, i, d) \<Rightarrow>
                    (case find (\<lambda>x. x \<noteq> None) [r, b, i, d] of
                       Some (Some results) \<Rightarrow> Inr (searchResultsToCandidate results region)
                     | _ \<Rightarrow> Inl (SrcOther ''audimeta: search response contained no recognised key'')))))"

definition audimeta_Search :: "source_env \<Rightarrow> nat \<Rightarrow> string \<Rightarrow> string \<Rightarrow> src_error + Candidate list" where
  "audimeta_Search env n query region =
     (if asinRE query then search_by_id (audimeta_Get env n query region)
      else audimeta_searchByTitle env n query region)"

definition AudiMeta :: "source_env \<Rightarrow> Source" where
  "AudiMeta env = \<lparr>s_ID = audimetaID, s_Enabled = (\<lambda>cfg. cfg audimetaID),
     s_Search = audimeta_Search env, s_Get = audimeta_Get env\<rparr>"


section \<open>itunes.go\<close>

definition itunesID :: string where "itunesID = ''itunes''"
definition itunesBaseURL :: string where "itunesBaseURL = ''https://itunes.apple.com''"

record itunesResult =
  it_TrackID :: int
  it_CollectionID :: int
  it_TrackName :: string
  it_CollectionName :: string
  it_ArtistName :: string
  it_Description :: string
  it_LongDescription :: string
  it_ArtworkUrl600 :: string
  it_ArtworkUrl100 :: string
  it_ReleaseDate :: string
  it_TrackTimeMillis :: int
  it_PrimaryGenreName :: string
  it_Country :: string

definition zero_itunesResult :: itunesResult where
  "zero_itunesResult = \<lparr>it_TrackID = 0, it_CollectionID = 0, it_TrackName = [], it_CollectionName = [], it_ArtistName = [],
     it_Description = [], it_LongDescription = [], it_ArtworkUrl600 = [], it_ArtworkUrl100 = [], it_ReleaseDate = [],
     it_TrackTimeMillis = 0, it_PrimaryGenreName = [], it_Country = []\<rparr>"

definition decode_itunesResult :: "unicode \<Rightarrow> json \<Rightarrow> itunesResult \<Rightarrow> itunesResult option" where
  "decode_itunesResult u =
     decode_struct u [''trackId'', ''collectionId'', ''trackName'', ''collectionName'', ''artistName'', ''description'',
         ''longDescription'', ''artworkUrl600'', ''artworkUrl100'', ''releaseDate'', ''trackTimeMillis'', ''primaryGenreName'', ''country'']
       (\<lambda>f w r.
          if f = ''trackId'' then map_option (\<lambda>x. r\<lparr>it_TrackID := x\<rparr>) (decode_int w (it_TrackID r))
          else if f = ''collectionId'' then map_option (\<lambda>x. r\<lparr>it_CollectionID := x\<rparr>) (decode_int w (it_CollectionID r))
          else if f = ''trackName'' then map_option (\<lambda>x. r\<lparr>it_TrackName := x\<rparr>) (decode_string w (it_TrackName r))
          else if f = ''collectionName'' then map_option (\<lambda>x. r\<lparr>it_CollectionName := x\<rparr>) (decode_string w (it_CollectionName r))
          else if f = ''artistName'' then map_option (\<lambda>x. r\<lparr>it_ArtistName := x\<rparr>) (decode_string w (it_ArtistName r))
          else if f = ''description'' then map_option (\<lambda>x. r\<lparr>it_Description := x\<rparr>) (decode_string w (it_Description r))
          else if f = ''longDescription'' then map_option (\<lambda>x. r\<lparr>it_LongDescription := x\<rparr>) (decode_string w (it_LongDescription r))
          else if f = ''artworkUrl600'' then map_option (\<lambda>x. r\<lparr>it_ArtworkUrl600 := x\<rparr>) (decode_string w (it_ArtworkUrl600 r))
          else if f = ''artworkUrl100'' then map_option (\<lambda>x. r\<lparr>it_ArtworkUrl100 := x\<rparr>) (decode_string w (it_ArtworkUrl100 r))
          else if f = ''releaseDate'' then map_option (\<lambda>x. r\<lparr>it_ReleaseDate := x\<rparr>) (decode_string w (it_ReleaseDate r))
          else if f = ''trackTimeMillis'' then map_option (\<lambda>x. r\<lparr>it_TrackTimeMillis := x\<rparr>) (decode_int w (it_TrackTimeMillis r))
          else if f = ''primaryGenreName'' then map_option (\<lambda>x. r\<lparr>it_PrimaryGenreName := x\<rparr>) (decode_string w (it_PrimaryGenreName r))
          else map_option (\<lambda>x. r\<lparr>it_Country := x\<rparr>) (decode_string w (it_Country r)))"

definition decode_itunesEnvelope :: "unicode \<Rightarrow> json \<Rightarrow> itunesResult list option" where
  "decode_itunesEnvelope u v =
     decode_struct u [''resultCount'', ''results'']
       (\<lambda>f w rs. if f = ''resultCount'' then map_option (\<lambda>_. rs) (decode_int w 0)
                 else decode_slice (decode_itunesResult u) zero_itunesResult w rs) v []"

definition or_else :: "string \<Rightarrow> string \<Rightarrow> string" where
  "or_else a b = (if a = [] then b else a)"

definition itunes_toCandidate :: "unicode \<Rightarrow> itunesResult \<Rightarrow> string \<Rightarrow> bytes \<Rightarrow> Candidate" where
  "itunes_toCandidate u r region raw =
     zero_candidate\<lparr>cd_Source := itunesID,
       cd_ExternalID := FormatInt (if it_TrackID r = 0 then it_CollectionID r else it_TrackID r),
       cd_Title := or_else (it_TrackName r) (it_CollectionName r),
       cd_Description := or_else (it_LongDescription r) (it_Description r),
       cd_CoverURL := or_else (it_ArtworkUrl600 r) (it_ArtworkUrl100 r),
       cd_PublishedAt := take 10 (it_ReleaseDate r), cd_RuntimeMin := go_div (it_TrackTimeMillis r) 60000,
       cd_Genres := (if it_PrimaryGenreName r = [] then [] else [it_PrimaryGenreName r]),
       cd_Region := or_else region (ToLower u (it_Country r)), cd_Raw := raw,
       cd_Authors := (if it_ArtistName r = [] then [] else [it_ArtistName r])\<rparr>"

definition itunes_Get :: "source_env \<Rightarrow> nat \<Rightarrow> string \<Rightarrow> string \<Rightarrow> src_error + Candidate option" where
  "itunes_Get env n i region =
     (if asinRE i then Inr None
      else case GetJSON env n (itunesBaseURL @ ''/lookup?id='' @ QueryEscape i @ ''&country='' @ QueryEscape region) of
        Inl e \<Rightarrow> Inl e
      | Inr body \<Rightarrow>
          (case UnmarshalInto env (decode_itunesEnvelope (sn_unicode env)) body of
             Inl e \<Rightarrow> Inl e
           | Inr [] \<Rightarrow> Inl SourcesErrNotFound
           | Inr (r # _) \<Rightarrow> Inr (Some (itunes_toCandidate (sn_unicode env) r region body))))"

definition itunes_Search :: "source_env \<Rightarrow> nat \<Rightarrow> string \<Rightarrow> string \<Rightarrow> src_error + Candidate list" where
  "itunes_Search env n query region =
     (if asinRE query then Inr []
      else case GetJSON env n (itunesBaseURL @ ''/search?term='' @ QueryEscape query @ ''&media=audiobook&country='' @
                  QueryEscape region @ ''&limit=20'') of
        Inl e \<Rightarrow> Inl e
      | Inr body \<Rightarrow>
          map_sum id (map (\<lambda>r. itunes_toCandidate (sn_unicode env) r region []))
            (UnmarshalInto env (decode_itunesEnvelope (sn_unicode env)) body))"

definition ITunes :: "source_env \<Rightarrow> Source" where
  "ITunes env = \<lparr>s_ID = itunesID, s_Enabled = (\<lambda>cfg. cfg itunesID), s_Search = itunes_Search env, s_Get = itunes_Get env\<rparr>"


section \<open>audiobookcovers.go\<close>

definition audiobookcoversID :: string where "audiobookcoversID = ''audiobookcovers''"
definition audiobookcoversBaseURL :: string where "audiobookcoversBaseURL = ''https://api.audiobookcovers.com''"

text \<open>The cover URL of the answer; its \<^verbatim>\<open>asin\<close> must be a string and is not used.\<close>

definition decode_audiobookcoversResponse :: "unicode \<Rightarrow> json \<Rightarrow> string option" where
  "decode_audiobookcoversResponse u v =
     decode_struct u [''asin'', ''cover_url'']
       (\<lambda>f w x. if f = ''cover_url'' then decode_string w x else map_option (\<lambda>_. x) (decode_string w [])) v []"

definition audiobookcovers_Get :: "source_env \<Rightarrow> nat \<Rightarrow> string \<Rightarrow> string \<Rightarrow> src_error + Candidate option" where
  "audiobookcovers_Get env n asin region =
     (if \<not> asinRE asin then Inr None
      else case GetJSON env n (audiobookcoversBaseURL @ ''/cover/by_book/'' @ asin) of
        Inl e \<Rightarrow> Inl e
      | Inr body \<Rightarrow>
          (case UnmarshalInto env (decode_audiobookcoversResponse (sn_unicode env)) body of
             Inl e \<Rightarrow> Inl e
           | Inr coverURL \<Rightarrow>
               if coverURL = [] then Inl SourcesErrNotFound
               else Inr (Some (zero_candidate\<lparr>cd_Source := audiobookcoversID, cd_ExternalID := asin, cd_ASIN := asin,
                      cd_CoverURL := coverURL, cd_Raw := body\<rparr>))))"

definition audiobookcovers_Search :: "source_env \<Rightarrow> nat \<Rightarrow> string \<Rightarrow> string \<Rightarrow> src_error + Candidate list" where
  "audiobookcovers_Search env n query region =
     (if \<not> asinRE query then Inr [] else search_by_id (audiobookcovers_Get env n query region))"

definition AudiobookCovers :: "source_env \<Rightarrow> Source" where
  "AudiobookCovers env = \<lparr>s_ID = audiobookcoversID, s_Enabled = (\<lambda>cfg. cfg audiobookcoversID),
     s_Search = audiobookcovers_Search env, s_Get = audiobookcovers_Get env\<rparr>"

end
