(* ===== verification/Source_Scrapers.thy ===== *)
theory Source_Scrapers
  imports Source_Apis Filepath
begin

text \<open>
  The sources that read web pages: \<^verbatim>\<open>storytel.go\<close>, \<^verbatim>\<open>bookbeat.go\<close> and \<^verbatim>\<open>audioteka.go\<close>. They look for a JSON-LD
  script, or walk the JSON state that the page embeds down to a bounded depth, collecting the objects that
  look like a book.
\<close>


section \<open>JSON-LD\<close>

definition jsonLD_attr :: string where
  "jsonLD_attr = ''type='' @ [CHR 0x22] @ ''application/ld+json'' @ [CHR 0x22]"

text \<open>\<^verbatim>\<open>json.Unmarshal(doc[k], &s)\<close> into a fresh string: an absent member is an error.\<close>

definition text_member :: "(string \<times> json) list \<Rightarrow> string \<Rightarrow> string option" where
  "text_member doc k = (case field doc k of None \<Rightarrow> None | Some v \<Rightarrow> decode_string v [])"

definition text_or_empty :: "(string \<times> json) list \<Rightarrow> string \<Rightarrow> string" where
  "text_or_empty doc k = (case text_member doc k of None \<Rightarrow> [] | Some s \<Rightarrow> s)"

definition extractNames :: "unicode \<Rightarrow> json \<Rightarrow> string list" where
  "extractNames u v =
     (case decode_names u v [] of
        Some names \<Rightarrow> filter (\<lambda>x. x \<noteq> []) names
      | None \<Rightarrow>
          (case decode_name u v [] of
             Some name \<Rightarrow> if name \<noteq> [] then [name] else (case decode_string v [] of Some s \<Rightarrow> if s \<noteq> [] then [s] else [] | None \<Rightarrow> [])
           | None \<Rightarrow> (case decode_string v [] of Some s \<Rightarrow> if s \<noteq> [] then [s] else [] | None \<Rightarrow> [])))"

text \<open>\<^verbatim>\<open>(?:(\d+)X)?\<close> at the start of a text: the digits, empty when the group does not match, and the rest.\<close>

definition number_group :: "char \<Rightarrow> string \<Rightarrow> string \<times> string" where
  "number_group x s =
     (let ds = takeWhile is_digit s; r = dropWhile is_digit s
      in if ds \<noteq> [] \<and> r \<noteq> [] \<and> hd r = x then (ds, tl r) else ([], s))"

text \<open>\<^verbatim>\<open>strconv.Atoi\<close> of such digits, error ignored: 0 for none, the largest \<^verbatim>\<open>int\<close> when out of range.\<close>

definition clamped :: "string \<Rightarrow> int" where
  "clamped ds = (if ds = [] then 0 else min (int (digits_val ds)) (2 ^ 63 - 1))"

fun after_PT :: "string \<Rightarrow> string option" where
  "after_PT [] = None"
| "after_PT (c # cs) = (if take 2 (c # cs) = ''PT'' then Some (drop 2 (c # cs)) else after_PT cs)"

definition parseDurationToMin :: "string \<Rightarrow> int" where
  "parseDurationToMin d =
     (case after_PT d of
        None \<Rightarrow> 0
      | Some r0 \<Rightarrow>
          (let (h, r1) = number_group CHR ''H'' r0; (m, r2) = number_group CHR ''M'' r1; (s, r3) = number_group CHR ''S'' r2
           in wrap64 (clamped h * 60 + clamped m + clamped s div 60)))"

definition slugFromURL :: "string \<Rightarrow> string" where
  "slugFromURL u = last (split_slash (TrimSuffix u ''/''))"

definition publisher_of :: "unicode \<Rightarrow> (string \<times> json) list \<Rightarrow> string" where
  "publisher_of u doc =
     (case field doc ''publisher'' of
        None \<Rightarrow> []
      | Some v \<Rightarrow> (case decode_string v [] of Some s \<Rightarrow> s | None \<Rightarrow> (case decode_name u v [] of Some s \<Rightarrow> s | None \<Rightarrow> [])))"

text \<open>The first script that is an object whose type is a book.\<close>

definition jsonLD_doc :: "source_env \<Rightarrow> string \<Rightarrow> (string \<times> json) list option" where
  "jsonLD_doc env html =
     find (\<lambda>d. text_member d ''@type'' = Some ''Audiobook'' \<or> text_member d ''@type'' = Some ''Book'')
       (concat (map (\<lambda>t. case sn_json env t of Some (JObj m) \<Rightarrow> [m] | _ \<Rightarrow> []) (find_scripts jsonLD_attr html)))"

definition parseJSONLD :: "source_env \<Rightarrow> string \<Rightarrow> Candidate option" where
  "parseJSONLD env html =
     (case jsonLD_doc env html of
        None \<Rightarrow> None
      | Some doc \<Rightarrow>
          (let u = sn_unicode env; c = zero_candidate\<lparr>
             cd_Title := text_or_empty doc ''name'', cd_Description := text_or_empty doc ''description'',
             cd_ISBN := text_or_empty doc ''isbn'', cd_Language := text_or_empty doc ''inLanguage'',
             cd_PublishedAt := take 10 (text_or_empty doc ''datePublished''), cd_CoverURL := text_or_empty doc ''image'',
             cd_Publisher := publisher_of u doc,
             cd_Authors := (case field doc ''author'' of Some v \<Rightarrow> extractNames u v | None \<Rightarrow> []),
             cd_Narrators := (case field doc ''readBy'' of Some v \<Rightarrow> extractNames u v | None \<Rightarrow> []),
             cd_RuntimeMin := (case text_member doc ''duration'' of Some s \<Rightarrow> parseDurationToMin s | None \<Rightarrow> 0),
             cd_ExternalID := (case text_member doc ''url'' of Some s \<Rightarrow> slugFromURL s | None \<Rightarrow> [])\<rparr>
           in if cd_Title c = [] then None else Some c))"


section \<open>Book objects\<close>

text \<open>What the three converters share.\<close>

definition runtime_of :: "source_env \<Rightarrow> (string \<times> json) list \<Rightarrow> int" where
  "runtime_of env m =
     (case Option.bind (field m ''duration'') float_of of
        Some dur \<Rightarrow> if dur > 0 then go_div (float_int env dur) 60 else 0
      | None \<Rightarrow> 0)"

text \<open>The widest of the sizes, the first among equals.\<close>

definition best_size :: "source_env \<Rightarrow> json list \<Rightarrow> int \<times> string" where
  "best_size env sizes =
     fold (\<lambda>sz (bestWidth, bestURL).
        case sz of
          JObj s \<Rightarrow>
            (case Option.bind (field s ''width'') float_of of
               Some w \<Rightarrow> if float_int env w > bestWidth then (float_int env w, stringField s ''url'') else (bestWidth, bestURL)
             | None \<Rightarrow> (bestWidth, bestURL))
        | _ \<Rightarrow> (bestWidth, bestURL)) sizes (-1, [])"

definition cover_of :: "source_env \<Rightarrow> (string \<times> json) list \<Rightarrow> string" where
  "cover_of env m =
     (case field m ''cover'' of
        Some (JObj cover) \<Rightarrow>
          or_else (case field cover ''sizes'' of Some (JArr sizes) \<Rightarrow> snd (best_size env sizes) | _ \<Rightarrow> [])
            (stringField cover ''url'')
      | _ \<Rightarrow> [])"

definition name_objects :: "(string \<times> json) list \<Rightarrow> string \<Rightarrow> string list" where
  "name_objects m k =
     (case field m k of
        Some (JArr vs) \<Rightarrow>
          filter (\<lambda>x. x \<noteq> []) (map (\<lambda>v. case v of JObj o' \<Rightarrow> stringField o' ''name'' | _ \<Rightarrow> []) vs)
      | _ \<Rightarrow> [])"

text \<open>Audioteka also takes plain strings.\<close>

definition names_or_texts :: "(string \<times> json) list \<Rightarrow> string \<Rightarrow> string list" where
  "names_or_texts m k =
     (case field m k of
        Some (JArr vs) \<Rightarrow>
          filter (\<lambda>x. x \<noteq> []) (map (\<lambda>v. case v of JObj o' \<Rightarrow> stringField o' ''name'' | JStr s \<Rightarrow> s | _ \<Rightarrow> []) vs)
      | _ \<Rightarrow> [])"

definition series_of :: "source_env \<Rightarrow> (string \<times> json) list \<Rightarrow> string \<times> string" where
  "series_of env m =
     (case field m ''series'' of
        Some (JObj ser) \<Rightarrow>
          (stringField ser ''name'',
           case Option.bind (field ser ''orderInSeries'') float_of of Some pos \<Rightarrow> FormatInt (float_int env pos) | None \<Rightarrow> [])
      | _ \<Rightarrow> ([], []))"

definition texts_of :: "(string \<times> json) list \<Rightarrow> string \<Rightarrow> string list" where
  "texts_of m k =
     (case field m k of
        Some (JArr vs) \<Rightarrow> filter (\<lambda>x. x \<noteq> []) (map (\<lambda>v. case v of JStr s \<Rightarrow> s | _ \<Rightarrow> []) vs)
      | _ \<Rightarrow> [])"

definition isStorytelBook :: "(string \<times> json) list \<Rightarrow> bool" where
  "isStorytelBook m \<longleftrightarrow> has_field m ''title'' \<and>
     (has_field m ''consumableId'' \<or> has_field m ''bookId'' \<or> has_field m ''authors'' \<or> has_field m ''narrators'' \<or>
      has_field m ''duration'')"

definition storytelMapToCandidate :: "source_env \<Rightarrow> (string \<times> json) list \<Rightarrow> Candidate option" where
  "storytelMapToCandidate env m =
     (if stringField m ''title'' = [] then None
      else Some (zero_candidate\<lparr>cd_Title := stringField m ''title'',
        cd_ExternalID := or_else (stringField m ''consumableId'') (stringField m ''bookId''),
        cd_Description := stringField m ''description'', cd_Language := stringField m ''language'',
        cd_ISBN := stringField m ''isbn'', cd_Publisher := stringField m ''publisher'',
        cd_PublishedAt := take 10 (stringField m ''releaseDate''), cd_RuntimeMin := runtime_of env m,
        cd_CoverURL := cover_of env m, cd_Authors := name_objects m ''authors'', cd_Narrators := name_objects m ''narrators'',
        cd_Series := fst (series_of env m), cd_SeriesPos := snd (series_of env m), cd_Genres := texts_of m ''categories''\<rparr>))"

definition isBookBeatBook :: "(string \<times> json) list \<Rightarrow> bool" where
  "isBookBeatBook m \<longleftrightarrow> has_field m ''title'' \<and>
     (has_field m ''id'' \<or> has_field m ''bookId'' \<or> has_field m ''authors'' \<or> has_field m ''narrators'' \<or>
      has_field m ''duration'' \<or> has_field m ''coverUrl'')"

definition bookbeatMapToCandidate :: "source_env \<Rightarrow> (string \<times> json) list \<Rightarrow> Candidate option" where
  "bookbeatMapToCandidate env m =
     (if stringField m ''title'' = [] then None
      else Some (zero_candidate\<lparr>cd_Title := stringField m ''title'',
        cd_ExternalID := or_else (stringField m ''id'') (stringField m ''bookId''),
        cd_Description := stringField m ''description'', cd_Language := stringField m ''language'',
        cd_ISBN := stringField m ''isbn'', cd_Publisher := stringField m ''publisher'',
        cd_PublishedAt := take 10 (or_else (stringField m ''releaseDate'') (stringField m ''publishDate'')),
        cd_RuntimeMin := runtime_of env m, cd_CoverURL := or_else (stringField m ''coverUrl'') (cover_of env m),
        cd_Authors := name_objects m ''authors'', cd_Narrators := name_objects m ''narrators'',
        cd_Series := fst (series_of env m), cd_SeriesPos := snd (series_of env m), cd_Genres := texts_of m ''categories''\<rparr>))"

definition isAudiotekaBook :: "(string \<times> json) list \<Rightarrow> bool" where
  "isAudiotekaBook m \<longleftrightarrow> has_field m ''title'' \<and>
     (has_field m ''id'' \<or> has_field m ''authors'' \<or> has_field m ''narrators'' \<or> has_field m ''duration'' \<or>
      has_field m ''coverUrl'' \<or> has_field m ''isbn'')"

definition audiotekaMapToCandidate :: "source_env \<Rightarrow> (string \<times> json) list \<Rightarrow> Candidate option" where
  "audiotekaMapToCandidate env m =
     (if stringField m ''title'' = [] then None
      else Some (zero_candidate\<lparr>cd_Title := stringField m ''title'', cd_ExternalID := stringField m ''id'',
        cd_Description := stringField m ''description'', cd_Language := stringField m ''language'',
        cd_ISBN := stringField m ''isbn'', cd_Publisher := stringField m ''publisher'',
        cd_PublishedAt := take 10 (stringField m ''releaseDate''), cd_RuntimeMin := runtime_of env m,
        cd_CoverURL := stringField m ''coverUrl'', cd_Authors := names_or_texts m ''authors'',
        cd_Narrators := names_or_texts m ''narrators'', cd_Series := fst (series_of env m),
        cd_SeriesPos := snd (series_of env m),
        cd_Genres := texts_of m ''categories'' @ texts_of m ''genres'' @ texts_of m ''kategorie''\<rparr>))"


section \<open>The walk\<close>

text \<open>
  The three traversals differ in the test and the converter only. \<open>fuel\<close> is the number of levels left:
  a value at depth \<open>d\<close> is looked at with \<open>maxTraverseDepth + 1 - d\<close>.
\<close>

fun traverse ::
  "(json list \<Rightarrow> json list) \<Rightarrow> ((string \<times> json) list \<Rightarrow> bool) \<Rightarrow> ((string \<times> json) list \<Rightarrow> Candidate option) \<Rightarrow>
   nat \<Rightarrow> json \<Rightarrow> Candidate list" where
  "traverse order is_book conv 0 v = []"
| "traverse order is_book conv (Suc fuel) v =
     (case v of
        JArr vs \<Rightarrow> concat (map (traverse order is_book conv fuel) vs)
      | JObj m \<Rightarrow>
          if is_book m then (case conv m of Some c \<Rightarrow> [c] | None \<Rightarrow> [])
          else concat (map (traverse order is_book conv fuel) (order (map_values m)))
      | _ \<Rightarrow> [])"

definition traverseNextData :: "source_env \<Rightarrow> json \<Rightarrow> nat \<Rightarrow> Candidate list" where
  "traverseNextData env v depth =
     traverse (sn_order env) isStorytelBook (storytelMapToCandidate env) (Suc maxTraverseDepth - depth) v"

definition traverseBookBeatNextData :: "source_env \<Rightarrow> json \<Rightarrow> nat \<Rightarrow> Candidate list" where
  "traverseBookBeatNextData env v depth =
     traverse (sn_order env) isBookBeatBook (bookbeatMapToCandidate env) (Suc maxTraverseDepth - depth) v"

definition traverseAudiotekaData :: "source_env \<Rightarrow> json \<Rightarrow> nat \<Rightarrow> Candidate list" where
  "traverseAudiotekaData env v depth =
     traverse (sn_order env) isAudiotekaBook (audiotekaMapToCandidate env) (Suc maxTraverseDepth - depth) v"

definition nextData_attr :: string where
  "nextData_attr = ''id='' @ [CHR 0x22] @ ''__next_data__'' @ [CHR 0x22]"

definition next_data :: "source_env \<Rightarrow> string \<Rightarrow> json option" where
  "next_data env html = (case find_scripts nextData_attr html of [] \<Rightarrow> None | t # _ \<Rightarrow> decode_any (sn_json env t))"

definition extractFromNextData :: "source_env \<Rightarrow> string \<Rightarrow> Candidate list" where
  "extractFromNextData env html =
     (case next_data env html of None \<Rightarrow> [] | Some v \<Rightarrow> traverseNextData env v 0)"

definition extractFromBookBeatNextData :: "source_env \<Rightarrow> string \<Rightarrow> Candidate list" where
  "extractFromBookBeatNextData env html =
     (case next_data env html of None \<Rightarrow> [] | Some v \<Rightarrow> traverseBookBeatNextData env v 0)"

text \<open>
  \<^verbatim>\<open>(?i)window\.__(?:INITIAL|PRELOADED)_STATE__\s*=\s*(\{[\s\S]*?\});\<close> at the start of a text, and its first match.
\<close>

definition skip_space :: "string \<Rightarrow> string" where
  "skip_space s = dropWhile (\<lambda>c. byte_of c \<in> {9, 10, 12, 13, 32}) s"

definition state_at :: "string \<Rightarrow> string option" where
  "state_at s =
     (case (case eat ''window.__initial_state__'' s of Some r \<Rightarrow> Some r | None \<Rightarrow> eat ''window.__preloaded_state__'' s) of
        None \<Rightarrow> None
      | Some r \<Rightarrow>
          (case skip_space r of
             [] \<Rightarrow> None
           | c # r1 \<Rightarrow>
               if c \<noteq> CHR ''='' then None
               else (case skip_space r1 of
                       [] \<Rightarrow> None
                     | b # r2 \<Rightarrow>
                         if b \<noteq> CHR ''{'' then None
                         else map_option (\<lambda>(content, _). b # content @ ''}'') (until ''};'' r2))))"

fun find_state :: "string \<Rightarrow> string option" where
  "find_state [] = None"
| "find_state (c # cs) = (case state_at (c # cs) of Some t \<Rightarrow> Some t | None \<Rightarrow> find_state cs)"

definition extractFromAudiotekaInitialState :: "source_env \<Rightarrow> string \<Rightarrow> Candidate list" where
  "extractFromAudiotekaInitialState env html =
     (case decode_any (Option.bind (find_state html) (sn_json env)) of None \<Rightarrow> [] | Some v \<Rightarrow> traverseAudiotekaData env v 0)"


section \<open>Pages\<close>

definition book_page :: "(source_env \<Rightarrow> string \<Rightarrow> Candidate list) \<Rightarrow> source_env \<Rightarrow> string \<Rightarrow> Candidate option" where
  "book_page extract env html =
     (case parseJSONLD env html of
        Some c \<Rightarrow> Some c
      | None \<Rightarrow> (case extract env html of [] \<Rightarrow> None | c # _ \<Rightarrow> Some c))"

definition parseStorytelBookPage :: "source_env \<Rightarrow> string \<Rightarrow> Candidate option" where
  "parseStorytelBookPage = book_page extractFromNextData"

definition parseStorytelSearchPage :: "source_env \<Rightarrow> string \<Rightarrow> Candidate list" where
  "parseStorytelSearchPage env html = take 20 (extractFromNextData env html)"

definition parseBookBeatBookPage :: "source_env \<Rightarrow> string \<Rightarrow> Candidate option" where
  "parseBookBeatBookPage = book_page extractFromBookBeatNextData"

definition parseBookBeatSearchPage :: "source_env \<Rightarrow> string \<Rightarrow> Candidate list" where
  "parseBookBeatSearchPage env html = take 20 (extractFromBookBeatNextData env html)"

definition parseAudiotekaBookPage :: "source_env \<Rightarrow> string \<Rightarrow> Candidate option" where
  "parseAudiotekaBookPage = book_page extractFromAudiotekaInitialState"

definition parseAudiotekaSearchPage :: "source_env \<Rightarrow> string \<Rightarrow> Candidate list" where
  "parseAudiotekaSearchPage env html =
     (case extractFromAudiotekaInitialState env html of
        [] \<Rightarrow> (case parseJSONLD env html of Some c \<Rightarrow> [c] | None \<Rightarrow> [])
      | books \<Rightarrow> take 20 books)"

text \<open>How a page's book and a page's results are completed.\<close>

definition complete_book :: "string \<Rightarrow> string \<Rightarrow> string \<Rightarrow> bytes \<Rightarrow> Candidate \<Rightarrow> Candidate" where
  "complete_book src externalID region body c =
     c\<lparr>cd_ExternalID := or_else (cd_ExternalID c) externalID, cd_Source := src, cd_Region := region, cd_Raw := body\<rparr>"

definition complete_results :: "string \<Rightarrow> string \<Rightarrow> bytes \<Rightarrow> Candidate list \<Rightarrow> Candidate list" where
  "complete_results src region body books =
     map (\<lambda>c. c\<lparr>cd_Source := src, cd_Region := region, cd_Raw := (if cd_Raw c = [] then body else cd_Raw c)\<rparr>) books"


section \<open>storytel.go\<close>

definition storytelID :: string where "storytelID = ''storytel''"
definition storytelBaseURL :: string where "storytelBaseURL = ''https://www.storytel.com''"

definition isCCTLD :: "string \<Rightarrow> bool" where
  "isCCTLD s \<longleftrightarrow> 2 \<le> length s \<and> length s \<le> 3 \<and> list_all (\<lambda>c. 97 \<le> byte_of c \<and> byte_of c \<le> 122) s"

definition storytelHostFor :: "string \<Rightarrow> string" where
  "storytelHostFor region =
     (if region = ''uk'' then ''https://www.storytel.co.uk''
      else if region = ''us'' \<or> region = [] then ''https://www.storytel.com''
      else if \<not> isCCTLD region then ''https://www.storytel.com''
      else ''https://www.storytel.'' @ region)"

definition storytel_Get :: "source_env \<Rightarrow> nat \<Rightarrow> string \<Rightarrow> string \<Rightarrow> src_error + Candidate option" where
  "storytel_Get env n externalID region =
     (if asinRE externalID \<or> TrimSpace externalID = [] then Inr None
      else case GetJSON env n (storytelHostFor region @ ''/books/'' @ PathEscape externalID) of
        Inl e \<Rightarrow> Inl e
      | Inr body \<Rightarrow>
          (case parseStorytelBookPage env body of
             None \<Rightarrow> Inl SourcesErrNotFound
           | Some book \<Rightarrow> Inr (Some (complete_book storytelID externalID region body book))))"

definition storytel_Search :: "source_env \<Rightarrow> nat \<Rightarrow> string \<Rightarrow> string \<Rightarrow> src_error + Candidate list" where
  "storytel_Search env n query region =
     (let q = TrimSpace query in
      if asinRE query \<or> q = [] then Inr []
      else case GetJSON env n (storytelHostFor region @ ''/search?query='' @ QueryEscape q) of
        Inl e \<Rightarrow> if e = SourcesErrNotFound then Inr [] else Inl e
      | Inr body \<Rightarrow> Inr (complete_results storytelID region body (parseStorytelSearchPage env body)))"

definition Storytel :: "source_env \<Rightarrow> Source" where
  "Storytel env = \<lparr>s_ID = storytelID, s_Enabled = (\<lambda>cfg. cfg storytelID),
     s_Search = storytel_Search env, s_Get = storytel_Get env\<rparr>"


section \<open>bookbeat.go\<close>

definition bookbeatID :: string where "bookbeatID = ''bookbeat''"

definition bookbeatRegionDomains :: "(string \<times> string) list" where
  "bookbeatRegionDomains = [(''se'', ''https://www.bookbeat.com/se''), (''fi'', ''https://www.bookbeat.com/fi''),
     (''de'', ''https://www.bookbeat.de''), (''at'', ''https://www.bookbeat.at''), (''ch'', ''https://www.bookbeat.ch''),
     (''dk'', ''https://www.bookbeat.com/dk''), (''no'', ''https://www.bookbeat.com/no''), (''pl'', ''https://www.bookbeat.com/pl''),
     (''nl'', ''https://www.bookbeat.com/nl''), (''uk'', ''https://www.bookbeat.com/uk'')]"

definition bookbeatBookPaths :: "string list" where
  "bookbeatBookPaths = [''book'', ''bok'', ''buch'', ''boek'']"

definition bookbeatHostFor :: "string \<Rightarrow> string" where
  "bookbeatHostFor region =
     (case map_of bookbeatRegionDomains region of Some host \<Rightarrow> host | None \<Rightarrow> ''https://www.bookbeat.com/se'')"

text \<open>The loop over the path prefixes; only not-found goes on to the next.\<close>

fun bookbeat_try :: "source_env \<Rightarrow> nat \<Rightarrow> string \<Rightarrow> string \<Rightarrow> string list \<Rightarrow> src_error + Candidate option" where
  "bookbeat_try env n externalID region [] = Inl SourcesErrNotFound"
| "bookbeat_try env n externalID region (path # paths) =
     (case GetJSON env n (bookbeatHostFor region @ ''/'' @ path @ ''/'' @ PathEscape externalID) of
        Inl e \<Rightarrow> if e = SourcesErrNotFound then bookbeat_try env n externalID region paths else Inl e
      | Inr body \<Rightarrow>
          (case parseBookBeatBookPage env body of
             None \<Rightarrow> bookbeat_try env n externalID region paths
           | Some book \<Rightarrow> Inr (Some (complete_book bookbeatID externalID region body book))))"

definition bookbeat_Get :: "source_env \<Rightarrow> nat \<Rightarrow> string \<Rightarrow> string \<Rightarrow> src_error + Candidate option" where
  "bookbeat_Get env n externalID region =
     (if asinRE externalID \<or> TrimSpace externalID = [] then Inr None
      else bookbeat_try env n externalID region bookbeatBookPaths)"

definition bookbeat_Search :: "source_env \<Rightarrow> nat \<Rightarrow> string \<Rightarrow> string \<Rightarrow> src_error + Candidate list" where
  "bookbeat_Search env n query region =
     (let q = TrimSpace query in
      if asinRE query \<or> q = [] then Inr []
      else case GetJSON env n (bookbeatHostFor region @ ''/search?q='' @ QueryEscape q) of
        Inl e \<Rightarrow> if e = SourcesErrNotFound then Inr [] else Inl e
      | Inr body \<Rightarrow> Inr (complete_results bookbeatID region body (parseBookBeatSearchPage env body)))"

definition BookBeat :: "source_env \<Rightarrow> Source" where
  "BookBeat env = \<lparr>s_ID = bookbeatID, s_Enabled = (\<lambda>cfg. cfg bookbeatID),
     s_Search = bookbeat_Search env, s_Get = bookbeat_Get env\<rparr>"


section \<open>audioteka.go\<close>

definition audiotekaID :: string where "audiotekaID = ''audioteka''"

definition audiotekaRegionDomains :: "(string \<times> string) list" where
  "audiotekaRegionDomains = [(''pl'', ''https://audioteka.com/pl''), (''cz'', ''https://audioteka.com/cz''),
     (''de'', ''https://audioteka.com/de''), (''es'', ''https://audioteka.com/es''), (''lt'', ''https://audioteka.com/lt'')]"

text \<open>The path for Lithuania holds an s with caron, two bytes in UTF-8.\<close>

definition audiotekaSearchPaths :: "(string \<times> string) list" where
  "audiotekaSearchPaths = [(''pl'', ''szukaj''), (''cz'', ''hledat''), (''de'', ''suchen''), (''es'', ''buscar''),
     (''lt'', ''ie'' @ [CHR 0xC5, CHR 0xA1] @ ''koti'')]"

definition audiotekaHostFor :: "string \<Rightarrow> string" where
  "audiotekaHostFor region =
     (case map_of audiotekaRegionDomains region of Some host \<Rightarrow> host | None \<Rightarrow> ''https://audioteka.com/pl'')"

definition audioteka_Get :: "source_env \<Rightarrow> nat \<Rightarrow> string \<Rightarrow> string \<Rightarrow> src_error + Candidate option" where
  "audioteka_Get env n externalID region =
     (if asinRE externalID \<or> TrimSpace externalID = [] then Inr None
      else case GetJSON env n (audiotekaHostFor region @ ''/audiobook/'' @ PathEscape externalID) of
        Inl e \<Rightarrow> Inl e
      | Inr body \<Rightarrow>
          (case parseAudiotekaBookPage env body of
             None \<Rightarrow> Inl SourcesErrNotFound
           | Some book \<Rightarrow> Inr (Some (complete_book audiotekaID externalID region body book))))"

definition audioteka_Search :: "source_env \<Rightarrow> nat \<Rightarrow> string \<Rightarrow> string \<Rightarrow> src_error + Candidate list" where
  "audioteka_Search env n query region =
     (let q = TrimSpace query;
          searchPath = (case map_of audiotekaSearchPaths region of Some p \<Rightarrow> p | None \<Rightarrow> ''szukaj'')
      in if asinRE query \<or> q = [] then Inr []
         else case GetJSON env n (audiotekaHostFor region @ ''/'' @ searchPath @ ''?query='' @ QueryEscape q) of
           Inl e \<Rightarrow> if e = SourcesErrNotFound then Inr [] else Inl e
         | Inr body \<Rightarrow> Inr (complete_results audiotekaID region body (parseAudiotekaSearchPage env body)))"

definition Audioteka :: "source_env \<Rightarrow> Source" where
  "Audioteka env = \<lparr>s_ID = audiotekaID, s_Enabled = (\<lambda>cfg. cfg audiotekaID),
     s_Search = audioteka_Search env, s_Get = audioteka_Get env\<rparr>"

end
