(* ===== verification/Source_Spec.thy ===== *)
theory Source_Spec
  imports Source_Scrapers "HOL-Library.Multiset"
begin

text \<open>
  What the sources guarantee together: which hosts they talk to, how their candidates are labelled, that
  the bounded walk over a page's JSON misses nothing within its depth, and two defects of the scrapers.
\<close>


section \<open>The registry of main.go\<close>

definition all_sources :: "source_env \<Rightarrow> Source list" where
  "all_sources env = [Audnexus env, AudiMeta env, ITunes env, Storytel env, BookBeat env, Audioteka env, AudiobookCovers env]"

definition production_registry :: "source_env \<Rightarrow> Registry" where
  "production_registry env = fold (\<lambda>s reg. Register reg s) (all_sources env) []"

lemmas source_defs = Audnexus_def AudiMeta_def ITunes_def Storytel_def BookBeat_def Audioteka_def AudiobookCovers_def

lemmas source_ids = audnexusID_def audimetaID_def itunesID_def storytelID_def bookbeatID_def audiotekaID_def audiobookcoversID_def

lemma source_id [simp]:
  "s_ID (Audnexus env) = ''audnexus''" "s_ID (AudiMeta env) = ''audimeta''" "s_ID (ITunes env) = ''itunes''"
  "s_ID (Storytel env) = ''storytel''" "s_ID (BookBeat env) = ''bookbeat''" "s_ID (Audioteka env) = ''audioteka''"
  "s_ID (AudiobookCovers env) = ''audiobookcovers''"
  by (simp_all add: source_defs source_ids)


section \<open>Hosts\<close>

definition fixed_hosts :: "string list" where
  "fixed_hosts = [''https://api.audnex.us'', ''https://api.audimeta.de'', ''https://itunes.apple.com'',
     ''https://api.audiobookcovers.com'', ''https://www.storytel.com'', ''https://www.storytel.co.uk'',
     ''https://www.bookbeat.com'', ''https://www.bookbeat.de'', ''https://www.bookbeat.at'', ''https://www.bookbeat.ch'',
     ''https://audioteka.com'']"

text \<open>The URL is on one of the fixed hosts, or on a national Storytel site.\<close>

definition allowed :: "string \<Rightarrow> bool" where
  "allowed url \<longleftrightarrow> (\<exists>h rest. url = h @ ''/'' @ rest \<and>
     (h \<in> set fixed_hosts \<or> (\<exists>cc. isCCTLD cc \<and> h = ''https://www.storytel.'' @ cc)))"

lemma allowedI: "h \<in> set fixed_hosts \<Longrightarrow> allowed (h @ CHR ''/'' # rest)"
  by (auto simp: allowed_def)

lemma allowed_storytel [simp]: "allowed (storytelHostFor region @ CHR ''/'' # rest)"
proof (cases "isCCTLD region")
  case True
  then have "allowed ((''https://www.storytel.'' @ region) @ CHR ''/'' # rest)"
    unfolding allowed_def by (intro exI [of _ "''https://www.storytel.'' @ region"] exI [of _ rest]) auto
  moreover have "allowed (''https://www.storytel.com'' @ CHR ''/'' # rest)" "allowed (''https://www.storytel.co.uk'' @ CHR ''/'' # rest)"
    by (rule allowedI; simp add: fixed_hosts_def)+
  ultimately show ?thesis by (auto simp: storytelHostFor_def)
next
  case False
  have "allowed (''https://www.storytel.com'' @ CHR ''/'' # rest)" "allowed (''https://www.storytel.co.uk'' @ CHR ''/'' # rest)"
    by (rule allowedI; simp add: fixed_hosts_def)+
  with False show ?thesis by (auto simp: storytelHostFor_def)
qed

lemma allowed_bookbeat [simp]: "allowed (bookbeatHostFor region @ CHR ''/'' # rest)"
proof -
  have "allowed (''https://www.bookbeat.com'' @ CHR ''/'' # r)" "allowed (''https://www.bookbeat.de'' @ CHR ''/'' # r)"
    "allowed (''https://www.bookbeat.at'' @ CHR ''/'' # r)" "allowed (''https://www.bookbeat.ch'' @ CHR ''/'' # r)" for r
    by (rule allowedI; simp add: fixed_hosts_def)+
  then show ?thesis by (simp add: bookbeatHostFor_def bookbeatRegionDomains_def)
qed

lemma allowed_audioteka [simp]: "allowed (audiotekaHostFor region @ CHR ''/'' # rest)"
proof -
  have "allowed (''https://audioteka.com'' @ CHR ''/'' # r)" for r
    by (rule allowedI) (simp add: fixed_hosts_def)
  then show ?thesis by (simp add: audiotekaHostFor_def audiotekaRegionDomains_def)
qed

lemma allowed_apis [simp]:
  "allowed (audnexusBaseURL @ CHR ''/'' # rest)" "allowed (audimetaBaseURL @ CHR ''/'' # rest)"
  "allowed (itunesBaseURL @ CHR ''/'' # rest)" "allowed (audiobookcoversBaseURL @ CHR ''/'' # rest)"
  by (rule allowedI; simp add: fixed_hosts_def audnexusBaseURL_def audimetaBaseURL_def itunesBaseURL_def audiobookcoversBaseURL_def)+

text \<open>Apart from the requests, nothing looks at the network.\<close>

lemma net_frame:
  "sn_json (env\<lparr>sn_net := net\<rparr>) = sn_json env" "sn_unicode (env\<lparr>sn_net := net\<rparr>) = sn_unicode env"
  "sn_order (env\<lparr>sn_net := net\<rparr>) = sn_order env" "sn_wide (env\<lparr>sn_net := net\<rparr>) = sn_wide env"
  by simp_all

lemma UnmarshalInto_frame: "UnmarshalInto (env\<lparr>sn_net := net\<rparr>) = UnmarshalInto env"
  unfolding fun_eq_iff UnmarshalInto_def net_frame by simp

lemma other_net:
  assumes "\<forall>n url. allowed url \<longrightarrow> net n url = sn_net env n url"
  shows "allowed url \<Longrightarrow> GetJSON (env\<lparr>sn_net := net\<rparr>) n url = GetJSON env n url"
    and "parseJSONLD (env\<lparr>sn_net := net\<rparr>) = parseJSONLD env"
    and "extractFromNextData (env\<lparr>sn_net := net\<rparr>) = extractFromNextData env"
    and "extractFromBookBeatNextData (env\<lparr>sn_net := net\<rparr>) = extractFromBookBeatNextData env"
    and "extractFromAudiotekaInitialState (env\<lparr>sn_net := net\<rparr>) = extractFromAudiotekaInitialState env"
proof -
  have f: "float_int (env\<lparr>sn_net := net\<rparr>) = float_int env" by (simp add: fun_eq_iff float_int_def)
  have o': "runtime_of (env\<lparr>sn_net := net\<rparr>) = runtime_of env" "best_size (env\<lparr>sn_net := net\<rparr>) = best_size env"
    "series_of (env\<lparr>sn_net := net\<rparr>) = series_of env"
    unfolding fun_eq_iff runtime_of_def best_size_def series_of_def f by simp_all
  have c: "cover_of (env\<lparr>sn_net := net\<rparr>) = cover_of env" unfolding fun_eq_iff cover_of_def o' by simp
  have m: "storytelMapToCandidate (env\<lparr>sn_net := net\<rparr>) = storytelMapToCandidate env"
    "bookbeatMapToCandidate (env\<lparr>sn_net := net\<rparr>) = bookbeatMapToCandidate env"
    "audiotekaMapToCandidate (env\<lparr>sn_net := net\<rparr>) = audiotekaMapToCandidate env"
    unfolding fun_eq_iff storytelMapToCandidate_def bookbeatMapToCandidate_def audiotekaMapToCandidate_def o' c by simp_all
  have nd: "next_data (env\<lparr>sn_net := net\<rparr>) = next_data env" unfolding fun_eq_iff next_data_def net_frame by simp
  show "allowed url \<Longrightarrow> GetJSON (env\<lparr>sn_net := net\<rparr>) n url = GetJSON env n url"
    by (simp add: GetJSON_def assms)
  show "parseJSONLD (env\<lparr>sn_net := net\<rparr>) = parseJSONLD env"
    unfolding fun_eq_iff parseJSONLD_def jsonLD_doc_def net_frame by simp
  show "extractFromNextData (env\<lparr>sn_net := net\<rparr>) = extractFromNextData env"
    "extractFromBookBeatNextData (env\<lparr>sn_net := net\<rparr>) = extractFromBookBeatNextData env"
    "extractFromAudiotekaInitialState (env\<lparr>sn_net := net\<rparr>) = extractFromAudiotekaInitialState env"
    unfolding fun_eq_iff extractFromNextData_def extractFromBookBeatNextData_def extractFromAudiotekaInitialState_def
      traverseNextData_def traverseBookBeatNextData_def traverseAudiotekaData_def m nd net_frame by simp_all
qed

lemma pages_net:
  assumes "\<forall>n url. allowed url \<longrightarrow> net n url = sn_net env n url"
  shows "parseStorytelBookPage (env\<lparr>sn_net := net\<rparr>) = parseStorytelBookPage env"
    and "parseBookBeatBookPage (env\<lparr>sn_net := net\<rparr>) = parseBookBeatBookPage env"
    and "parseAudiotekaBookPage (env\<lparr>sn_net := net\<rparr>) = parseAudiotekaBookPage env"
    and "parseStorytelSearchPage (env\<lparr>sn_net := net\<rparr>) = parseStorytelSearchPage env"
    and "parseBookBeatSearchPage (env\<lparr>sn_net := net\<rparr>) = parseBookBeatSearchPage env"
    and "parseAudiotekaSearchPage (env\<lparr>sn_net := net\<rparr>) = parseAudiotekaSearchPage env"
  unfolding fun_eq_iff parseStorytelBookPage_def parseBookBeatBookPage_def parseAudiotekaBookPage_def book_page_def
    parseStorytelSearchPage_def parseBookBeatSearchPage_def parseAudiotekaSearchPage_def other_net(2-5) [of net env, OF assms]
  by simp_all


definition sample_source_env :: source_env where
  "sample_source_env = \<lparr>sn_net = (\<lambda>n url. Inl SrcDeadline), sn_json = (\<lambda>t. None), sn_unicode = ascii_unicode,
     sn_wide = (\<lambda>q. 0), sn_order = id\<rparr>"

definition hostile_net :: "nat \<Rightarrow> string \<Rightarrow> src_error + int \<times> bytes" where
  "hostile_net n url = (if take 8 url = ''https://'' then Inl SrcDeadline else Inr (200, ''{}''))"



section \<open>Labels\<close>

text \<open>What a source promises of the candidates it hands out.\<close>

definition labels :: "Source \<Rightarrow> bool" where
  "labels src \<longleftrightarrow>
     (\<forall>n i region c. s_Get src n i region = Inr (Some c) \<longrightarrow> cd_Source c = s_ID src) \<and>
     (\<forall>n q region cs. s_Search src n q region = Inr cs \<longrightarrow> (\<forall>c\<in>set cs. cd_Source c = s_ID src))"

lemma labelsI:
  assumes "\<And>n i region c. s_Get src n i region = Inr (Some c) \<Longrightarrow> cd_Source c = s_ID src"
    and "\<And>n q region cs c. s_Search src n q region = Inr cs \<Longrightarrow> c \<in> set cs \<Longrightarrow> cd_Source c = s_ID src"
  shows "labels src"
  using assms by (auto simp: labels_def)

lemma search_by_id_elem: "search_by_id r = Inr cs \<Longrightarrow> c \<in> set cs \<Longrightarrow> r = Inr (Some c)"
  by (auto simp: search_by_id_def split: sum.splits option.splits if_splits)

lemma complete_source [simp]:
  "cd_Source (complete_book src i region body c) = src"
  "c \<in> set (complete_results src region body books) \<Longrightarrow> cd_Source c = src"
  by (auto simp: complete_book_def complete_results_def)

lemma toCandidate_source [simp]:
  "cd_Source (audnexus_toCandidate b region raw) = audnexusID"
  "cd_Source (itunes_toCandidate u r region raw) = itunesID"
  by (auto simp: audnexus_toCandidate_def itunes_toCandidate_def Let_def split: option.splits)

lemma first_series_source [simp]: "cd_Source (first_series ss c) = cd_Source c"
  by (auto simp: first_series_def split: option.splits)

lemma audimeta_source [simp]:
  "cd_Source (audimeta_toCandidate b region raw) = audimetaID"
  "cd_Source (audimeta_result_toCandidate region r) = audimetaID"
  by (simp_all add: audimeta_toCandidate_def audimeta_result_toCandidate_def)

lemma map_sum_Inr: "map_sum id f r = Inr y \<longleftrightarrow> (\<exists>x. r = Inr x \<and> y = f x)"
  by (cases r) auto

lemma Get_source:
  "audnexus_Get env n i region = Inr (Some c) \<Longrightarrow> cd_Source c = audnexusID"
  "audimeta_Get env n i region = Inr (Some c) \<Longrightarrow> cd_Source c = audimetaID"
  "itunes_Get env n i region = Inr (Some c) \<Longrightarrow> cd_Source c = itunesID"
  "audiobookcovers_Get env n i region = Inr (Some c) \<Longrightarrow> cd_Source c = audiobookcoversID"
  "storytel_Get env n i region = Inr (Some c) \<Longrightarrow> cd_Source c = storytelID"
  "audioteka_Get env n i region = Inr (Some c) \<Longrightarrow> cd_Source c = audiotekaID"
  by (auto simp: audnexus_Get_def audimeta_Get_def itunes_Get_def audiobookcovers_Get_def storytel_Get_def audioteka_Get_def
      map_sum_Inr split: if_splits sum.splits option.splits list.splits)

lemma bookbeat_Get_source: "bookbeat_Get env n i region = Inr (Some c) \<Longrightarrow> cd_Source c = bookbeatID"
proof -
  have "bookbeat_try env n i region paths = Inr (Some c) \<Longrightarrow> cd_Source c = bookbeatID" for paths
    by (induction paths) (auto split: if_splits sum.splits option.splits)
  then show "bookbeat_Get env n i region = Inr (Some c) \<Longrightarrow> cd_Source c = bookbeatID"
    by (auto simp: bookbeat_Get_def split: if_splits)
qed

lemma audnexus_searchByAuthor_source:
  assumes "audnexus_searchByAuthor env n q region = Inr cs" and "c \<in> set cs"
  shows "cd_Source c = audnexusID"
  using assms
  by (auto simp: audnexus_searchByAuthor_def Let_def map_sum_Inr Get_source
      split: if_splits sum.splits option.splits prod.splits)

lemma audimeta_searchByTitle_source:
  assumes "audimeta_searchByTitle env n q region = Inr cs" and "c \<in> set cs"
  shows "cd_Source c = audimetaID"
  using assms
  by (auto simp: audimeta_searchByTitle_def searchResultsToCandidate_def
      split: if_splits sum.splits option.splits prod.splits)

lemma sources_label: "src \<in> set (all_sources env) \<Longrightarrow> labels src"
proof -
  have "labels (Audnexus env)"
    by (rule labelsI) (auto simp: Audnexus_def audnexus_Search_def Get_source audnexus_searchByAuthor_source
        dest!: search_by_id_elem split: if_splits)
  moreover have "labels (AudiMeta env)"
    by (rule labelsI) (auto simp: AudiMeta_def audimeta_Search_def Get_source audimeta_searchByTitle_source
        dest!: search_by_id_elem split: if_splits)
  moreover have "labels (AudiobookCovers env)"
    by (rule labelsI) (auto simp: AudiobookCovers_def audiobookcovers_Search_def Get_source
        dest!: search_by_id_elem split: if_splits)
  moreover have "labels (ITunes env)"
    by (rule labelsI) (auto simp: ITunes_def itunes_Search_def Get_source map_sum_Inr split: if_splits sum.splits)
  moreover have "labels (Storytel env)" "labels (BookBeat env)" "labels (Audioteka env)"
    by (rule labelsI; auto simp: Storytel_def storytel_Search_def BookBeat_def bookbeat_Search_def Audioteka_def audioteka_Search_def
        Get_source bookbeat_Get_source Let_def split: if_splits sum.splits)+
  ultimately show "src \<in> set (all_sources env) \<Longrightarrow> labels src"
    by (auto simp: all_sources_def)
qed

text \<open>
  Every source of the plugin is found in the registry under its own id, which has no colon, and labels
  all its candidates with it: what a search or a lookup of the source returns names the source that can be
  asked again.
\<close>

theorem sources_label_candidates:
  assumes "src \<in> set (all_sources env)"
  shows "ForID (production_registry env) (s_ID src) = Some src \<and> s_ID src \<noteq> [] \<and> CHR '':'' \<notin> set (s_ID src) \<and>
    (\<forall>c. s_Get src n i region = Inr (Some c) \<longrightarrow> cd_Source c = s_ID src) \<and>
    (\<forall>cs. s_Search src n q region = Inr cs \<longrightarrow> (\<forall>c\<in>set cs. ForID (production_registry env) (cd_Source c) = Some src))"
proof -
  have "ForID (production_registry env) (s_ID src) = Some src"
    using assms by (auto simp: production_registry_def all_sources_def ForID_Register)
  moreover have "s_ID src \<noteq> [] \<and> CHR '':'' \<notin> set (s_ID src)"
    using assms by (auto simp: all_sources_def)
  ultimately show ?thesis
    using sources_label [OF assms] by (auto simp: labels_def)
qed

text \<open>An upstream that answers every request with one document.\<close>

definition cover_document :: json where
  "cover_document = JObj [(''asin'', JStr ''B000000001''), (''cover_url'', JStr ''https://img/1.jpg'')]"

definition cover_env :: source_env where
  "cover_env = sample_source_env\<lparr>sn_net := (\<lambda>n url. Inr (200, ''x'')), sn_json := (\<lambda>t. Some cover_document)\<rparr>"

theorem sources_label_candidates_witness:
  "\<exists>c. s_Search (AudiobookCovers cover_env) 0 ''B000000001'' ''us'' = Inr [c] \<and> cd_CoverURL c = ''https://img/1.jpg'' \<and>
     ForID (production_registry cover_env) (cd_Source c) = Some (AudiobookCovers cover_env)"
proof -
  have "asinRE ''B000000001''" by code_simp
  moreover have "decode_audiobookcoversResponse ascii_unicode cover_document = Some ''https://img/1.jpg''" by code_simp
  moreover have "GetJSON cover_env 0 url = Inr ''x''" for url by (simp add: GetJSON_def cover_env_def SoftLimit_def)
  ultimately have "\<exists>c. audiobookcovers_Search cover_env 0 ''B000000001'' ''us'' = Inr [c] \<and> cd_CoverURL c = ''https://img/1.jpg''"
    by (simp add: audiobookcovers_Search_def audiobookcovers_Get_def search_by_id_def UnmarshalInto_def)
      (simp add: cover_env_def sample_source_env_def)
  moreover have "AudiobookCovers cover_env \<in> set (all_sources cover_env)" by (simp add: all_sources_def)
  ultimately show ?thesis
    using sources_label_candidates [of "AudiobookCovers cover_env" cover_env 0 _ "''us''" "''B000000001''"]
    by (auto simp: AudiobookCovers_def)
qed


section \<open>The walk over a page's JSON\<close>

text \<open>
  The reference: a book object is at depth \<open>d\<close> of a value when \<open>d\<close> steps into array elements and members of
  objects that are not books themselves lead to it.
\<close>

inductive book_at :: "((string \<times> json) list \<Rightarrow> bool) \<Rightarrow> json \<Rightarrow> nat \<Rightarrow> (string \<times> json) list \<Rightarrow> bool"
  for is_book where
  here: "is_book m \<Longrightarrow> book_at is_book (JObj m) 0 m"
| element: "v \<in> set vs \<Longrightarrow> book_at is_book v d m \<Longrightarrow> book_at is_book (JArr vs) (Suc d) m"
| member: "\<not> is_book obj \<Longrightarrow> field obj k = Some v \<Longrightarrow> book_at is_book v d m \<Longrightarrow> book_at is_book (JObj obj) (Suc d) m"

inductive_simps book_at_simps:
  "book_at is_book JNull d m" "book_at is_book (JBool b) d m" "book_at is_book (JInt n) d m" "book_at is_book (JDec q) d m"
  "book_at is_book (JStr s) d m" "book_at is_book (JArr vs) d m" "book_at is_book (JObj obj) d m"

lemma fold_update: "map_of (fold (\<lambda>(k, v) acc. AList.update k v acc) m acc) = map_of acc ++ map_of (rev m)"
  by (induction m arbitrary: acc) (auto simp: update_conv' map_add_def fun_eq_iff split: option.splits)

lemma distinct_fold_update:
  "distinct (map fst acc) \<Longrightarrow> distinct (map fst (fold (\<lambda>(k, v) acc. AList.update k v acc) m acc))"
  by (induction m arbitrary: acc) (auto simp: distinct_update)

lemma set_map_values: "set (map_values m) = {v. \<exists>k. field m k = Some v}"
proof -
  let ?al = "fold (\<lambda>(k, v) acc. AList.update k v acc) m []"
  have "map_of ?al = map_of (rev m)" by (simp add: fold_update)
  moreover have "(k, v) \<in> set ?al \<longleftrightarrow> map_of ?al k = Some v" for k v
    using distinct_fold_update [of "[]" m] by (simp add: map_of_eq_Some_iff)
  ultimately show ?thesis by (force simp: map_values_def field_def)
qed

lemma traverse_set:
  assumes "\<forall>vs. mset (order vs) = mset vs"
  shows "set (traverse order is_book conv fuel v) = {c. \<exists>d m. d < fuel \<and> book_at is_book v d m \<and> conv m = Some c}"
proof (induction fuel arbitrary: v)
  case (Suc fuel)
  have order: "set (order vs) = set vs" for vs by (rule mset_eq_setD) (simp add: assms)
  show ?case
  proof (cases v)
    case (JArr vs)
    then show ?thesis by (fastforce simp: Suc book_at_simps Suc_less_eq2)
  next
    case (JObj m)
    then show ?thesis
      by (cases "is_book m") (fastforce simp: Suc book_at_simps order set_map_values Suc_less_eq2 split: option.splits)+
  qed (simp_all add: book_at_simps)
qed simp

lemma traverse_order:
  assumes "\<forall>vs. mset (order vs) = mset vs" and "\<forall>vs. mset (order' vs) = mset vs"
  shows "mset (traverse order is_book conv fuel v) = mset (traverse order' is_book conv fuel v)"
proof (induction fuel arbitrary: v)
  case (Suc fuel)
  have collect: "mset (concat (map f vs)) = \<Sum>\<^sub># (image_mset (\<lambda>v. mset (f v)) (mset vs))" for f :: "json \<Rightarrow> Candidate list" and vs
    by (induction vs) auto
  show ?case
    by (cases v) (simp_all add: collect assms Suc split: option.split)
qed simp

text \<open>
  C15. The walk over a page's embedded JSON finds exactly the books down to its depth limit, whatever the
  shape of the document: the candidates collected are those converted from book objects at depth at most
  64, and Go's random order of map iteration changes the order in which they come, but not which candidates
  are found, nor how often.
\<close>

theorem page_walk_exact:
  assumes "\<forall>vs. mset (sn_order env vs) = mset vs"
  shows "set (traverseNextData env v 0) =
      {c. \<exists>d m. d \<le> maxTraverseDepth \<and> book_at isStorytelBook v d m \<and> storytelMapToCandidate env m = Some c} \<and>
    set (traverseBookBeatNextData env v 0) =
      {c. \<exists>d m. d \<le> maxTraverseDepth \<and> book_at isBookBeatBook v d m \<and> bookbeatMapToCandidate env m = Some c} \<and>
    set (traverseAudiotekaData env v 0) =
      {c. \<exists>d m. d \<le> maxTraverseDepth \<and> book_at isAudiotekaBook v d m \<and> audiotekaMapToCandidate env m = Some c} \<and>
    (\<forall>order. (\<forall>vs. mset (order vs) = mset vs) \<longrightarrow>
      mset (traverse order isStorytelBook (storytelMapToCandidate env) (Suc maxTraverseDepth) v) = mset (traverseNextData env v 0) \<and>
      mset (traverse order isBookBeatBook (bookbeatMapToCandidate env) (Suc maxTraverseDepth) v) = mset (traverseBookBeatNextData env v 0) \<and>
      mset (traverse order isAudiotekaBook (audiotekaMapToCandidate env) (Suc maxTraverseDepth) v) = mset (traverseAudiotekaData env v 0))"
  unfolding traverseNextData_def traverseBookBeatNextData_def traverseAudiotekaData_def diff_zero
    traverse_set [OF assms] less_Suc_eq_le
  using traverse_order [OF _ assms] by blast

text \<open>A page's state with two books in one object.\<close>

definition book_of :: "string \<Rightarrow> string \<Rightarrow> json" where
  "book_of title i = JObj [(''title'', JStr title), (''bookId'', JStr i)]"

definition two_books_state :: json where
  "two_books_state = JObj [(''first'', book_of ''Alpha'' ''1''), (''second'', book_of ''Beta'' ''2'')]"

theorem page_walk_exact_witness:
  "map cd_Title (traverseNextData (sample_source_env\<lparr>sn_order := rev\<rparr>) two_books_state 0) = [''Beta'', ''Alpha''] \<and>
   mset (traverse id isStorytelBook (storytelMapToCandidate (sample_source_env\<lparr>sn_order := rev\<rparr>)) (Suc maxTraverseDepth) two_books_state) =
     mset (traverseNextData (sample_source_env\<lparr>sn_order := rev\<rparr>) two_books_state 0)"
proof
  show "map cd_Title (traverseNextData (sample_source_env\<lparr>sn_order := rev\<rparr>) two_books_state 0) = [''Beta'', ''Alpha'']"
    by code_simp
  have "\<forall>vs. mset (sn_order (sample_source_env\<lparr>sn_order := rev\<rparr>) vs) = mset vs" by simp
  from page_walk_exact [OF this]
  show "mset (traverse id isStorytelBook (storytelMapToCandidate (sample_source_env\<lparr>sn_order := rev\<rparr>)) (Suc maxTraverseDepth) two_books_state) =
     mset (traverseNextData (sample_source_env\<lparr>sn_order := rev\<rparr>) two_books_state 0)"
    by simp
qed


section \<open>Defects of the scrapers\<close>

definition state_page :: string where
  "state_page = ''<script '' @ nextData_attr @ ''>{}</script>''"

definition state_env :: "(json list \<Rightarrow> json list) \<Rightarrow> source_env" where
  "state_env order = sample_source_env\<lparr>sn_json := (\<lambda>t. Some two_books_state), sn_order := order\<rparr>"

text \<open>
  The book a page without JSON-LD stands for is the first one the walk meets. When its state holds several
  in one object, such as related titles, that is decided by the order of map iteration, which Go randomises:
  two lookups of one id can give different books.
\<close>

theorem map_order_decides_book:
  "map_option cd_Title (parseStorytelBookPage (state_env id) state_page) = Some ''Alpha'' \<and>
   map_option cd_Title (parseStorytelBookPage (state_env rev) state_page) = Some ''Beta''"
  by code_simp

declare traverse.simps(2) [simp del]

lemma traverse_conv: "c \<in> set (traverse order is_book conv fuel v) \<Longrightarrow> \<exists>m. conv m = Some c"
  by (induction fuel arbitrary: v) (auto simp: traverse.simps(2) split: json.splits if_splits option.splits)

lemma parsed_raw:
  "c \<in> set (parseStorytelSearchPage env body) \<Longrightarrow> cd_Raw c = []"
  "c \<in> set (parseBookBeatSearchPage env body) \<Longrightarrow> cd_Raw c = []"
  "c \<in> set (parseAudiotekaSearchPage env body) \<Longrightarrow> cd_Raw c = []"
proof -
  have conv: "storytelMapToCandidate env m = Some c \<Longrightarrow> cd_Raw c = []" "bookbeatMapToCandidate env m = Some c \<Longrightarrow> cd_Raw c = []"
    "audiotekaMapToCandidate env m = Some c \<Longrightarrow> cd_Raw c = []" "parseJSONLD env html = Some c \<Longrightarrow> cd_Raw c = []" for m html c
    by (auto simp: storytelMapToCandidate_def bookbeatMapToCandidate_def audiotekaMapToCandidate_def parseJSONLD_def
        zero_candidate_def Let_def split: if_splits option.splits)
  show "c \<in> set (parseStorytelSearchPage env body) \<Longrightarrow> cd_Raw c = []"
    "c \<in> set (parseBookBeatSearchPage env body) \<Longrightarrow> cd_Raw c = []"
    by (auto simp: parseStorytelSearchPage_def extractFromNextData_def traverseNextData_def parseBookBeatSearchPage_def
        extractFromBookBeatNextData_def traverseBookBeatNextData_def conv split: option.splits dest!: in_set_takeD traverse_conv)
  have "c \<in> set (extractFromAudiotekaInitialState env body) \<Longrightarrow> cd_Raw c = []" for c
    by (auto simp: extractFromAudiotekaInitialState_def traverseAudiotekaData_def conv split: option.splits dest!: traverse_conv)
  then show "c \<in> set (parseAudiotekaSearchPage env body) \<Longrightarrow> cd_Raw c = []"
    by (auto simp: parseAudiotekaSearchPage_def conv split: list.splits option.splits dest!: in_set_takeD)
qed

lemma complete_results_raw:
  "(\<And>b. b \<in> set books \<Longrightarrow> cd_Raw b = []) \<Longrightarrow> c \<in> set (complete_results src region body books) \<Longrightarrow> cd_Raw c = body"
  unfolding complete_results_def set_map by (erule imageE) simp

lemma results_raw:
  "c \<in> set (complete_results src region body (parseStorytelSearchPage env page)) \<Longrightarrow> cd_Raw c = body"
  "c \<in> set (complete_results src region body (parseBookBeatSearchPage env page)) \<Longrightarrow> cd_Raw c = body"
  "c \<in> set (complete_results src region body (parseAudiotekaSearchPage env page)) \<Longrightarrow> cd_Raw c = body"
  by (erule complete_results_raw [rotated], erule parsed_raw)+

lemma scraped_raw:
  assumes "src \<in> {Storytel env, BookBeat env, Audioteka env}" and "s_Search src n query region = Inr cs" and "c \<in> set cs"
  shows "\<exists>url. GetJSON env n url = Inr (cd_Raw c)"
proof -
  have "\<exists>url. GetJSON env n url = Inr (cd_Raw c)" if "storytel_Search env n query region = Inr cs"
    using that assms(3) by (auto simp: storytel_Search_def Let_def dest: results_raw split: if_splits sum.splits)
  moreover have "\<exists>url. GetJSON env n url = Inr (cd_Raw c)" if "bookbeat_Search env n query region = Inr cs"
    using that assms(3) by (auto simp: bookbeat_Search_def Let_def dest: results_raw split: if_splits sum.splits)
  moreover have "\<exists>url. GetJSON env n url = Inr (cd_Raw c)" if "audioteka_Search env n query region = Inr cs"
    using that assms(3) by (auto simp: audioteka_Search_def Let_def dest: results_raw split: if_splits sum.splits)
  ultimately show ?thesis using assms(1,2) by (auto simp: Storytel_def BookBeat_def Audioteka_def)
qed

text \<open>
  A scraped search is never cached: its candidates carry the page's HTML as raw JSON, so encoding the
  list fails, as \<^verbatim>\<open>json.Marshal\<close> does on a \<^verbatim>\<open>RawMessage\<close> that is not JSON, and the error is dropped.
\<close>

theorem scraped_search_never_cached:
  assumes "\<forall>cs. (\<exists>c\<in>set cs. cd_Raw c \<noteq> [] \<and> sn_json env (cd_Raw c) = None) \<longrightarrow> ag_marshal ag cs = None"
    and "src \<in> {Storytel env, BookBeat env, Audioteka env}"
    and "\<forall>n url body. GetJSON env n url = Inr body \<longrightarrow> body \<noteq> [] \<and> sn_json env body = None"
    and "fetch_live ag src query region original s = (m # ms, s')"
  shows "s' = s"
proof (cases "s_Search src (sv_calls s) query region")
  case (Inr cs)
  have "ag_marshal ag cs = None" if "cs \<noteq> []"
    using assms(1,3) scraped_raw [OF assms(2) Inr, of "hd cs"] that by (metis hd_in_set)
  with Inr assms(4) show ?thesis
    by (auto simp: fetch_live_def Let_def split: if_splits)
qed (use assms(4) in \<open>auto simp: fetch_live_def split: if_splits\<close>)

text \<open>
  A book whose id is a JSON number loses it: the converters read ids as strings only. The candidate's
  external id then parses to nothing, so a result of a search cannot be looked up.
\<close>

theorem numeric_id_lost:
  "map_option cd_ExternalID (storytelMapToCandidate sample_source_env [(''title'', JStr ''Alpha''), (''bookId'', JInt 4711)]) = Some [] \<and>
   ParseExternalID (FormatExternalID storytelID []) = None"
  by code_simp

end
