(* ===== verification/Plugin.thy ===== *)
theory Plugin
  imports Preservation Runtime_Config Http_Spec Scheduler Migrate Metadata_Provider Source_Spec
begin

text \<open>
  The entry point, \<^verbatim>\<open>cmd/silo-plugin-local-audiobooks/main.go\<close>: the scan that the scheduler and the admin
  page trigger, and the callback that applies a configuration. The atomic pointers of \<open>main\<close> are the
  fields of \<open>plugin\<close>.
\<close>


section \<open>State\<close>

text \<open>
  A pointer that only says whether it is set is a \<open>bool\<close>. The host's handler is built from the store
  and \<open>runScan\<close> alone; the standalone handler also has a secret, which stands for it here.
\<close>

record 'j plugin =
  pl_store :: bool
  pl_worker :: "('j, json) EnrichmentWorker option"
  pl_cache :: "time option"
  pl_app_cfg :: "AppConfig option"
  pl_cfg :: "Config option"
  pl_http :: bool
  pl_standalone :: "bytes option"
  pl_standalone_addr :: "string option"
  pl_meta :: "'j provider"

definition unconfigured :: "'j plugin" where
  "unconfigured = \<lparr>pl_store = False, pl_worker = None, pl_cache = None, pl_app_cfg = None, pl_cfg = None,
     pl_http = False, pl_standalone = None, pl_standalone_addr = None,
     pl_meta = \<lparr>pv_agg = None, pv_reg = None, pv_enabled = None, pv_region = None\<rparr>\<rparr>"

text \<open>
  The world around \<open>main\<close>: the file systems below the library roots, the texts of errors, the database
  addresses that parse and connect, how the connection of the migrations fares, the surroundings of
  the sources and of the aggregator (whose cache lifetime and rate come from the settings), and what the
  worker takes from its surroundings.
\<close>

record 'j main_env =
  me_walk :: walk_env
  me_fs :: "string \<Rightarrow> fs_node option"
  me_walk_text :: "sql_error walk_error \<Rightarrow> string"
  me_unicode :: unicode
  me_pg :: postgres
  me_ParseConfig :: "string \<Rightarrow> bool"
  me_NewPool :: "string \<Rightarrow> bool"
  me_link :: "nat \<Rightarrow> link"
  me_sources :: source_env
  me_agg :: "'j agg_env"
  me_ctx :: "nat \<Rightarrow> ctx_error option"
  me_locked :: "nat \<Rightarrow> string list"
  me_sql_text :: "sql_error \<Rightarrow> string"


section \<open>runScan and drainWorker\<close>

definition add_result :: "WalkResult \<Rightarrow> WalkResult \<Rightarrow> WalkResult" where
  "add_result a b = \<lparr>wr_Added = wr_Added a + wr_Added b, wr_Changed = wr_Changed a + wr_Changed b,
     wr_Deleted = wr_Deleted a + wr_Deleted b\<rparr>"

text \<open>The queue is set whenever the store is.\<close>

definition library_params :: "LibraryPath \<Rightarrow> (('j, json) server_state, sql_error) WalkParams" where
  "library_params lp =
     \<lparr>wp_LibraryPathID = lp_ID lp, wp_Root = lp_Path lp, wp_EnrichmentQueue = Some queue_Enqueue\<rparr>"

text \<open>The loop over the library paths, with the totals so far.\<close>

fun scan_libraries ::
  "'j main_env \<Rightarrow> LibraryPath list \<Rightarrow> WalkResult \<Rightarrow> ('j, json) server_state \<Rightarrow>
   (sql_error walk_error option \<times> WalkResult) \<times> ('j, json) server_state" where
  "scan_libraries env [] tot s = ((None, tot), s)"
| "scan_libraries env (lp # lps) tot s =
     (if \<not> lp_Enabled lp then scan_libraries env lps tot s
      else case Walk StoreAdapter (library_params lp) (me_walk env) (me_fs env (lp_Path lp)) s of
        ((Some e, _), s1) \<Rightarrow> ((Some e, tot), s1)
      | ((None, res), s1) \<Rightarrow>
          scan_libraries env lps (add_result tot res) (snd (run_stmt (MarkLibraryScanned (lp_ID lp)) s1)))"

datatype scan_error = StoreNotConfigured | ListPathsFailed sql_error | WalkFailed "sql_error walk_error"

text \<open>
  The event id and the error, as Go returns both. \<open>None\<close> stands for a scan that never returns, which
  only its inline drain could cause.
\<close>

definition runScan ::
  "'j main_env \<Rightarrow> 'j plugin \<Rightarrow> ('j, json) server_state \<Rightarrow>
   ((int \<times> scan_error option) \<times> ('j, json) server_state) option" where
  "runScan env pl s =
     (if \<not> pl_store pl then Some ((0, Some StoreNotConfigured), s)
      else case run_stmt ListLibraryPaths s of
        (Inl e, s1) \<Rightarrow> Some ((0, Some (ListPathsFailed e)), s1)
      | (Inr paths, s1) \<Rightarrow>
          (let (ev, s2) = run_stmt (InsertScanEvent None) s1;
               eventID = (case ev of Inr i \<Rightarrow> i | Inl _ \<Rightarrow> 0)
           in case scan_libraries env paths zero_result s2 of
                ((Some e, tot), s3) \<Rightarrow>
                  Some ((eventID, Some (WalkFailed e)), snd (run_stmt (FinishScanEvent eventID (wr_Added tot)
                    (wr_Changed tot) (wr_Deleted tot) (me_walk_text env e)) s3))
              | ((None, tot), s3) \<Rightarrow>
                  (let s4 = snd (run_stmt (FinishScanEvent eventID (wr_Added tot) (wr_Changed tot) (wr_Deleted tot) []) s3)
                   in case (if (\<exists>c\<in>set_option (pl_app_cfg pl). ac_ScanInlineEnrich c)
                            then (case pl_worker pl of
                                    None \<Rightarrow> Some s4
                                  | Some w \<Rightarrow> map_option snd (Drain w s4))
                            else Some s4) of
                        None \<Rightarrow> None
                      | Some s5 \<Rightarrow>
                          Some ((eventID, None), (case pl_cache pl of
                              None \<Rightarrow> s5
                            | Some ttl \<Rightarrow> snd (run_stmt (EvictExpired ttl) s5))))))"

definition drainWorker ::
  "'j plugin \<Rightarrow> ('j, json) server_state \<Rightarrow> (drain_error option \<times> ('j, json) server_state) option" where
  "drainWorker pl s = (case pl_worker pl of Some w \<Rightarrow> Drain w s | None \<Rightarrow> Some (None, s))"


section \<open>Migrations\<close>

text \<open>
  The embedded up-files; the down-files are never run. The tables of a migration exist exactly when its
  version is recorded, because both happen in one transaction, so creating them again fails. A new table
  has no rows, and the column that the third file adds has its default in every row of \<^typ>\<open>Audiobook\<close>.
\<close>

definition create_tables :: "string \<Rightarrow> ('j, json) db \<Rightarrow> ('j, json) db option" where
  "create_tables version d = (if \<exists>vs\<in>set_option (t_schema_migration d). version \<in> set vs then None else Some d)"

definition init_app_config :: "('j, json) db \<Rightarrow> ('j, json) db option" where
  "init_app_config d =
     Some (if t_app_config d = None then d\<lparr>t_app_config := Some (marshal_config DefaultAppConfig)\<rparr> else d)"

definition migration_files :: "('j, json) db migration list" where
  "migration_files = [(''0001_init.up.sql'', create_tables ''0001_init''), (''0002_metadata.up.sql'', create_tables ''0002_metadata''),
     (''0003_content_sig.up.sql'', Some), (''0004_app_config.up.sql'', init_app_config)]"

text \<open>\<^verbatim>\<open>migrate.Run\<close> on the database of the server.\<close>

definition run_migrations :: "(nat \<Rightarrow> link) \<Rightarrow> ('j, json) server_state \<Rightarrow> migrate_error option \<times> ('j, json) server_state" where
  "run_migrations link s =
     (let (r, sd) = migrate_Run migration_files
            \<lparr>sd_versions = t_schema_migration (sv_db s), sd_data = sv_db s, sd_calls = sv_calls s, sd_link = link\<rparr>
      in (r, s\<lparr>sv_db := (sd_data sd)\<lparr>t_schema_migration := sd_versions sd\<rparr>, sv_calls := sd_calls sd\<rparr>))"


section \<open>The configuration callback\<close>

definition appConfigFromRuntimeConfig :: "Config \<Rightarrow> AppConfig" where
  "appConfigFromRuntimeConfig cfg = WithDefaults \<lparr>
     ac_MetadataSourcesEnabled = cf_MetadataSourcesEnabled cfg,
     ac_MetadataDefaultRegion = cf_MetadataDefaultRegion cfg,
     ac_MetadataCacheTTLDays = cf_MetadataCacheTTLDays cfg,
     ac_MetadataRateLimitRPS = cf_MetadataRateLimitRPS cfg,
     ac_ScanInlineEnrich = cf_ScanInlineEnrich cfg,
     ac_MetadataScanSource = cf_MetadataScanSource cfg,
     ac_StandaloneHTTPListen = cf_StandaloneHTTPListen cfg,
     ac_StreamSigningSecret = cf_StreamSigningSecret cfg\<rparr>"

definition new_worker :: "'j main_env \<Rightarrow> AppConfig \<Rightarrow> ('j, json) EnrichmentWorker" where
  "new_worker env c = \<lparr>wk_Queue = me_pg env, wk_Store = worker_store, wk_Registry = worker_ForID (production_registry (me_sources env)),
     wk_SourceID = ac_MetadataScanSource c, wk_Region = ac_MetadataDefaultRegion c, wk_ctx = me_ctx env,
     wk_locked = me_locked env, wk_sql_text = me_sql_text env\<rparr>"

text \<open>\<^verbatim>\<open>time.Duration(days) * 24 * time.Hour\<close>, in 64 bits.\<close>

definition cache_ttl :: "AppConfig \<Rightarrow> time" where
  "cache_ttl c = wrap64 (ac_MetadataCacheTTLDays c * (24 * 3600000000000))"

definition new_aggregator :: "'j main_env \<Rightarrow> AppConfig \<Rightarrow> 'j agg_env" where
  "new_aggregator env c = (me_agg env)\<lparr>ag_ttl := cache_ttl c, ag_rps := ac_MetadataRateLimitRPS c\<rparr>"

text \<open>
  The functions for the enabled sources and the region read the settings that the same callback has just
  loaded, so their values are fixed here.
\<close>

definition configureMetadata :: "'j main_env \<Rightarrow> AppConfig \<Rightarrow> 'j plugin \<Rightarrow> 'j plugin" where
  "configureMetadata env c pl = pl\<lparr>pl_cache := Some (cache_ttl c), pl_worker := Some (new_worker env c),
     pl_meta := SetRegion (ac_MetadataDefaultRegion c) (SetEnabled (\<lambda>i. i \<in> set (ac_MetadataSourcesEnabled c))
       (SetRegistry (production_registry (me_sources env)) (SetAggregator (new_aggregator env c) (pl_meta pl))))\<rparr>"

definition host_deps :: "(('j, json) server_state \<Rightarrow> (string + int) \<times> ('j, json) server_state) \<Rightarrow> 'j Deps" where
  "host_deps scan = \<lparr>dp_StandaloneOn = False, dp_StreamSecret = [], dp_Scan = Some scan\<rparr>"

definition standalone_deps :: "bytes \<Rightarrow> 'j Deps" where
  "standalone_deps secret = \<lparr>dp_StandaloneOn = True, dp_StreamSecret = secret, dp_Scan = None\<rparr>"

datatype setup_error =
    ParseDBFailed
  | PoolFailed
  | MigrateFailed migrate_error
  | ImportFailed app_config_error
  | LoadFailed app_config_error
  | DecodeSecretFailed secret_error

text \<open>A failed upsert is logged only.\<close>

definition sync_paths :: "string list \<Rightarrow> ('j, json) server_state \<Rightarrow> ('j, json) server_state" where
  "sync_paths paths s = fold (\<lambda>p s. snd (run_stmt (UpsertLibraryPath p) s)) paths s"

text \<open>
  The part of the callback after the settings are loaded. It starts the standalone listener once; its
  address stays that of the first start.
\<close>

definition apply_settings ::
  "'j main_env \<Rightarrow> Config \<Rightarrow> AppConfig \<Rightarrow> 'j plugin \<Rightarrow> ('j, json) server_state \<Rightarrow>
   setup_error option \<times> 'j plugin \<times> ('j, json) server_state" where
  "apply_settings env cfg appCfg pl s =
     (let s1 = sync_paths (cf_LibraryPaths cfg) s;
          pl1 = configureMetadata env appCfg (pl\<lparr>pl_app_cfg := Some appCfg\<rparr>)\<lparr>pl_http := True\<rparr>;
          done = (\<lambda>pl. (None, pl\<lparr>pl_store := True, pl_cfg := Some cfg\<rparr>, s1))
      in if ac_StandaloneHTTPListen appCfg = [] then done pl1
         else case DecodeStreamSigningSecret (ac_StreamSigningSecret appCfg) of
           Inl e \<Rightarrow> (Some (DecodeSecretFailed e), pl1, s1)
         | Inr secret \<Rightarrow>
             done (pl1\<lparr>pl_standalone := Some secret,
               pl_standalone_addr := (case pl_standalone_addr pl1 of
                   None \<Rightarrow> Some (ac_StandaloneHTTPListen appCfg)
                 | Some a \<Rightarrow> Some a)\<rparr>))"

text \<open>The callback, on the server of the database that the configuration names.\<close>

definition onConfigure ::
  "'j main_env \<Rightarrow> Config \<Rightarrow> 'j plugin \<times> ('j, json) server_state \<Rightarrow>
   setup_error option \<times> 'j plugin \<times> ('j, json) server_state" where
  "onConfigure env cfg st =
     (let (pl, s) = st in
      if \<not> me_ParseConfig env (cf_DatabaseURL cfg) then (Some ParseDBFailed, pl, s)
      else if \<not> me_NewPool env (cf_DatabaseURL cfg) then (Some PoolFailed, pl, s)
      else case run_migrations (me_link env) s of
        (Some e, s1) \<Rightarrow> (Some (MigrateFailed e), pl, s1)
      | (None, s1) \<Rightarrow>
          (case ImportLegacyAppConfig (me_unicode env) (appConfigFromRuntimeConfig cfg) s1 of
             (Inl e, s2) \<Rightarrow> (Some (ImportFailed e), pl, s2)
           | (Inr _, s2) \<Rightarrow>
               (case GetAppConfig (me_unicode env) s2 of
                  (Inl e, s3) \<Rightarrow> (Some (LoadFailed e), pl, s3)
                | (Inr appCfg, s3) \<Rightarrow> apply_settings env cfg appCfg pl s3)))"


section \<open>What a scan does\<close>

lemma library_params_queue [simp]:
  "wp_EnrichmentQueue (library_params lp) = None \<or> wp_EnrichmentQueue (library_params lp) = Some queue_Enqueue"
  by (simp add: library_params_def)

lemma MarkLibraryScanned_run:
  "\<not> sv_fault s (sv_calls s) \<Longrightarrow>
     sv_db (snd (run_stmt (MarkLibraryScanned i) s)) = (sv_db s)\<lparr>t_library_path :=
       map (\<lambda>l. if lp_ID l = i then l\<lparr>lp_LastScannedAt := Some (pg_time (sv_clock s (sv_calls s)))\<rparr> else l)
         (t_library_path (sv_db s))\<rparr>"
  by (simp add: run_stmt_def MarkLibraryScanned_def)

text \<open>The libraries whose id is in \<open>I\<close> got a new scan time.\<close>

definition marked :: "int set \<Rightarrow> LibraryPath list \<Rightarrow> LibraryPath list \<Rightarrow> bool" where
  "marked I ls ls' \<longleftrightarrow> (\<exists>T. ls' = map (\<lambda>l. if lp_ID l \<in> I then l\<lparr>lp_LastScannedAt := Some (T (lp_ID l))\<rparr> else l) ls)"

lemma marked_empty: "marked {} ls ls"
  by (simp add: marked_def)

lemma marked_step:
  assumes "marked I (map (\<lambda>l. if lp_ID l = i then l\<lparr>lp_LastScannedAt := Some now\<rparr> else l) ls) ls'"
  shows "marked (insert i I) ls ls'"
proof -
  from assms obtain T where "ls' = map (\<lambda>l. if lp_ID l \<in> I then l\<lparr>lp_LastScannedAt := Some (T (lp_ID l))\<rparr> else l)
    (map (\<lambda>l. if lp_ID l = i then l\<lparr>lp_LastScannedAt := Some now\<rparr> else l) ls)"
    by (auto simp: marked_def)
  then show ?thesis
    unfolding marked_def by (intro exI [of _ "if i \<in> I then T else T(i := now)"]) auto
qed

definition enabled_ids :: "LibraryPath list \<Rightarrow> int set" where
  "enabled_ids lps = lp_ID ` {lp \<in> set lps. lp_Enabled lp}"

text \<open>
  The loop keeps the schema and the scan events; on success, with a database that does not fail, it
  marks exactly the enabled libraries.
\<close>

lemma scan_libraries_keeps:
  assumes "scan_libraries env lps tot s = (r, s')" and "db_inv (sv_db s)"
  shows "db_inv (sv_db s') \<and> t_scan_event (sv_db s') = t_scan_event (sv_db s) \<and> sv_fault s' = sv_fault s"
  using assms
proof (induction lps arbitrary: tot s)
  case (Cons lp lps)
  show ?case
  proof (cases "lp_Enabled lp")
    case True
    obtain e res s1 where w: "Walk StoreAdapter (library_params lp) (me_walk env) (me_fs env (lp_Path lp)) s = ((e, res), s1)"
      by (metis prod.collapse)
    have s1: "db_inv (sv_db s1)" "t_scan_event (sv_db s1) = t_scan_event (sv_db s)" "sv_fault s1 = sv_fault s"
      using scan_inv.Walk_keeps [OF library_params_queue w] scan_events.Walk_keeps [OF library_params_queue w]
        scan_faults.Walk_keeps [OF library_params_queue w] Cons.prems(2) by blast+
    show ?thesis
    proof (cases e)
      case None
      let ?s2 = "snd (run_stmt (MarkLibraryScanned (lp_ID lp)) s1)"
      have "db_inv (sv_db ?s2)" by (rule run_stmt_inv [OF MarkLibraryScanned_inv s1(1)])
      moreover have "t_scan_event (sv_db ?s2) = t_scan_event (sv_db s1)"
        by (simp add: run_stmt_def MarkLibraryScanned_def Let_def)
      ultimately show ?thesis
        using Cons.IH [of "add_result tot res" ?s2] Cons.prems(1) True None w s1 by simp
    next
      case (Some x)
      with Cons.prems(1) True w s1 show ?thesis by auto
    qed
  qed (use Cons in auto)
qed auto

lemma scan_libraries_marks:
  assumes "scan_libraries env lps tot s = ((None, tot'), s')" and "\<And>n. \<not> sv_fault s n"
  shows "marked (enabled_ids lps) (t_library_path (sv_db s)) (t_library_path (sv_db s'))"
  using assms
proof (induction lps arbitrary: tot s)
  case Nil
  then show ?case by (simp add: enabled_ids_def marked_empty)
next
  case (Cons lp lps)
  show ?case
  proof (cases "lp_Enabled lp")
    case True
    obtain e res s1 where w: "Walk StoreAdapter (library_params lp) (me_walk env) (me_fs env (lp_Path lp)) s = ((e, res), s1)"
      by (metis prod.collapse)
    have s1: "t_library_path (sv_db s1) = t_library_path (sv_db s)" "sv_fault s1 = sv_fault s"
      using scan_events.Walk_keeps [OF library_params_queue w] scan_faults.Walk_keeps [OF library_params_queue w] by blast+
    have "marked (enabled_ids lps) (t_library_path (sv_db (snd (run_stmt (MarkLibraryScanned (lp_ID lp)) s1)))) (t_library_path (sv_db s'))"
      using Cons.IH [of "add_result tot res" "snd (run_stmt (MarkLibraryScanned (lp_ID lp)) s1)"] Cons.prems True w s1
      by (simp split: option.splits)
    then have "marked (insert (lp_ID lp) (enabled_ids lps)) (t_library_path (sv_db s)) (t_library_path (sv_db s'))"
      using Cons.prems(2) s1 by (intro marked_step) (simp add: MarkLibraryScanned_run)
    moreover have "enabled_ids (lp # lps) = insert (lp_ID lp) (enabled_ids lps)"
      using True by (auto simp: enabled_ids_def)
    ultimately show ?thesis by simp
  next
    case False
    then have "enabled_ids (lp # lps) = enabled_ids lps" by (auto simp: enabled_ids_def)
    with False Cons show ?thesis by simp
  qed
qed

text \<open>After the event is finished: the inline drain and the eviction leave events and libraries alone.\<close>

definition after_scan :: "'j plugin \<Rightarrow> ('j, json) server_state \<Rightarrow> ('j, json) server_state option" where
  "after_scan pl s =
     (case (if (\<exists>c\<in>set_option (pl_app_cfg pl). ac_ScanInlineEnrich c)
            then (case pl_worker pl of None \<Rightarrow> Some s | Some w \<Rightarrow> map_option snd (Drain w s))
            else Some s) of
        None \<Rightarrow> None
      | Some s5 \<Rightarrow> Some (case pl_cache pl of None \<Rightarrow> s5 | Some ttl \<Rightarrow> snd (run_stmt (EvictExpired ttl) s5)))"

lemma EvictExpired_keeps:
  assumes "db_inv (sv_db s)"
  shows "db_inv (sv_db (snd (run_stmt (EvictExpired ttl) s))) \<and>
    t_scan_event (sv_db (snd (run_stmt (EvictExpired ttl) s))) = t_scan_event (sv_db s) \<and>
    t_library_path (sv_db (snd (run_stmt (EvictExpired ttl) s))) = t_library_path (sv_db s)"
  using run_stmt_inv [OF EvictExpired_inv assms] by (simp add: run_stmt_def EvictExpired_def Let_def)

lemma after_scan_ok:
  assumes "db_inv (sv_db s)" and "\<And>n. N \<le> n \<Longrightarrow> \<not> sv_fault s n" and "\<forall>w\<in>set_option (pl_worker pl). wk_Store w = worker_store"
  shows "\<exists>s'. after_scan pl s = Some s' \<and> db_inv (sv_db s') \<and> t_scan_event (sv_db s') = t_scan_event (sv_db s) \<and>
    t_library_path (sv_db s') = t_library_path (sv_db s)"
proof -
  have "\<exists>s5. (if (\<exists>c\<in>set_option (pl_app_cfg pl). ac_ScanInlineEnrich c)
            then (case pl_worker pl of None \<Rightarrow> Some s | Some w \<Rightarrow> map_option snd (Drain w s)) else Some s) = Some s5 \<and>
      db_inv (sv_db s5) \<and> t_scan_event (sv_db s5) = t_scan_event (sv_db s) \<and> t_library_path (sv_db s5) = t_library_path (sv_db s)"
  proof (cases "pl_worker pl")
    case (Some w)
    with assms(3) have w: "wk_Store w = worker_store" by simp
    obtain x where d: "Drain w s = Some x"
      using wstore.drain_ends [OF w assms(1,2)] by blast
    with drain_inv.Drain_keeps [OF w d assms(1)] drain_events.Drain_keeps [OF w d] Some assms(1) show ?thesis
      by auto
  qed (use assms(1) in simp)
  then show ?thesis
    using EvictExpired_keeps by (fastforce simp: after_scan_def split: option.split)
qed

lemma runScan_store:
  assumes "pl_store pl" and "run_stmt ListLibraryPaths s = (Inr paths, s1)"
    and "run_stmt (InsertScanEvent None) s1 = (Inr i, s2)"
    and "scan_libraries env paths zero_result s2 = ((werr, tot), s3)"
    and "s4 = snd (run_stmt (FinishScanEvent i (wr_Added tot) (wr_Changed tot) (wr_Deleted tot)
      (case werr of None \<Rightarrow> [] | Some e \<Rightarrow> me_walk_text env e)) s3)"
  shows "runScan env pl s = map_option (\<lambda>s'. ((i, map_option WalkFailed werr), s'))
    (case werr of None \<Rightarrow> after_scan pl s4 | Some _ \<Rightarrow> Some s4)"
  using assms by (auto simp: runScan_def after_scan_def Let_def split: option.splits)

definition event_counts :: "ScanEvent \<Rightarrow> WalkResult" where
  "event_counts ev = \<lparr>wr_Added = se_BooksAdded ev, wr_Changed = se_BooksChanged ev, wr_Deleted = se_BooksDeleted ev\<rparr>"

lemma insert_event:
  assumes "\<not> sv_fault s (sv_calls s)" and "db_inv (sv_db s)"
  shows "\<exists>ev s'. run_stmt (InsertScanEvent None) s = (Inr (se_seq (sv_db s)), s') \<and> se_ID ev = se_seq (sv_db s) \<and>
    t_scan_event (sv_db s') = t_scan_event (sv_db s) @ [ev] \<and> t_audiobook (sv_db s') = t_audiobook (sv_db s) \<and>
    t_library_path (sv_db s') = t_library_path (sv_db s) \<and> sv_fault s' = sv_fault s \<and> db_inv (sv_db s')"
proof -
  obtain r s' where run: "run_stmt (InsertScanEvent None) s = (r, s')" by fastforce
  moreover have "db_inv (sv_db s')"
    using run_stmt_inv [OF InsertScanEvent_inv assms(2), of None] run by simp
  ultimately show ?thesis
    using assms(1) by (auto simp: run_stmt_def InsertScanEvent_def)
qed

text \<open>The event that finishes is the last one, because its id is new.\<close>

lemma finish_event:
  assumes "\<not> sv_fault s (sv_calls s)" and "t_scan_event (sv_db s) = evs @ [ev0]" and "se_ID ev0 = i" and "db_inv (sv_db s)"
  shows "\<exists>ev. event_counts ev = tot \<and> se_ID ev = i \<and> se_FinishedAt ev \<noteq> None \<and>
    se_ErrorText ev = (if e = [] then None else Some e) \<and>
    t_scan_event (sv_db (snd (run_stmt (FinishScanEvent i (wr_Added tot) (wr_Changed tot) (wr_Deleted tot) e) s))) = evs @ [ev] \<and>
    t_library_path (sv_db (snd (run_stmt (FinishScanEvent i (wr_Added tot) (wr_Changed tot) (wr_Deleted tot) e) s))) = t_library_path (sv_db s) \<and>
    db_inv (sv_db (snd (run_stmt (FinishScanEvent i (wr_Added tot) (wr_Changed tot) (wr_Deleted tot) e) s)))"
proof -
  have "distinct (map se_ID (evs @ [ev0]))"
    using assms(2,4) by (simp add: db_inv_def scan_event_ok_def)
  then have "map (\<lambda>x. if se_ID x = i then f x else x) evs = evs" for f
    using assms(3) by (intro map_idI) (force simp: image_iff)
  then show ?thesis
    using assms(1-3) run_stmt_inv [OF FinishScanEvent_inv assms(4), of i "wr_Added tot" "wr_Changed tot" "wr_Deleted tot" e]
    by (simp add: run_stmt_def FinishScanEvent_def event_counts_def)
qed

definition error_column :: "'j main_env \<Rightarrow> sql_error walk_error option \<Rightarrow> string option" where
  "error_column env werr =
     (case werr of None \<Rightarrow> None | Some e \<Rightarrow> if me_walk_text env e = [] then None else Some (me_walk_text env e))"


definition sample_main :: "Candidate list main_env" where
  "sample_main = \<lparr>me_walk = sample_env, me_fs = (\<lambda>p. if p = ''/m/one'' then sample_fs else None),
     me_walk_text = (\<lambda>e. ''walk failed''), me_unicode = ascii_unicode, me_pg = c_server (\<lambda>s. None), me_ParseConfig = (\<lambda>u. True),
     me_NewPool = (\<lambda>u. True), me_link = (\<lambda>n. Works), me_sources = sample_source_env, me_agg = sample_agg_env, me_ctx = (\<lambda>n. None),
     me_locked = (\<lambda>n. []), me_sql_text = (\<lambda>e. ''db'')\<rparr>"

definition configured :: "Candidate list plugin" where
  "configured = unconfigured\<lparr>pl_store := True, pl_worker := Some (new_worker sample_main DefaultAppConfig),
     pl_app_cfg := Some (DefaultAppConfig\<lparr>ac_ScanInlineEnrich := True\<rparr>), pl_cache := Some (cache_ttl DefaultAppConfig)\<rparr>"



section \<open>Configuration\<close>

text \<open>Settings that differ from the defaults are loaded as stored; the host's own are not imported over them.\<close>

lemma onConfigure_stored:
  assumes "me_ParseConfig env (cf_DatabaseURL cfg)" and "me_NewPool env (cf_DatabaseURL cfg)"
    and "run_migrations (me_link env) s = (None, s1)" and "\<forall>n. \<not> sv_fault s1 n"
    and "t_app_config (sv_db s1) = Some (marshal_config c)" and "config_ints c" and "WithDefaults c \<noteq> DefaultAppConfig"
  shows "onConfigure env cfg (pl, s) = apply_settings env cfg (WithDefaults c) pl (s1\<lparr>sv_calls := Suc (Suc (sv_calls s1))\<rparr>)"
proof -
  let ?s2 = "s1\<lparr>sv_calls := Suc (sv_calls s1)\<rparr>"
  have "ImportLegacyAppConfig (me_unicode env) (appConfigFromRuntimeConfig cfg) s1 = (Inr False, ?s2)"
    using Get_stored [of s1 c] assms(4-7) by (simp add: ImportLegacyAppConfig_def)
  moreover have "GetAppConfig (me_unicode env) ?s2 = (Inr (WithDefaults c), ?s2\<lparr>sv_calls := Suc (sv_calls ?s2)\<rparr>)"
    using Get_stored [of ?s2 c] assms(4-6) by simp
  ultimately show ?thesis
    using assms(1-3) by (simp add: onConfigure_def)
qed

text \<open>
  A standalone listener address that is stored with a secret that does not decode (the settings page
  accepts any text) makes every later configuration call of the host fail: the callback returns an
  error whatever the host sends, and the store is never set, so after a restart no scan can run.
\<close>

theorem bad_secret_blocks_configure:
  assumes "me_ParseConfig env (cf_DatabaseURL cfg)" and "me_NewPool env (cf_DatabaseURL cfg)"
    and "run_migrations (me_link env) s = (None, s1)" and "\<forall>n. \<not> sv_fault s1 n"
    and "t_app_config (sv_db s1) = Some (marshal_config c)" and "config_ints c"
    and "ac_StandaloneHTTPListen c \<noteq> []" and "DecodeStreamSigningSecret (ac_StreamSigningSecret c) = Inl e"
  shows "\<exists>pl' s'. onConfigure env cfg (unconfigured, s) = (Some (DecodeSecretFailed e), pl', s') \<and>
    runScan env pl' s' = Some ((0, Some StoreNotConfigured), s')"
proof -
  have listen: "ac_StandaloneHTTPListen (WithDefaults c) \<noteq> []"
    and secret: "ac_StreamSigningSecret (WithDefaults c) = ac_StreamSigningSecret c"
    using assms(7) by (simp_all add: WithDefaults_def Let_def)
  have "WithDefaults c \<noteq> DefaultAppConfig"
    using listen by (auto simp: DefaultAppConfig_def)
  from onConfigure_stored [OF assms(1-6) this] show ?thesis
    using assms(8) listen secret
    by (simp add: apply_settings_def Let_def configureMetadata_def unconfigured_def runScan_def)
qed

definition half_configured :: AppConfig where
  "half_configured = DefaultAppConfig\<lparr>ac_StandaloneHTTPListen := '':8099'', ac_StreamSigningSecret := ''hunter2''\<rparr>"

text \<open>A server whose database is migrated and holds these settings.\<close>

definition settled_server :: "AppConfig \<Rightarrow> (Candidate list, json) server_state" where
  "settled_server c = quiet_server (empty_db\<lparr>t_app_config := Some (marshal_config c),
     t_schema_migration := Some [''0001_init'', ''0002_metadata'', ''0003_content_sig'', ''0004_app_config'']\<rparr>)"

lemma migration_versions:
  "version_of ''0001_init.up.sql'' = ''0001_init''" "version_of ''0002_metadata.up.sql'' = ''0002_metadata''"
  "version_of ''0003_content_sig.up.sql'' = ''0003_content_sig''" "version_of ''0004_app_config.up.sql'' = ''0004_app_config''"
  by code_simp+

text \<open>A database whose bookkeeping is complete passes unchanged.\<close>

lemma run_migrations_recorded:
  assumes "\<forall>n. link n = Works" and "t_schema_migration (sv_db s) = Some vs"
    and "set [''0001_init'', ''0002_metadata'', ''0003_content_sig'', ''0004_app_config''] \<subseteq> set vs"
  shows "\<exists>n. run_migrations link s = (None, s\<lparr>sv_calls := n\<rparr>)"
proof -
  obtain n where "migrate_Run migration_files
      \<lparr>sd_versions = t_schema_migration (sv_db s), sd_data = sv_db s, sd_calls = sv_calls s, sd_link = link\<rparr> = (None,
      \<lparr>sd_versions = t_schema_migration (sv_db s), sd_data = sv_db s, sd_calls = n, sd_link = link\<rparr>)"
    using migrate_Run_recorded [of "\<lparr>sd_versions = t_schema_migration (sv_db s), sd_data = sv_db s, sd_calls = sv_calls s, sd_link = link\<rparr>"
        vs migration_files] assms
    by (auto simp: migration_files_def migration_versions)
  then have "run_migrations link s = (None, s\<lparr>sv_db := (sv_db s)\<lparr>t_schema_migration := t_schema_migration (sv_db s)\<rparr>, sv_calls := n\<rparr>)"
    by (simp add: run_migrations_def)
  then have "run_migrations link s = (None, s\<lparr>sv_calls := n\<rparr>)" by simp
  then show ?thesis by blast
qed

lemma settled_migrations: "\<exists>n. run_migrations (me_link sample_main) (settled_server c) = (None, (settled_server c)\<lparr>sv_calls := n\<rparr>)"
  by (rule run_migrations_recorded) (auto simp: sample_main_def settled_server_def quiet_server_def)

theorem bad_secret_blocks_configure_witness:
  "\<exists>pl' s'. onConfigure sample_main (empty_Config\<lparr>cf_DatabaseURL := ''pg''\<rparr>) (unconfigured, settled_server half_configured) =
       (Some (DecodeSecretFailed NotBase64), pl', s') \<and>
     runScan sample_main pl' s' = Some ((0, Some StoreNotConfigured), s')"
proof -
  obtain n where "run_migrations (me_link sample_main) (settled_server half_configured) = (None, (settled_server half_configured)\<lparr>sv_calls := n\<rparr>)"
    using settled_migrations by blast
  then show ?thesis
    by (rule bad_secret_blocks_configure [where c = half_configured, rotated 2])
      (simp_all add: sample_main_def settled_server_def quiet_server_def half_configured_def config_ints_def DefaultAppConfig_def
        is_int64_def DecodeStreamSigningSecret_def Std_DecodeString_def drop_newlines_def)
qed

text \<open>
  The stream route of the host's handler never serves a byte: \<open>main\<close> builds that handler without a
  stream secret, and the token check refuses every token when there is none.
\<close>

theorem host_stream_never_served:
  "fst (fst (Handler henv (host_deps scan) r (StreamFile b i) s)) \<in> {400, 401}"
proof -
  have "requireStreamToken henv r [] b k s = Some (if rq_query r ''token'' = [] then MissingToken else Rejected EmptySecret)" for k
    by (simp add: requireStreamToken_def VerifyStreamToken_def Let_def)
  then show ?thesis
    by (auto simp: Handler_def host_deps_def host_routes_def handleStream_def split: option.split)
qed

text \<open>
  A cache lifetime that validation accepts can overflow to a negative duration.
\<close>

theorem cache_ttl_overflows:
  "Validate (DefaultAppConfig\<lparr>ac_MetadataCacheTTLDays := 106752\<rparr>) = None \<and>
   cache_ttl (DefaultAppConfig\<lparr>ac_MetadataCacheTTLDays := 106752\<rparr>) < 0"
  by code_simp

end
