(* ===== verification/Http_Routes.thy ===== *)
theory Http_Routes
  imports Runtime_Config
begin

text \<open>
  The adapter between the host and the handlers, \<^verbatim>\<open>internal/httproutes/server.go\<close>: requests of the
  standalone listener (\<open>ServeHTTP\<close>) and requests the host forwards over gRPC (\<open>Handle\<close>). The wrapped
  handler is an argument. URL encoding is the standard library's: the handler sees the query as the
  values that were encoded.
\<close>

type_synonym headers = "(string \<times> string list) list"

record http_request =
  hq_Method :: string
  hq_Path :: string
  hq_Query :: "(string \<times> string) list"
  hq_Header :: headers
  hq_Body :: bytes

record http_response =
  hs_Code :: int
  hs_Header :: headers
  hs_Body :: bytes

type_synonym 's http_handler = "http_request \<Rightarrow> 's \<Rightarrow> http_response \<times> 's"

text \<open>
  What the adapter takes from the libraries: \<open>rt_canonical\<close> is \<^verbatim>\<open>textproto.CanonicalMIMEHeaderKey\<close>,
  \<open>rt_text\<close> the text form \<^verbatim>\<open>String()\<close> of a protobuf value, and \<open>rt_line\<close> what \<^verbatim>\<open>http.ReadRequest\<close> makes of
  a request line whose method is not a token (its blanks and line breaks become part of the line) or
  whose method is \<^verbatim>\<open>CONNECT\<close> with a target that is read as a host.
\<close>

record routes_env =
  rt_unicode :: unicode
  rt_canonical :: "string \<Rightarrow> string"
  rt_text :: "pvalue \<Rightarrow> string"
  rt_line :: "string \<Rightarrow> string \<Rightarrow> (string \<times> string) list \<Rightarrow> bytes \<Rightarrow> http_request option"

definition SetHandler :: "'s http_handler option \<Rightarrow> 's http_handler option" where
  "SetHandler h = h"

definition not_ready :: bytes where
  "not_ready = ''{\"error\":{\"code\":\"not_ready\",\"message\":\"plugin not configured\"}}''"

definition unconfigured_response :: http_response where
  "unconfigured_response = \<lparr>hs_Code = 503, hs_Header = [(''Content-Type'', [''application/json''])], hs_Body = not_ready\<rparr>"

definition trust_header :: "routes_env \<Rightarrow> string \<Rightarrow> bool" where
  "trust_header env k \<longleftrightarrow> HasPrefix (ToLower (rt_unicode env) k) ''x-silo-''"

text \<open>\<^verbatim>\<open>Header.Del\<close>\<close>

definition Del :: "routes_env \<Rightarrow> string \<Rightarrow> headers \<Rightarrow> headers" where
  "Del env k hs = filter (\<lambda>(k', v). k' \<noteq> rt_canonical env k) hs"

text \<open>The loop ranges over the map while it deletes from it; Go visits every key that is not deleted yet.\<close>

definition strip_headers :: "routes_env \<Rightarrow> headers \<Rightarrow> headers" where
  "strip_headers env hs = fold (\<lambda>k acc. if trust_header env k then Del env k acc else acc) (map fst hs) hs"

definition ServeHTTP :: "routes_env \<Rightarrow> 's http_handler option \<Rightarrow> 's http_handler" where
  "ServeHTTP env hPtr r s =
     (case hPtr of
        None \<Rightarrow> (unconfigured_response, s)
      | Some h \<Rightarrow> h (r\<lparr>hq_Header := strip_headers env (hq_Header r)\<rparr>) s)"

record handle_request =
  gr_Method :: string
  gr_Path :: string
  gr_Query :: "(string \<times> pvalue) list option"
  gr_Headers :: "(string \<times> string) list"
  gr_Body :: bytes

definition query_value :: "routes_env \<Rightarrow> pvalue \<Rightarrow> string" where
  "query_value env v =
     (let sv = (case v of VString s \<Rightarrow> s | _ \<Rightarrow> []) in if sv \<noteq> [] then sv else rt_text env v)"

definition query_values :: "routes_env \<Rightarrow> (string \<times> pvalue) list option \<Rightarrow> (string \<times> string) list" where
  "query_values env q = (case q of None \<Rightarrow> [] | Some fs \<Rightarrow> map (\<lambda>(k, v). (k, query_value env v)) fs)"

text \<open>\<^verbatim>\<open>Header.Set\<close> replaces the values of the canonical key.\<close>

definition set_header :: "routes_env \<Rightarrow> string \<times> string \<Rightarrow> headers \<Rightarrow> headers" where
  "set_header env kv hs = (rt_canonical env (fst kv), [snd kv]) # Del env (fst kv) hs"

definition body_limit :: nat where
  "body_limit = 67108864"

definition first_values :: "headers \<Rightarrow> (string \<times> string) list" where
  "first_values hs = concat (map (\<lambda>(k, vs). case vs of [] \<Rightarrow> [] | v # _ \<Rightarrow> [(k, v)]) hs)"

record handle_response =
  gs_StatusCode :: int
  gs_Headers :: "(string \<times> string) list"
  gs_Body :: bytes

text \<open>
  \<^verbatim>\<open>httptest.NewRequest\<close> writes the request line, reads it back with \<^verbatim>\<open>http.ReadRequest\<close> and panics (\<open>None\<close>)
  when that fails. The target is the escaped path and query, so reading it back gives the same path and
  query; it has to start with a slash, or be a bare asterisk.
\<close>

definition tchar :: "char \<Rightarrow> bool" where
  "tchar c \<longleftrightarrow> (CHR ''0'' \<le> c \<and> c \<le> CHR ''9'') \<or> (CHR ''A'' \<le> c \<and> c \<le> CHR ''Z'') \<or> (CHR ''a'' \<le> c \<and> c \<le> CHR ''z'') \<or>
     c \<in> set ''!#$%&*+-.^_|~'' \<or> c = CHR 0x27 \<or> c = CHR 0x60"

definition valid_method :: "string \<Rightarrow> bool" where
  "valid_method m \<longleftrightarrow> m \<noteq> [] \<and> list_all tchar m"

definition valid_target :: "string \<Rightarrow> (string \<times> string) list \<Rightarrow> bool" where
  "valid_target path query \<longleftrightarrow> HasPrefix path ''/'' \<or> (path = ''*'' \<and> query = [])"

definition NewRequest :: "routes_env \<Rightarrow> string \<Rightarrow> string \<Rightarrow> (string \<times> string) list \<Rightarrow> bytes \<Rightarrow> http_request option" where
  "NewRequest env m path query body =
     (if valid_method m \<and> valid_target path query
      then Some \<lparr>hq_Method = m, hq_Path = path, hq_Query = query, hq_Header = [], hq_Body = body\<rparr>
      else if valid_method m \<and> m \<noteq> ''CONNECT'' then None
      else rt_line env m path query body)"

definition forwarded :: "routes_env \<Rightarrow> handle_request \<Rightarrow> http_request option" where
  "forwarded env req =
     map_option (\<lambda>httpReq. httpReq\<lparr>hq_Header := fold (set_header env) (gr_Headers req) (hq_Header httpReq)\<rparr>)
       (NewRequest env (if gr_Method req = [] then ''GET'' else gr_Method req) (gr_Path req)
         (query_values env (gr_Query req)) (gr_Body req))"

definition Handle :: "routes_env \<Rightarrow> 's http_handler option \<Rightarrow> handle_request \<Rightarrow> 's \<Rightarrow> (handle_response \<times> 's) option" where
  "Handle env hPtr req s =
     (case hPtr of
        None \<Rightarrow> Some (\<lparr>gs_StatusCode = 503, gs_Headers = [(''Content-Type'', ''application/json'')], gs_Body = not_ready\<rparr>, s)
      | Some h \<Rightarrow>
          (case forwarded env req of
             None \<Rightarrow> None
           | Some httpReq \<Rightarrow>
               (let (rec, s') = h httpReq s
                in Some (\<lparr>gs_StatusCode = hs_Code rec, gs_Headers = first_values (hs_Header rec),
                     gs_Body = take body_limit (hs_Body rec)\<rparr>, s'))))"


section \<open>Properties\<close>

lemma strip_headers_filter:
  assumes "\<forall>k\<in>set (map fst hs). rt_canonical env k = k"
  shows "strip_headers env hs = filter (\<lambda>(k, v). \<not> trust_header env k) hs"
proof -
  have "fold (\<lambda>k acc. if trust_header env k then Del env k acc else acc) ks acc =
      filter (\<lambda>(k, v). \<not> (k \<in> set ks \<and> trust_header env k)) acc"
    if "\<forall>k\<in>set ks. rt_canonical env k = k" for ks acc
    using that
    by (induction ks arbitrary: acc) (auto simp: Del_def split_beta intro!: filter_cong)
  from this [OF assms, of hs] show ?thesis
    by (simp add: strip_headers_def) (auto intro!: filter_cong simp: rev_image_eqI)
qed

text \<open>
  C27. A request from the public listener cannot forge the host's identity headers: whatever headers it
  carries (in the canonical form the HTTP server gives them), the handler sees exactly those that do not
  start with \<^verbatim>\<open>X-Silo-\<close> in any letter case, and everything else of the request unchanged. Without a
  handler it is answered 503.
\<close>

theorem trust_headers_stripped:
  assumes "\<forall>k\<in>set (map fst (hq_Header r)). rt_canonical env k = k"
  shows "ServeHTTP env hPtr r s = (case hPtr of None \<Rightarrow> (unconfigured_response, s)
    | Some h \<Rightarrow> h (r\<lparr>hq_Header := filter (\<lambda>(k, v). \<not> HasPrefix (ToLower (rt_unicode env) k) ''x-silo-'') (hq_Header r)\<rparr>) s)"
  using strip_headers_filter [OF assms] by (simp add: ServeHTTP_def trust_header_def split: option.split)

definition sample_routes :: routes_env where
  "sample_routes = \<lparr>rt_unicode = \<lparr>map_to_lower = (\<lambda>s. s), fold_equal = (=)\<rparr>, rt_canonical = (\<lambda>k. k),
     rt_text = (\<lambda>v. case v of VString s \<Rightarrow> ''string_value:'' @ [CHR 0x22] @ s @ [CHR 0x22] | _ \<Rightarrow> ''null_value:NULL_VALUE''),
     rt_line = (\<lambda>m path query body. None)\<rparr>"

definition echo :: "headers http_handler" where
  "echo r s = (\<lparr>hs_Code = 200, hs_Header = [], hs_Body = []\<rparr>, hq_Header r)"

theorem trust_headers_stripped_witness:
  "snd (ServeHTTP sample_routes (Some echo) \<lparr>hq_Method = ''GET'', hq_Path = ''/'', hq_Query = [],
       hq_Header = [(''X-Silo-User'', [''1'']), (''Accept'', [''*''])], hq_Body = []\<rparr> []) = [(''Accept'', [''*''])]"
proof -
  have "ToLower (rt_unicode sample_routes) ''X-Silo-User'' = ''x-silo-user''" "ToLower (rt_unicode sample_routes) ''Accept'' = ''accept''"
    by (simp_all add: sample_routes_def) (code_simp+)
  then show ?thesis
    by (subst trust_headers_stripped) (simp_all add: sample_routes_def echo_def HasPrefix_def)
qed

lemma default_method:
  assumes "m = [] \<or> valid_method m"
  shows "valid_method (if m = [] then ''GET'' else m)"
  using assms by (auto simp: valid_method_def) code_simp+

lemma forwarded_rooted:
  assumes "gr_Method req = [] \<or> valid_method (gr_Method req)" and "HasPrefix (gr_Path req) ''/''"
  shows "forwarded env req = Some \<lparr>hq_Method = (if gr_Method req = [] then ''GET'' else gr_Method req),
    hq_Path = gr_Path req, hq_Query = query_values env (gr_Query req),
    hq_Header = fold (set_header env) (gr_Headers req) [], hq_Body = gr_Body req\<rparr>"
  using default_method [OF assms(1)] assms(2) by (simp add: forwarded_def NewRequest_def valid_target_def)

text \<open>
  A query parameter that the host forwards with an empty value does not reach the handler as an empty
  value: it is replaced by the debug text of the protobuf value, which is not empty.
\<close>

theorem empty_parameter_garbled:
  assumes "\<forall>v. rt_text env v \<noteq> []" and "gr_Query req = Some fs" and "(k, VString []) \<in> set fs"
    and "gr_Method req = [] \<or> valid_method (gr_Method req)" and "HasPrefix (gr_Path req) ''/''"
  shows "\<exists>r t. forwarded env req = Some r \<and> (k, t) \<in> set (hq_Query r) \<and> t = rt_text env (VString []) \<and> t \<noteq> []"
  using assms(1-3) by (force simp: forwarded_rooted [OF assms(4,5)] query_values_def query_value_def)

theorem empty_parameter_garbled_witness:
  "\<exists>r t. forwarded sample_routes \<lparr>gr_Method = [], gr_Path = ''/api/v1/catalog'',
       gr_Query = Some [(''cursor'', VString [])], gr_Headers = [], gr_Body = []\<rparr> = Some r \<and>
     (''cursor'', t) \<in> set (hq_Query r) \<and> t = rt_text sample_routes (VString []) \<and> t \<noteq> []"
  by (rule empty_parameter_garbled [where fs = "[(''cursor'', VString [])]"])
    (simp_all add: sample_routes_def HasPrefix_def split: pvalue.split)

text \<open>
  A forwarded request is answered, by the handler or with 503, whenever its path starts with a slash
  and its method is empty or a token; a path that starts with neither a slash nor an asterisk makes a
  configured plugin panic instead of answering an error.
\<close>

theorem handle_answers:
  assumes "gr_Method req = [] \<or> valid_method (gr_Method req)" and "HasPrefix (gr_Path req) ''/''"
  shows "Handle env hPtr req s \<noteq> None"
  by (simp add: Handle_def forwarded_rooted [OF assms] split_beta split: option.split)

theorem unrooted_path_panics:
  assumes "gr_Method req = [] \<or> valid_method (gr_Method req)" and "gr_Method req \<noteq> ''CONNECT''"
    and "\<not> HasPrefix (gr_Path req) ''/''" and "gr_Path req \<noteq> ''*''"
  shows "Handle env (Some h) req s = None"
  using default_method [OF assms(1)] assms(2-4)
  by (simp add: Handle_def forwarded_def NewRequest_def valid_target_def)

end
