(* ===== verification/System.thy ===== *)
theory System
  imports Plugin Metadata_Provider Http_Routes Source_Spec
begin

text \<open>
  The whole plugin: what every operation keeps, and the states that a sequence of configuration calls,
  HTTP requests, scheduled tasks and metadata searches can reach.
\<close>


section \<open>What the operations keep\<close>

lemma read_only_select: "read_only select_config"
  by (auto simp: read_only_def select_config_def)

lemma run_inv: "run_stmt q s = (r, s') \<Longrightarrow> keeps_inv q \<Longrightarrow> db_inv (sv_db s) \<Longrightarrow> db_inv (sv_db s')"
  by (metis run_stmt_inv snd_conv)

lemma GetAppConfig_inv: "GetAppConfig u s = (r, s') \<Longrightarrow> db_inv (sv_db s) \<Longrightarrow> db_inv (sv_db s')"
  by (auto simp: GetAppConfig_def split: prod.splits sum.splits option.splits
      dest: run_inv [OF _ read_only_inv [OF read_only_select]])

lemma PutAppConfig_inv: "PutAppConfig c s = (r, s') \<Longrightarrow> db_inv (sv_db s) \<Longrightarrow> db_inv (sv_db s')"
  by (auto simp: PutAppConfig_def Let_def split: prod.splits sum.splits option.splits dest: run_inv [OF _ write_config_inv])

lemma ImportLegacyAppConfig_inv: "ImportLegacyAppConfig u c s = (r, s') \<Longrightarrow> db_inv (sv_db s) \<Longrightarrow> db_inv (sv_db s')"
  by (auto simp: ImportLegacyAppConfig_def Let_def split: prod.splits sum.splits if_splits
      dest!: GetAppConfig_inv PutAppConfig_inv)

lemma sync_paths_inv: "db_inv (sv_db s) \<Longrightarrow> db_inv (sv_db (sync_paths paths s))"
  unfolding sync_paths_def by (induction paths arbitrary: s) (simp_all add: run_stmt_inv [OF UpsertLibraryPath_inv])

lemma scripts_inv:
  assumes "run_scripts ms d = Some d'" and "\<And>m d d'. m \<in> set ms \<Longrightarrow> snd m d = Some d' \<Longrightarrow> P d \<Longrightarrow> P d'" and "P d"
  shows "P d'"
  using assms
proof (induction ms arbitrary: d)
  case (Cons m ms)
  then obtain d1 where "snd m d = Some d1" and "run_scripts ms d1 = Some d'" by (auto split: option.splits)
  with Cons.prems(2,3) Cons.IH [of d1] show ?case by (meson list.set_intros)
qed simp

lemma subseq_set: "subseq xs ys \<Longrightarrow> set xs \<subseteq> set ys"
  by (induction rule: list_emb.induct) auto

lemma script_inv: "m \<in> set migration_files \<Longrightarrow> snd m d = Some d' \<Longrightarrow> db_inv d \<Longrightarrow> db_inv d'"
  unfolding migration_files_def
  by (auto simp: create_tables_def init_app_config_def one_table_inv(5) split: if_splits)

lemma run_migrations_inv: "run_migrations link s = (r, s') \<Longrightarrow> db_inv (sv_db s) \<Longrightarrow> db_inv (sv_db s')"
proof -
  assume run: "run_migrations link s = (r, s')" and inv: "db_inv (sv_db s)"
  obtain sd where sd: "migrate_Run migration_files
      \<lparr>sd_versions = t_schema_migration (sv_db s), sd_data = sv_db s, sd_calls = sv_calls s, sd_link = link\<rparr> = (r, sd)"
    and s': "sv_db s' = (sd_data sd)\<lparr>t_schema_migration := sd_versions sd\<rparr>"
    using run by (auto simp: run_migrations_def split: prod.splits)
  obtain ms where "subseq ms (ups migration_files)" and out: "carried_out ms
      \<lparr>sd_versions = t_schema_migration (sv_db s), sd_data = sv_db s, sd_calls = sv_calls s, sd_link = link\<rparr> sd"
    using migrate_Run_done [OF sd] by metis
  then have ms: "set ms \<subseteq> set migration_files"
    using subseq_set [of ms "ups migration_files"] by (auto simp: ups_def)
  have "db_inv (sd_data sd)"
  proof (rule scripts_inv [where P = db_inv and ms = ms])
    show "run_scripts ms (sv_db s) = Some (sd_data sd)" using out by (simp add: carried_out_def)
    show "db_inv d'" if "m \<in> set ms" "snd m d = Some d'" "db_inv d" for m d d'
      using script_inv [OF subsetD [OF ms that(1)] that(2,3)] .
  qed (rule inv)
  with s' show "db_inv (sv_db s')" by (simp add: one_table_inv(6))
qed

lemma after_scan_inv:
  assumes "after_scan pl s = Some s'" and "db_inv (sv_db s)" and "\<forall>w\<in>set_option (pl_worker pl). wk_Store w = worker_store"
  shows "db_inv (sv_db s')"
proof -
  have drain: "db_inv (sv_db (snd x))" if "Drain w s = Some x" "pl_worker pl = Some w" for w x
    using drain_inv.Drain_keeps [OF _ that(1) assms(2)] assms(3) that(2) by simp
  show ?thesis
    using assms(1,2) unfolding after_scan_def
    by (auto intro!: run_stmt_inv [OF EvictExpired_inv] dest: drain split: if_splits option.splits)
qed

text \<open>A scan, cut where the inline drain starts.\<close>

lemma runScan_shape:
  assumes "db_inv (sv_db s)"
  shows "(\<exists>r s1. runScan env pl s = Some (r, s1) \<and> db_inv (sv_db s1)) \<or>
    (\<exists>i s4. runScan env pl s = map_option (Pair (i, None)) (after_scan pl s4) \<and> db_inv (sv_db s4) \<and> sv_fault s4 = sv_fault s)"
proof (cases "pl_store pl")
  case True
  obtain lr s1 where list: "run_stmt ListLibraryPaths s = (lr, s1)" by fastforce
  have s1: "db_inv (sv_db s1)" "sv_fault s1 = sv_fault s"
    using run_inv [OF list read_only_inv assms] run_reads(1) [OF list] by simp_all
  show ?thesis
  proof (cases lr)
    case (Inr paths)
    obtain ev s2 where ins: "run_stmt (InsertScanEvent None) s1 = (ev, s2)" by fastforce
    obtain werr tot s3 where walk: "scan_libraries env paths zero_result s2 = ((werr, tot), s3)" by (metis prod.collapse)
    have "sv_fault s2 = sv_fault s" using s1(2) ins run_stmt_frame(3) [of "InsertScanEvent None" s1] by simp
    then have s3: "db_inv (sv_db s3)" "sv_fault s3 = sv_fault s"
      using scan_libraries_keeps [OF walk run_inv [OF ins InsertScanEvent_inv s1(1)]] by simp_all
    let ?fin = "\<lambda>i e. snd (run_stmt (FinishScanEvent i (wr_Added tot) (wr_Changed tot) (wr_Deleted tot) e) s3)"
    have s4: "db_inv (sv_db (?fin i e))" "sv_fault (?fin i e) = sv_fault s" for i e
      using run_stmt_inv [OF FinishScanEvent_inv s3(1)] s3(2) by simp_all
    define i where "i = (case ev of Inr i \<Rightarrow> i | Inl _ \<Rightarrow> 0)"
    have run: "runScan env pl s =
        (case werr of None \<Rightarrow> map_option (Pair (i, None)) (after_scan pl (?fin i []))
         | Some e \<Rightarrow> Some ((i, Some (WalkFailed e)), ?fin i (me_walk_text env e)))"
      using True list Inr ins walk
      by (auto simp: runScan_def after_scan_def i_def Let_def split: option.split)
    show ?thesis
    proof (cases werr)
      case None
      with run s4 show ?thesis by (intro disjI2 exI [of _ i] exI [of _ "?fin i []"]) simp
    qed (use run s4 in simp)
  qed (use True list s1 in \<open>auto simp: runScan_def\<close>)
qed (use assms in \<open>auto simp: runScan_def\<close>)

lemma runScan_inv:
  assumes "runScan env pl s = Some (r, s')" and "db_inv (sv_db s)" and "\<forall>w\<in>set_option (pl_worker pl). wk_Store w = worker_store"
  shows "db_inv (sv_db s')"
  using runScan_shape [OF assms(2), of env pl]
proof (elim disjE exE conjE)
  fix i s4
  assume "runScan env pl s = map_option (Pair (i, None)) (after_scan pl s4)" "db_inv (sv_db s4)"
  with assms(1) after_scan_inv [of pl s4 s'] assms(3) show ?thesis by (cases "after_scan pl s4") auto
qed (use assms(1) in simp)

lemma runScan_returns:
  assumes "db_inv (sv_db s)" and "\<And>n. N \<le> n \<Longrightarrow> \<not> sv_fault s n" and "\<forall>w\<in>set_option (pl_worker pl). wk_Store w = worker_store"
  shows "\<exists>r s'. runScan env pl s = Some (r, s')"
  using runScan_shape [OF assms(1), of env pl]
proof (elim disjE exE conjE)
  fix i s4
  assume s4: "runScan env pl s = map_option (Pair (i, None)) (after_scan pl s4)" "db_inv (sv_db s4)" "sv_fault s4 = sv_fault s"
  with after_scan_ok [OF s4(2) _ assms(3), of N] assms(2) show ?thesis by auto
qed blast

lemma drainWorker_inv:
  assumes "drainWorker pl s = Some (r, s')" and "db_inv (sv_db s)" and "\<forall>w\<in>set_option (pl_worker pl). wk_Store w = worker_store"
  shows "db_inv (sv_db s')"
  using assms drain_inv.Drain_keeps [of _ s "(r, s')"]
  by (auto simp: drainWorker_def split: option.splits)

lemma provider_Search_inv:
  "provider_Search env p order req s = (r, s') \<Longrightarrow> db_inv (sv_db s) \<Longrightarrow> db_inv (sv_db s')"
  using search_inv.aggregator_Search_keeps [of s "the (pv_agg p)" order "rs_Query req" "regionFn p" "enabledFn p" "original_of (rs_ProviderIds req)"]
  by (auto simp: provider_Search_def Let_def split: option.splits if_splits prod.splits)

text \<open>The handlers: reading ones, and the five that write.\<close>

lemma handler_reads:
  "handleListCatalog env r s = (resp, s') \<Longrightarrow> db_inv (sv_db s) \<Longrightarrow> db_inv (sv_db s')"
  "handleListLibraries s = (resp, s') \<Longrightarrow> db_inv (sv_db s) \<Longrightarrow> db_inv (sv_db s')"
  "handleSearchCatalog env r s = (resp, s') \<Longrightarrow> db_inv (sv_db s) \<Longrightarrow> db_inv (sv_db s')"
  "handleGetCatalog i s = (resp, s') \<Longrightarrow> db_inv (sv_db s) \<Longrightarrow> db_inv (sv_db s')"
  "handleBrowseAuthors env r s = (resp, s') \<Longrightarrow> db_inv (sv_db s) \<Longrightarrow> db_inv (sv_db s')"
  "handleBrowseGenres env r s = (resp, s') \<Longrightarrow> db_inv (sv_db s) \<Longrightarrow> db_inv (sv_db s')"
  "handleStream env dp r i k s = (resp, s') \<Longrightarrow> db_inv (sv_db s) \<Longrightarrow> db_inv (sv_db s')"
  "handleCover env dp r i k s = (resp, s') \<Longrightarrow> db_inv (sv_db s) \<Longrightarrow> db_inv (sv_db s')"
  "handleCoverStandalone env dp r i k s = (resp, s') \<Longrightarrow> db_inv (sv_db s) \<Longrightarrow> db_inv (sv_db s')"
  "handleAdminListPaths s = (resp, s') \<Longrightarrow> db_inv (sv_db s) \<Longrightarrow> db_inv (sv_db s')"
  "handleAdminScanStatus s = (resp, s') \<Longrightarrow> db_inv (sv_db s) \<Longrightarrow> db_inv (sv_db s')"
  by (auto simp: handleListCatalog_def handleListLibraries_def handleSearchCatalog_def handleGetCatalog_def handleBrowseAuthors_def
      handleBrowseGenres_def handleStream_def serveBookFile_def handleCover_def handleCoverStandalone_def handleAdminListPaths_def
      handleAdminScanStatus_def libraryNameMap_def Let_def
      split: prod.splits sum.splits option.splits if_splits store_error.splits dest!: run_reads)

lemma handler_writes:
  "handleAdminAddPath env r s = (resp, s') \<Longrightarrow> db_inv (sv_db s) \<Longrightarrow> db_inv (sv_db s')"
  "handleAdminDeletePath i s = (resp, s') \<Longrightarrow> db_inv (sv_db s) \<Longrightarrow> db_inv (sv_db s')"
  "handleAdminGetConfig env s = (resp, s') \<Longrightarrow> db_inv (sv_db s) \<Longrightarrow> db_inv (sv_db s')"
  "handleAdminPutConfig env r s = (resp, s') \<Longrightarrow> db_inv (sv_db s) \<Longrightarrow> db_inv (sv_db s')"
  "handleMetadataBackfill s = (resp, s') \<Longrightarrow> db_inv (sv_db s) \<Longrightarrow> db_inv (sv_db s')"
  by (auto simp: handleAdminAddPath_def handleAdminDeletePath_def handleAdminGetConfig_def handleAdminPutConfig_def
      handleMetadataBackfill_def Let_def split: prod.splits sum.splits option.splits if_splits
      dest: GetAppConfig_inv PutAppConfig_inv run_inv [OF _ UpsertLibraryPath_inv] run_inv [OF _ DeleteLibraryPath_inv]
        run_inv [OF _ BulkEnqueueBackfill_inv])

lemma Handler_inv:
  assumes "Handler env dp r rt s = (resp, s')" and "db_inv (sv_db s)"
    and "\<And>scan x s1. dp_Scan dp = Some scan \<Longrightarrow> rt = AdminScan \<Longrightarrow> scan s = (x, s1) \<Longrightarrow> db_inv (sv_db s1)"
  shows "db_inv (sv_db s')"
proof -
  have scan: "handleAdminScan dp s = (resp, s') \<Longrightarrow> rt = AdminScan \<Longrightarrow> db_inv (sv_db s')"
    using assms(2,3) by (auto simp: handleAdminScan_def split: option.splits prod.splits sum.splits)
  show ?thesis
    using assms(1,2) scan
    by (cases rt) (auto simp: Handler_def standalone_routes_def host_routes_def handleStreamStandalone_def handleRequestsStub_def
        split: if_splits dest: handler_reads handler_writes)
qed



section \<open>The states of the plugin\<close>

text \<open>The configuration that the runtime server keeps, the pointers of \<open>main\<close>, and the database server.\<close>

type_synonym 'j system = "Config \<times> 'j plugin \<times> ('j, json) server_state"

record 'j world =
  wd_main :: "'j main_env"
  wd_http :: http_env
  wd_provider :: mp_env
  wd_scan_text :: "scan_error \<Rightarrow> string"
  wd_wide :: "rat option \<Rightarrow> int"

text \<open>\<open>runScan\<close> as the host's handler calls it. A request whose scan does not return makes no step.\<close>

definition host_scan :: "'j world \<Rightarrow> 'j plugin \<Rightarrow> ('j, json) server_state \<Rightarrow> (string + int) \<times> ('j, json) server_state" where
  "host_scan w pl s =
     (case runScan (wd_main w) pl s of
        Some ((i, None), s') \<Rightarrow> (Inr i, s')
      | Some ((_, Some e), s') \<Rightarrow> (Inl (wd_scan_text w e), s')
      | None \<Rightarrow> (Inl [], s))"

text \<open>
  Operations one after the other, in any order, with the database failing and the clock moving as they
  like. A restart loses the memory and keeps the database.
\<close>

inductive plugin_step :: "'j world \<Rightarrow> 'j system \<Rightarrow> 'j system \<Rightarrow> bool" for w where
  configure: "Configure (wd_wide w) (Some (onConfigure (wd_main w))) req (c, pl, s) = (r, st) \<Longrightarrow> plugin_step w (c, pl, s) st"
| request: "pl_http pl \<Longrightarrow> rt = AdminScan \<longrightarrow> runScan (wd_main w) pl s \<noteq> None \<Longrightarrow>
    Handler (wd_http w) (host_deps (host_scan w pl)) rq rt s = (resp, s') \<Longrightarrow> plugin_step w (c, pl, s) (c, pl, s')"
| standalone: "pl_standalone pl = Some secret \<Longrightarrow>
    Handler (wd_http w) (standalone_deps secret) rq rt s = (resp, s') \<Longrightarrow> plugin_step w (c, pl, s) (c, pl, s')"
| scan: "runScan (wd_main w) pl s = Some (r, s') \<Longrightarrow> plugin_step w (c, pl, s) (c, pl, s')"
| drain: "drainWorker pl s = Some (r, s') \<Longrightarrow> plugin_step w (c, pl, s) (c, pl, s')"
| search: "provider_Search (wd_provider w) (pl_meta pl) order req s = (res, s') \<Longrightarrow> plugin_step w (c, pl, s) (c, pl, s')"
| surroundings: "plugin_step w (c, pl, s) (c, pl, s\<lparr>sv_fault := f, sv_clock := clock\<rparr>)"
| restart: "plugin_step w (c, pl, s) (empty_Config, unconfigured, s)"

text \<open>Everything built from the settings belongs to the settings that were loaded last.\<close>

definition coherent :: "'j main_env \<Rightarrow> 'j plugin \<Rightarrow> bool" where
  "coherent env pl \<longleftrightarrow>
     (case pl_app_cfg pl of
        None \<Rightarrow> pl_worker pl = None \<and> pl_cache pl = None \<and> \<not> pl_http pl \<and> pv_agg (pl_meta pl) = None
      | Some a \<Rightarrow> pl_worker pl = Some (new_worker env a) \<and> pl_cache pl = Some (cache_ttl a) \<and> pl_http pl \<and>
          pl_meta pl = \<lparr>pv_agg = Some (new_aggregator env a), pv_reg = Some (production_registry (me_sources env)),
            pv_enabled = Some (\<lambda>i. i \<in> set (ac_MetadataSourcesEnabled a)), pv_region = Some (ac_MetadataDefaultRegion a)\<rparr>)"

definition plugin_inv :: "'j main_env \<Rightarrow> Config \<Rightarrow> 'j plugin \<Rightarrow> bool" where
  "plugin_inv env c pl \<longleftrightarrow> coherent env pl \<and>
     (if pl_store pl then pl_cfg pl = Some c \<and> usable c \<and> pl_app_cfg pl \<noteq> None else c = empty_Config \<and> pl_cfg pl = None) \<and>
     (\<forall>k\<in>set_option (pl_standalone pl). length k = 32)"

lemma coherent_worker: "coherent env pl \<Longrightarrow> \<forall>w\<in>set_option (pl_worker pl). wk_Store w = worker_store"
  by (auto simp: coherent_def new_worker_def split: option.splits)

lemma coherent_configure: "coherent env (configureMetadata env a (pl\<lparr>pl_app_cfg := Some a\<rparr>)\<lparr>pl_http := True\<rparr>)"
  by (simp add: coherent_def configureMetadata_def SetAggregator_def SetRegistry_def SetEnabled_def SetRegion_def)

lemma unconfigured_inv: "plugin_inv env empty_Config unconfigured"
  by (simp add: plugin_inv_def coherent_def unconfigured_def)

lemma apply_settings_inv:
  assumes "apply_settings env cfg a pl s = (e, pl', s')" and "plugin_inv env c pl" and "db_inv (sv_db s)" and "usable cfg"
  shows "db_inv (sv_db s') \<and> plugin_inv env (if e = None then cfg else c) pl'"
proof
  let ?pl1 = "configureMetadata env a (pl\<lparr>pl_app_cfg := Some a\<rparr>)\<lparr>pl_http := True\<rparr>"
  define pl1 where "pl1 = ?pl1"
  have co: "coherent env pl1" unfolding pl1_def by (rule coherent_configure)
  have frame: "pl_store pl1 = pl_store pl" "pl_cfg pl1 = pl_cfg pl" "pl_standalone pl1 = pl_standalone pl" "pl_app_cfg pl1 = Some a"
    by (simp_all add: pl1_def configureMetadata_def)
  have eq: "apply_settings env cfg a pl s =
      (if ac_StandaloneHTTPListen a = [] then (None, pl1\<lparr>pl_store := True, pl_cfg := Some cfg\<rparr>, sync_paths (cf_LibraryPaths cfg) s)
       else case DecodeStreamSigningSecret (ac_StreamSigningSecret a) of
         Inl e \<Rightarrow> (Some (DecodeSecretFailed e), pl1, sync_paths (cf_LibraryPaths cfg) s)
       | Inr secret \<Rightarrow> (None, pl1\<lparr>pl_standalone := Some secret, pl_standalone_addr :=
             (case pl_standalone_addr pl1 of None \<Rightarrow> Some (ac_StandaloneHTTPListen a) | Some a \<Rightarrow> Some a),
             pl_store := True, pl_cfg := Some cfg\<rparr>, sync_paths (cf_LibraryPaths cfg) s))"
    unfolding apply_settings_def Let_def pl1_def [symmetric] ..
  show "db_inv (sv_db s')"
    using assms(1) sync_paths_inv [OF assms(3)] unfolding eq by (auto split: if_splits sum.splits)
  show "plugin_inv env (if e = None then cfg else c) pl'"
    using assms(1,2,4) co frame unfolding eq
    by (auto simp: plugin_inv_def coherent_def dest: decoded_secret split: if_splits sum.splits)
qed

lemma onConfigure_inv:
  assumes "onConfigure env cfg (pl, s) = (e, pl', s')" and "plugin_inv env c pl" and "db_inv (sv_db s)" and "usable cfg"
  shows "db_inv (sv_db s') \<and> plugin_inv env (if e = None then cfg else c) pl'"
  using assms
  by (auto simp: onConfigure_def split: if_splits prod.splits option.splits sum.splits
      dest!: run_migrations_inv ImportLegacyAppConfig_inv GetAppConfig_inv dest: apply_settings_inv)

lemma plugin_step_inv:
  "plugin_step w (c, pl, s) (c', pl', s') \<Longrightarrow> plugin_inv (wd_main w) c pl \<and> db_inv (sv_db s) \<Longrightarrow>
     plugin_inv (wd_main w) c' pl' \<and> db_inv (sv_db s')"
proof (induction "(c, pl, s)" "(c', pl', s')" rule: plugin_step.induct)
  case (configure req r)
  from configure(1) show ?case
  proof (cases rule: Configure_cases)
    case (failed f e x)
    with configure(2) onConfigure_inv [of "wd_main w" "config_defaults (config_from (wd_wide w) req)" pl s "Some e" pl' s' c] show ?thesis
      by auto
  next
    case applied
    with configure(2) onConfigure_inv [of "wd_main w" c' pl s None pl' s' c] show ?thesis by auto
  qed (use configure(2) in auto)
next
  case (request rt rq resp)
  have "db_inv (sv_db s1)" if "host_scan w pl s = (x, s1)" "rt = AdminScan" for x s1
    using that request runScan_inv [of "wd_main w" pl s _ s1] coherent_worker [of "wd_main w" pl]
    by (auto simp: host_scan_def plugin_inv_def split: option.splits prod.splits)
  with request Handler_inv [OF request(3)] show ?case by (auto simp: host_deps_def)
next
  case (standalone secret rq rt resp)
  with Handler_inv [OF standalone(2)] show ?case by (auto simp: standalone_deps_def)
next
  case (scan r)
  with runScan_inv [OF scan(1)] coherent_worker show ?case by (auto simp: plugin_inv_def)
next
  case (drain r)
  with drainWorker_inv [OF drain(1)] coherent_worker show ?case by (auto simp: plugin_inv_def)
next
  case (search order req res)
  with provider_Search_inv [OF search(1)] show ?case by auto
qed (auto simp: unconfigured_inv)

lemma reachable_inv:
  assumes "(plugin_step w)\<^sup>*\<^sup>* (empty_Config, unconfigured, s0) (c, pl, s)" and "db_inv (sv_db s0)"
  shows "plugin_inv (wd_main w) c pl \<and> db_inv (sv_db s)"
proof -
  have "case st of (c, pl, s) \<Rightarrow> plugin_inv (wd_main w) c pl \<and> db_inv (sv_db s)"
    if "(plugin_step w)\<^sup>*\<^sup>* (empty_Config, unconfigured, s0) st" for st
    using that
  proof (induction rule: rtranclp_induct)
    case base
    show ?case using assms(2) by (simp add: unconfigured_inv)
  next
    case (step st st')
    then show ?case by (cases st; cases st') (auto dest: plugin_step_inv)
  qed
  from this [OF assms(1)] show ?thesis by simp
qed

text \<open>A plugin that was configured once, on a database with settings of its own.\<close>

definition sample_world :: "Candidate list world" where
  "sample_world = \<lparr>wd_main = sample_main, wd_http = sample_http, wd_provider = sample_mp, wd_scan_text = (\<lambda>e. ''scan failed''),
     wd_wide = (\<lambda>q. 0)\<rparr>"

definition german_settings :: AppConfig where
  "german_settings = DefaultAppConfig\<lparr>ac_MetadataDefaultRegion := ''de''\<rparr>"

lemma sample_configured:
  "\<exists>c pl s. (plugin_step sample_world)\<^sup>*\<^sup>* (empty_Config, unconfigured, settled_server german_settings) (c, pl, s) \<and>
     pl_store pl \<and> sv_fault s = (\<lambda>n. False)"
proof -
  let ?req = "[(''database_url'', Some [(''value'', VString ''pg'')])] :: config_entry list"
  let ?s = "settled_server german_settings"
  define cfg where "cfg = config_defaults (config_from (\<lambda>q. 0) ?req)"
  obtain n where mig: "run_migrations (me_link sample_main) ?s = (None, ?s\<lparr>sv_calls := n\<rparr>)"
    using settled_migrations by blast
  have nd: "WithDefaults german_settings \<noteq> DefaultAppConfig" and listen: "ac_StandaloneHTTPListen (WithDefaults german_settings) = []"
    and ints: "config_ints german_settings"
    by code_simp+
  have "onConfigure sample_main cfg (unconfigured, ?s) =
      apply_settings sample_main cfg (WithDefaults german_settings) unconfigured (?s\<lparr>sv_calls := Suc (Suc n)\<rparr>)"
    using onConfigure_stored [OF _ _ mig _ _ _ nd, of cfg unconfigured] ints
    by (simp add: sample_main_def settled_server_def quiet_server_def)
  moreover have "sync_paths (cf_LibraryPaths cfg) s = s" for s :: "(Candidate list, json) server_state"
    by (simp add: cfg_def config_from_def set_entry_def stringFrom_def empty_Config_def sync_paths_def)
  ultimately obtain pl s where on: "onConfigure sample_main cfg (unconfigured, ?s) = (None, pl, s)"
    and res: "pl_store pl" "sv_fault s = sv_fault ?s"
    using listen by (auto simp: apply_settings_def Let_def)
  have "Configure (\<lambda>q. 0) (Some (onConfigure sample_main)) ?req (empty_Config, unconfigured, ?s) = (None, cfg, pl, s)"
    using on unfolding cfg_def
    by (simp add: Configure_def config_from_def set_entry_def stringFrom_def empty_Config_def config_defaults_def
        valid_scan_sources_def Let_def)
  then have "plugin_step sample_world (empty_Config, unconfigured, ?s) (cfg, pl, s)"
    by (intro plugin_step.configure [where r = None and req = ?req]) (simp add: sample_world_def)
  with res show ?thesis
    by (auto simp: settled_server_def quiet_server_def)
qed

lemma settled_inv: "db_inv (sv_db (settled_server c))"
  by (simp add: settled_server_def quiet_server_def one_table_inv(5,6) empty_db_inv)

text \<open>
  C5. The plugin as a whole: whatever sequence of configuration calls, HTTP requests on either listener,
  scheduled and manual scans, drains, metadata searches and restarts happens, and however the database
  fails in between, every state it reaches has a database that satisfies the schema's constraints. The
  worker, the cache and the metadata provider are those of the settings loaded last. Once a store is set,
  the kept configuration is usable and the one the runtime server reports. A standalone listener always
  has a secret of 32 bytes.
\<close>

theorem plugin_invariant:
  assumes "(plugin_step w)\<^sup>*\<^sup>* (empty_Config, unconfigured, s0) (c, pl, s)" and "db_inv (sv_db s0)"
  shows "db_inv (sv_db s) \<and> coherent (wd_main w) pl \<and>
    (if pl_store pl then pl_cfg pl = Some c \<and> usable c else c = empty_Config \<and> pl_cfg pl = None) \<and>
    (\<forall>k. pl_standalone pl = Some k \<longrightarrow> length k = 32)"
  using reachable_inv [OF assms] by (auto simp: plugin_inv_def)

theorem plugin_invariant_witness:
  "\<exists>c pl s. (plugin_step sample_world)\<^sup>*\<^sup>* (empty_Config, unconfigured, settled_server german_settings) (c, pl, s) \<and>
     pl_store pl \<and> db_inv (sv_db s) \<and> coherent sample_main pl \<and> usable c"
proof -
  obtain c pl s where st: "(plugin_step sample_world)\<^sup>*\<^sup>* (empty_Config, unconfigured, settled_server german_settings) (c, pl, s)" "pl_store pl"
    using sample_configured by blast
  moreover have "wd_main sample_world = sample_main" by (simp add: sample_world_def)
  ultimately show ?thesis using plugin_invariant [OF st(1) settled_inv] by auto
qed

text \<open>
  C14. A scan never hangs: in every state the plugin can reach, once the database stops failing, a scan
  returns, its inline enrichment and cache eviction included, and so does a drain of the queue.
\<close>

theorem plugin_scan_returns:
  assumes "(plugin_step w)\<^sup>*\<^sup>* (empty_Config, unconfigured, s0) (c, pl, s)" and "db_inv (sv_db s0)"
    and "\<forall>n\<ge>N. \<not> sv_fault s n"
  shows "(\<exists>r s'. runScan (wd_main w) pl s = Some (r, s') \<and> db_inv (sv_db s')) \<and>
    (\<exists>r s'. drainWorker pl s = Some (r, s') \<and> db_inv (sv_db s'))"
proof -
  have inv: "plugin_inv (wd_main w) c pl" "db_inv (sv_db s)" using reachable_inv [OF assms(1,2)] by simp_all
  then have store: "\<forall>w\<in>set_option (pl_worker pl). wk_Store w = worker_store"
    by (auto simp: plugin_inv_def dest: coherent_worker)
  obtain r s' where "runScan (wd_main w) pl s = Some (r, s')"
    using runScan_returns [OF inv(2) _ store, of N] assms(3) by blast
  moreover obtain r' s'' where "drainWorker pl s = Some (r', s'')"
    using wstore.drain_ends [of _ s N] inv(2) assms(3) store by (cases "pl_worker pl") (fastforce simp: drainWorker_def)+
  ultimately show ?thesis
    using runScan_inv [OF _ inv(2) store] drainWorker_inv [OF _ inv(2) store] by blast
qed

theorem plugin_scan_returns_witness:
  "\<exists>c pl s r s'. (plugin_step sample_world)\<^sup>*\<^sup>* (empty_Config, unconfigured, settled_server german_settings) (c, pl, s) \<and>
     pl_store pl \<and> runScan sample_main pl s = Some (r, s')"
proof -
  obtain c pl s where st: "(plugin_step sample_world)\<^sup>*\<^sup>* (empty_Config, unconfigured, settled_server german_settings) (c, pl, s)"
      "pl_store pl" "sv_fault s = (\<lambda>n. False)"
    using sample_configured by blast
  moreover have "wd_main sample_world = sample_main" by (simp add: sample_world_def)
  moreover have "\<exists>r s'. runScan (wd_main sample_world) pl s = Some (r, s')"
    using plugin_scan_returns [OF st(1) settled_inv, of 0] st(3) by (simp, blast)
  ultimately show ?thesis by metis
qed

end
