(* ===== verification/Http_Json.thy ===== *)
theory Http_Json
  imports Http_Spec
begin

text \<open>
  What the handlers put on the wire: the JSON documents of the responses with the field names of the Go
  structs, and the plain text of errors. Go leaves out a field marked \<^verbatim>\<open>omitempty\<close> with its zero value,
  sorts the keys of a map, and writes a nil slice as \<^verbatim>\<open>null\<close>; the store's listings are nil when they have no
  row.
\<close>

section \<open>Documents\<close>

definition opt_str :: "string \<Rightarrow> string \<Rightarrow> (string \<times> json) list" where
  "opt_str k s = (if s = [] then [] else [(k, JStr s)])"

definition opt_int :: "string \<Rightarrow> int \<Rightarrow> (string \<times> json) list" where
  "opt_int k i = (if i = 0 then [] else [(k, JInt i)])"

definition nil_slice :: "json list \<Rightarrow> json" where
  "nil_slice xs = (if xs = [] then JNull else JArr xs)"

definition summary_json :: "audiobookSummary \<Rightarrow> json" where
  "summary_json s = JObj ([(''id'', JStr (sm_ID s)), (''title'', JStr (sm_Title s)), (''author'', JStr (sm_Author s))] @
     opt_str ''narrator'' (sm_Narrator s) @ opt_str ''year'' (sm_Year s) @ opt_str ''genre'' (sm_Genre s) @
     [(''duration_ms'', JInt (sm_DurationMs s))] @ opt_int ''library_id'' (sm_LibraryID s) @
     opt_str ''library_name'' (sm_LibraryName s) @ opt_str ''media_type'' (sm_MediaType s))"

definition list_json :: "audiobookSummary list \<Rightarrow> string \<Rightarrow> json" where
  "list_json items cur = JObj ((''items'', JArr (map summary_json items)) # opt_str ''next_cursor'' cur)"

definition library_json :: "libraryInfo \<Rightarrow> json" where
  "library_json l = JObj ([(''id'', JInt (li_ID l)), (''name'', JStr (li_Name l))] @ opt_str ''media_type'' (li_MediaType l))"

definition chapter_json :: "Chapter \<Rightarrow> json" where
  "chapter_json c = JObj [(''AudiobookID'', JStr (ch_AudiobookID c)), (''Idx'', JInt (ch_Idx c)), (''Title'', JStr (ch_Title c)),
     (''StartMs'', JInt (ch_StartMs c)), (''EndMs'', JInt (ch_EndMs c))]"

definition file_json :: "file_entry \<Rightarrow> json" where
  "file_json f = JObj [(''duration_ms'', JInt (fe_duration_ms f)), (''format'', JStr (fe_format f)), (''index'', JInt (fe_index f)),
     (''path'', JStr (fe_path f))]"

definition item_json :: "audiobookSummary \<Rightarrow> Chapter list \<Rightarrow> file_entry list \<Rightarrow> json" where
  "item_json item chapters files = JObj [(''chapters'', nil_slice (map chapter_json chapters)),
     (''files'', JArr (map file_json files)), (''item'', summary_json item)]"

definition facet_json :: "facetItem list \<Rightarrow> string \<Rightarrow> json" where
  "facet_json items cur =
     JObj ((''items'', JArr (map (\<lambda>f. JObj [(''name'', JStr (ft_Name f)), (''count'', JInt (ft_Count f))]) items)) # opt_str ''next_cursor'' cur)"

text \<open>\<open>je_time\<close> is \<^verbatim>\<open>time.Time\<close>'s JSON text, in the location the driver gives it; the others are \<^verbatim>\<open>Error()\<close> texts.\<close>

record json_env =
  je_time :: "time \<Rightarrow> string"
  je_token :: "stream_error \<Rightarrow> string"
  je_sql :: "sql_error \<Rightarrow> string"
  je_config :: "app_config_error \<Rightarrow> string"
  je_page :: "string \<Rightarrow> string" \<comment> \<open>the admin page for a theme\<close>
  je_encode :: "json \<Rightarrow> bytes" \<comment> \<open>\<^verbatim>\<open>json.Encoder\<close>, with its newline\<close>

definition opt_json :: "('a \<Rightarrow> json) \<Rightarrow> 'a option \<Rightarrow> json" where
  "opt_json f x = (case x of None \<Rightarrow> JNull | Some y \<Rightarrow> f y)"

definition path_json :: "json_env \<Rightarrow> LibraryPath \<Rightarrow> json" where
  "path_json env l = JObj [(''ID'', JInt (lp_ID l)), (''Path'', JStr (lp_Path l)), (''Enabled'', JBool (lp_Enabled l)),
     (''LastScannedAt'', opt_json (\<lambda>t. JStr (je_time env t)) (lp_LastScannedAt l)), (''CreatedAt'', JStr (je_time env (lp_CreatedAt l)))]"

definition event_json :: "json_env \<Rightarrow> ScanEvent \<Rightarrow> json" where
  "event_json env e = JObj [(''ID'', JInt (se_ID e)), (''LibraryPathID'', opt_json JInt (se_LibraryPathID e)),
     (''StartedAt'', JStr (je_time env (se_StartedAt e))), (''FinishedAt'', opt_json (\<lambda>t. JStr (je_time env t)) (se_FinishedAt e)),
     (''BooksAdded'', JInt (se_BooksAdded e)), (''BooksChanged'', JInt (se_BooksChanged e)), (''BooksDeleted'', JInt (se_BooksDeleted e)),
     (''ErrorText'', opt_json JStr (se_ErrorText e))]"

definition browse_json :: "string \<Rightarrow> string \<Rightarrow> filesystemBrowseEntry list \<Rightarrow> json" where
  "browse_json path parent entries = JObj [(''path'', JStr path), (''parent'', JStr parent),
     (''entries'', JArr (map (\<lambda>e. JObj [(''name'', JStr (be_Name e)), (''path'', JStr (be_Path e))]) entries))]"

definition admin_error_json :: "string \<Rightarrow> string \<Rightarrow> json" where
  "admin_error_json code message = JObj [(''error'', JObj [(''code'', JStr code), (''message'', JStr message)])]"

text \<open>The document of a JSON response; \<open>None\<close> for the responses that are text, markup or bytes.\<close>

fun body_json :: "json_env \<Rightarrow> body \<Rightarrow> json option" where
  "body_json env (BList items cur) = Some (list_json items cur)"
| "body_json env (BLibraries ls) = Some (JObj [(''items'', JArr (map library_json ls))])"
| "body_json env (BItem item chapters files) = Some (item_json item chapters files)"
| "body_json env (BFacets items cur) = Some (facet_json items cur)"
| "body_json env (BAdminError code msg) = Some (admin_error_json code msg)"
| "body_json env (BAdminStoreError code e) = Some (admin_error_json code (je_sql env e))"
| "body_json env (BAdminConfigError code e) = Some (admin_error_json code (je_config env e))"
| "body_json env (BPaths ls) = Some (JObj [(''items'', nil_slice (map (path_json env) ls))])"
| "body_json env (BPath l) = Some (path_json env l)"
| "body_json env (BConfig c) = Some (marshal_config c)"
| "body_json env (BScan i) = Some (JObj [(''scan_event_id'', JInt i)])"
| "body_json env (BEvents es) = Some (JObj [(''items'', nil_slice (map (event_json env) es))])"
| "body_json env (BQueued n) = Some (JObj [(''queued'', JInt (int n))])"
| "body_json env (BBrowse path parent entries) = Some (browse_json path parent entries)"
| "body_json env _ = None"


section \<open>What a client reads\<close>

definition doc_field :: "json \<Rightarrow> string \<Rightarrow> json option" where
  "doc_field v k = (case v of JObj fs \<Rightarrow> map_of fs k | _ \<Rightarrow> None)"

definition str_of :: "json option \<Rightarrow> string" where
  "str_of v = (case v of Some (JStr s) \<Rightarrow> s | _ \<Rightarrow> [])"

definition int_of_json :: "json option \<Rightarrow> int" where
  "int_of_json v = (case v of Some (JInt i) \<Rightarrow> i | _ \<Rightarrow> 0)"

definition list_of :: "json option \<Rightarrow> json list" where
  "list_of v = (case v of Some (JArr xs) \<Rightarrow> xs | _ \<Rightarrow> [])"

definition read_summary :: "json \<Rightarrow> audiobookSummary" where
  "read_summary v = \<lparr>sm_ID = str_of (doc_field v ''id''), sm_Title = str_of (doc_field v ''title''), sm_Author = str_of (doc_field v ''author''),
     sm_Narrator = str_of (doc_field v ''narrator''), sm_Year = str_of (doc_field v ''year''), sm_Genre = str_of (doc_field v ''genre''),
     sm_DurationMs = int_of_json (doc_field v ''duration_ms''), sm_LibraryID = int_of_json (doc_field v ''library_id''),
     sm_LibraryName = str_of (doc_field v ''library_name''), sm_MediaType = str_of (doc_field v ''media_type'')\<rparr>"

lemma read_summary_json: "read_summary (summary_json s) = s"
  by (simp add: read_summary_def summary_json_def doc_field_def str_of_def int_of_json_def opt_str_def opt_int_def)

text \<open>
  A client that reads the documented fields, with the zero value for one that is absent, gets the items and
  the cursor the handler computed; no cursor is there exactly when the page is empty.
\<close>

theorem list_document_readable:
  assumes "body_json env (list_envelope books srt names) = Some v"
  shows "map read_summary (list_of (doc_field v ''items'')) = map (\<lambda>a. toSummary a names) books \<and>
    str_of (doc_field v ''next_cursor'') = (if books = [] then [] else EncodeCursor (last books) srt)"
  using assms
  by (auto simp: list_envelope_def list_json_def doc_field_def list_of_def str_of_def opt_str_def comp_def read_summary_json)

text \<open>
  The script of the admin page reads \<^verbatim>\<open>id\<close>, \<^verbatim>\<open>path\<close> and \<^verbatim>\<open>name\<close> of each library path it lists. The struct has no
  JSON names, so the document has none of the three: the page shows no path, and its delete buttons send
  an empty id.
\<close>

theorem admin_page_keys_missing:
  "doc_field (path_json env l) ''id'' = None \<and> doc_field (path_json env l) ''path'' = None \<and> doc_field (path_json env l) ''name'' = None"
  by (simp add: path_json_def doc_field_def)

end
