(* ===== verification/Serve_Content.thy ===== *)
theory Serve_Content
  imports Http_Routes Http_Json "HOL-Library.AList"
begin

text \<open>
  From the bytes of a request to the bytes of a response: the route tables of \<^verbatim>\<open>internal/server/server.go\<close>,
  and \<^verbatim>\<open>http.ServeContent\<close>, to which \<open>serveBookFile\<close> and \<open>handleCover\<close> hand an opened file or an image. It
  decides on conditional headers and byte ranges, so it is what a player that seeks or resumes talks to.
\<close>


section \<open>Headers\<close>

text \<open>\<^verbatim>\<open>Header.Get\<close>, \<^verbatim>\<open>Header.Set\<close> and \<^verbatim>\<open>Header.Del\<close> of a key that is canonical already.\<close>

definition header_get :: "headers \<Rightarrow> string \<Rightarrow> string" where
  "header_get hs k = (case map_of hs k of Some (v # _) \<Rightarrow> v | _ \<Rightarrow> [])"

definition header_put :: "string \<Rightarrow> string \<Rightarrow> headers \<Rightarrow> headers" where
  "header_put k v hs = AList.update k [v] hs"

definition header_del :: "string \<Rightarrow> headers \<Rightarrow> headers" where
  "header_del k hs = AList.delete k hs"

definition header_space :: "char \<Rightarrow> bool" where
  "header_space c \<longleftrightarrow> byte_of c \<in> {9, 10, 13, 32}"

definition TrimString :: "string \<Rightarrow> string" where
  "TrimString s = rev (dropWhile header_space (rev (dropWhile header_space s)))"

fun Split_byte :: "char \<Rightarrow> string \<Rightarrow> string list" where
  "Split_byte c [] = [[]]"
| "Split_byte c (d # s) =
     (if d = c then [] # Split_byte c s
      else case Split_byte c s of w # ws \<Rightarrow> (d # w) # ws | [] \<Rightarrow> [[d]])"

definition Cut_byte :: "string \<Rightarrow> char \<Rightarrow> (string \<times> string) option" where
  "Cut_byte s c = map_option (\<lambda>i. (take i s, drop (Suc i) s)) (IndexByte s c)"

text \<open>\<^verbatim>\<open>TimeFormat\<close>: \<^verbatim>\<open>Mon, 02 Jan 2006 15:04:05 GMT\<close>\<close>

definition FormatHTTPDate :: "time \<Rightarrow> string" where
  "FormatHTTPDate t =
     (let secs = t div 1000000000;
          days = secs div 86400;
          (y, mo, d) = civil_of_days days;
          sod = secs mod 86400
      in [''Sun'', ''Mon'', ''Tue'', ''Wed'', ''Thu'', ''Fri'', ''Sat''] ! nat ((days + 4) mod 7) @ '', '' @
         zero_pad 2 d @ '' '' @
         [''Jan'', ''Feb'', ''Mar'', ''Apr'', ''May'', ''Jun'', ''Jul'', ''Aug'', ''Sep'', ''Oct'', ''Nov'', ''Dec''] ! nat (mo - 1) @
         '' '' @ zero_pad 4 y @ '' '' @ zero_pad 2 (sod div 3600) @ '':'' @ zero_pad 2 (sod div 60 mod 60) @ '':'' @
         zero_pad 2 (sod mod 60) @ '' GMT'')"

text \<open>\<^verbatim>\<open>http.ParseTime\<close> and the random boundary of a multipart response are arguments.\<close>

record content_env =
  ce_ParseTime :: "string \<Rightarrow> time option"
  ce_boundary :: string

definition second :: time where
  "second = 1000000000"

definition isZeroTime :: "time \<Rightarrow> bool" where
  "isZeroTime t \<longleftrightarrow> t = - 62135596800 * second \<or> t = 0"


section \<open>Conditional requests\<close>

datatype cond = condNone | condTrue | condFalse

text \<open>An entity tag at the front and what follows it; \<open>None\<close> for the two empty strings.\<close>

fun etag_end :: "string \<Rightarrow> (string \<times> string) option" where
  "etag_end [] = None"
| "etag_end (c # s) =
     (if byte_of c = 33 \<or> (35 \<le> byte_of c \<and> byte_of c \<le> 126) \<or> 128 \<le> byte_of c
      then map_option (\<lambda>(t, r). (c # t, r)) (etag_end s)
      else if c = CHR 0x22 then Some ([c], s) else None)"

definition scanETag :: "string \<Rightarrow> (string \<times> string) option" where
  "scanETag str =
     (let s = TrimString str; start = (if HasPrefix s ''W/'' then 2 else 0) in
      if length (drop start s) < 2 \<or> s ! start \<noteq> CHR 0x22 then None
      else map_option (\<lambda>(t, r). (take start s @ CHR 0x22 # t, r)) (etag_end (drop (Suc start) s)))"

text \<open>
  The plugin sets no entity tag, so no tag of a request equals the response's: a list of tags matches
  only by an asterisk that comes before the first malformed tag. The fuel is the length of the list, of
  which every turn takes at least one byte.
\<close>

fun star_listed :: "nat \<Rightarrow> string \<Rightarrow> bool" where
  "star_listed 0 buf = False"
| "star_listed (Suc n) buf =
     (case TrimString buf of
        [] \<Rightarrow> False
      | c # r \<Rightarrow>
          if c = CHR '','' then star_listed n r
          else if c = CHR ''*'' then True
          else case scanETag (c # r) of None \<Rightarrow> False | Some (_, rest) \<Rightarrow> star_listed n rest)"

definition checkIfMatch :: "http_request \<Rightarrow> cond" where
  "checkIfMatch r =
     (let im = header_get (hq_Header r) ''If-Match'' in
      if im = [] then condNone else if star_listed (length im) im then condTrue else condFalse)"

definition checkIfNoneMatch :: "http_request \<Rightarrow> cond" where
  "checkIfNoneMatch r =
     (let inm = header_get (hq_Header r) ''If-None-Match'' in
      if inm = [] then condNone else if star_listed (length inm) inm then condFalse else condTrue)"

definition checkIfUnmodifiedSince :: "content_env \<Rightarrow> http_request \<Rightarrow> time \<Rightarrow> cond" where
  "checkIfUnmodifiedSince env r modtime =
     (let ius = header_get (hq_Header r) ''If-Unmodified-Since'' in
      if ius = [] \<or> isZeroTime modtime then condNone
      else case ce_ParseTime env ius of
             None \<Rightarrow> condNone
           | Some t \<Rightarrow> if modtime div second * second \<le> t then condTrue else condFalse)"

definition is_get :: "http_request \<Rightarrow> bool" where
  "is_get r \<longleftrightarrow> hq_Method r = ''GET'' \<or> hq_Method r = ''HEAD''"

definition checkIfModifiedSince :: "content_env \<Rightarrow> http_request \<Rightarrow> time \<Rightarrow> cond" where
  "checkIfModifiedSince env r modtime =
     (let ims = header_get (hq_Header r) ''If-Modified-Since'' in
      if \<not> is_get r \<or> ims = [] \<or> isZeroTime modtime then condNone
      else case ce_ParseTime env ims of
             None \<Rightarrow> condNone
           | Some t \<Rightarrow> if modtime div second * second \<le> t then condFalse else condTrue)"

definition checkIfRange :: "content_env \<Rightarrow> http_request \<Rightarrow> time \<Rightarrow> cond" where
  "checkIfRange env r modtime =
     (let ir = header_get (hq_Header r) ''If-Range'' in
      if \<not> is_get r \<or> ir = [] then condNone
      else if scanETag ir \<noteq> None then condFalse
      else if modtime = - 62135596800 * second then condFalse
      else case ce_ParseTime env ir of
             None \<Rightarrow> condFalse
           | Some t \<Rightarrow> if t div second = modtime div second then condTrue else condFalse)"

text \<open>A final status, or the range that is still to be honoured.\<close>

definition checkPreconditions :: "content_env \<Rightarrow> http_request \<Rightarrow> time \<Rightarrow> int + string" where
  "checkPreconditions env r modtime =
     (let ch = (if checkIfMatch r = condNone then checkIfUnmodifiedSince env r modtime else checkIfMatch r) in
      if ch = condFalse then Inl 412
      else if checkIfNoneMatch r = condFalse then Inl (if is_get r then 304 else 412)
      else if checkIfNoneMatch r = condNone \<and> checkIfModifiedSince env r modtime = condFalse then Inl 304
      else let rangeHeader = header_get (hq_Header r) ''Range''
           in Inr (if rangeHeader \<noteq> [] \<and> checkIfRange env r modtime = condFalse then [] else rangeHeader))"


section \<open>Byte ranges\<close>

record httpRange =
  hr_start :: int
  hr_length :: int

datatype range_error = InvalidRange | NoOverlap

text \<open>One element of the list; \<open>Inr None\<close> is a range that starts behind the end.\<close>

definition parse_range_spec :: "string \<Rightarrow> int \<Rightarrow> range_error + httpRange option" where
  "parse_range_spec ra sz =
     (case Cut_byte ra (CHR ''-'') of
        None \<Rightarrow> Inl InvalidRange
      | Some (start0, end0) \<Rightarrow>
          (let start = TrimString start0; till = TrimString end0 in
           if start = [] then
             (if till = [] \<or> hd till = CHR ''-'' then Inl InvalidRange
              else case ParseInt till of
                     None \<Rightarrow> Inl InvalidRange
                   | Some i \<Rightarrow>
                       if i < 0 then Inl InvalidRange
                       else let beg = sz - min i sz in Inr (Some \<lparr>hr_start = beg, hr_length = sz - beg\<rparr>))
           else case ParseInt start of
                  None \<Rightarrow> Inl InvalidRange
                | Some i \<Rightarrow>
                    if i < 0 then Inl InvalidRange
                    else if i \<ge> sz then Inr None
                    else if till = [] then Inr (Some \<lparr>hr_start = i, hr_length = sz - i\<rparr>)
                    else case ParseInt till of
                           None \<Rightarrow> Inl InvalidRange
                         | Some j \<Rightarrow>
                             if i > j then Inl InvalidRange
                             else Inr (Some \<lparr>hr_start = i, hr_length = (if j \<ge> sz then sz - 1 else j) - i + 1\<rparr>)))"

fun parse_range_list :: "string list \<Rightarrow> int \<Rightarrow> bool \<Rightarrow> httpRange list \<Rightarrow> range_error + httpRange list" where
  "parse_range_list [] sz noOverlap ranges =
     (if noOverlap \<and> ranges = [] then Inl NoOverlap else Inr ranges)"
| "parse_range_list (ra # ras) sz noOverlap ranges =
     (if TrimString ra = [] then parse_range_list ras sz noOverlap ranges
      else case parse_range_spec (TrimString ra) sz of
             Inl e \<Rightarrow> Inl e
           | Inr None \<Rightarrow> parse_range_list ras sz True ranges
           | Inr (Some r) \<Rightarrow> parse_range_list ras sz noOverlap (ranges @ [r]))"

definition parseRange :: "string \<Rightarrow> int \<Rightarrow> range_error + httpRange list" where
  "parseRange s sz =
     (if s = [] then Inr []
      else case CutPrefix s ''bytes='' of
             None \<Rightarrow> Inl InvalidRange
           | Some specs \<Rightarrow> parse_range_list (Split_byte (CHR '','') specs) sz False [])"

definition sumRangesSize :: "httpRange list \<Rightarrow> int" where
  "sumRangesSize ranges = fold (\<lambda>r n. wrap64 (n + hr_length r)) ranges 0"

definition contentRange :: "httpRange \<Rightarrow> int \<Rightarrow> string" where
  "contentRange r sz =
     ''bytes '' @ FormatInt (hr_start r) @ ''-'' @ FormatInt (hr_start r + hr_length r - 1) @ ''/'' @ FormatInt sz"

definition range_bytes :: "httpRange \<Rightarrow> bytes \<Rightarrow> bytes" where
  "range_bytes r content = take (nat (hr_length r)) (drop (nat (hr_start r)) content)"

definition crlf :: string where
  "crlf = [CHR 0x0D, CHR 0x0A]"

text \<open>\<^verbatim>\<open>multipart.Writer\<close>: a delimiter and headers before each part, a closing delimiter after the last.\<close>

definition multipart_part :: "string \<Rightarrow> string \<Rightarrow> bytes \<Rightarrow> bool \<times> httpRange \<Rightarrow> bytes" where
  "multipart_part boundary ctype content p =
     (case p of (is_first, r) \<Rightarrow>
        (if is_first then [] else crlf) @ ''--'' @ boundary @ crlf @
        ''Content-Range: '' @ contentRange r (int (length content)) @ crlf @ ''Content-Type: '' @ ctype @ crlf @ crlf @
        range_bytes r content)"

definition multipart_body :: "string \<Rightarrow> string \<Rightarrow> bytes \<Rightarrow> httpRange list \<Rightarrow> bytes" where
  "multipart_body boundary ctype content ranges =
     concat (map (multipart_part boundary ctype content) (zip (True # replicate (length ranges) False) ranges)) @
     crlf @ ''--'' @ boundary @ ''--'' @ crlf"


section \<open>http.ServeContent\<close>

definition serve_error :: "headers \<Rightarrow> string \<Rightarrow> int \<Rightarrow> http_response" where
  "serve_error hs msg code =
     \<lparr>hs_Code = code,
      hs_Header = header_put ''X-Content-Type-Options'' ''nosniff'' (header_put ''Content-Type'' ''text/plain; charset=utf-8''
        (header_del ''Content-Length'' (header_del ''Last-Modified'' (header_del ''Cache-Control'' hs)))),
      hs_Body = msg @ [CHR 0x0A]\<rparr>"

definition writeNotModified :: "headers \<Rightarrow> headers" where
  "writeNotModified hs = header_del ''Content-Length'' (header_del ''Content-Type'' hs)"

definition range_error_text :: "range_error \<Rightarrow> string" where
  "range_error_text e = (case e of InvalidRange \<Rightarrow> ''invalid range'' | NoOverlap \<Rightarrow> ''invalid range: failed to overlap'')"

text \<open>\<open>hs\<close> are the headers the handler has set, a content type among them.\<close>

definition send_content :: "http_request \<Rightarrow> headers \<Rightarrow> int \<Rightarrow> bytes \<Rightarrow> http_response" where
  "send_content r hs code body =
     \<lparr>hs_Code = code,
      hs_Header = header_put ''Content-Length'' (FormatInt (int (length body))) (header_put ''Accept-Ranges'' ''bytes'' hs),
      hs_Body = (if hq_Method r = ''HEAD'' then [] else body)\<rparr>"

definition serve_ranges :: "content_env \<Rightarrow> http_request \<Rightarrow> headers \<Rightarrow> bytes \<Rightarrow> httpRange list \<Rightarrow> http_response" where
  "serve_ranges env r hs content ranges0 =
     (let sz = int (length content);
          ranges = (if sumRangesSize ranges0 > sz then [] else ranges0)
      in case ranges of
           [] \<Rightarrow> send_content r hs 200 content
         | [ra] \<Rightarrow> send_content r (header_put ''Content-Range'' (contentRange ra sz) hs) 206 (range_bytes ra content)
         | _ \<Rightarrow> send_content r (header_put ''Content-Type'' (''multipart/byteranges; boundary='' @ ce_boundary env) hs) 206
                 (multipart_body (ce_boundary env) (header_get hs ''Content-Type'') content ranges))"

definition serveContent :: "content_env \<Rightarrow> http_request \<Rightarrow> headers \<Rightarrow> time \<Rightarrow> bytes \<Rightarrow> http_response" where
  "serveContent env r hs0 modtime content =
     (let hs = (if isZeroTime modtime then hs0 else header_put ''Last-Modified'' (FormatHTTPDate modtime) hs0);
          sz = int (length content)
      in case checkPreconditions env r modtime of
           Inl code \<Rightarrow>
             \<lparr>hs_Code = code, hs_Header = (if code = 304 then writeNotModified hs else hs), hs_Body = []\<rparr>
         | Inr rangeReq \<Rightarrow>
             (case parseRange rangeReq sz of
                Inr ranges \<Rightarrow> serve_ranges env r hs content ranges
              | Inl NoOverlap \<Rightarrow>
                  if sz = 0 then serve_ranges env r hs content []
                  else serve_error (header_put ''Content-Range'' (''bytes */'' @ FormatInt sz) hs) (range_error_text NoOverlap) 416
              | Inl InvalidRange \<Rightarrow> serve_error hs (range_error_text InvalidRange) 416))"


section \<open>Routes\<close>

text \<open>
  What the code registers with the router: method, pattern, and the handler with the URL parameters it
  reads. How \<^verbatim>\<open>chi\<close> matches a request against the table is an argument; it names the entry and the values
  of its placeholders.
\<close>

type_synonym route_table = "(string \<times> string \<times> (string list \<Rightarrow> route)) list"

definition param :: "nat \<Rightarrow> string list \<Rightarrow> string" where
  "param i ps = (if i < length ps then ps ! i else [])"

definition standalone_table :: route_table where
  "standalone_table =
     [(''GET'', ''/api/v1/stream/{book_id}/{file_idx}'', \<lambda>ps. StreamFile (param 0 ps) (param 1 ps)),
      (''GET'', ''/api/v1/cover/{book_id}/{size}'', \<lambda>ps. CoverImage (param 0 ps) (param 1 ps))]"

definition host_table :: route_table where
  "host_table =
     [(''GET'', ''/api/v1/catalog'', \<lambda>ps. Catalog),
      (''GET'', ''/api/v1/catalog/libraries'', \<lambda>ps. Libraries),
      (''GET'', ''/api/v1/catalog/search'', \<lambda>ps. CatalogSearch),
      (''GET'', ''/api/v1/catalog/{id}'', \<lambda>ps. CatalogItem (param 0 ps)),
      (''GET'', ''/api/v1/browse/authors'', \<lambda>ps. BrowseAuthors),
      (''GET'', ''/api/v1/browse/genres'', \<lambda>ps. BrowseGenres),
      (''GET'', ''/api/v1/stream/{book_id}/{file_idx}'', \<lambda>ps. StreamFile (param 0 ps) (param 1 ps)),
      (''GET'', ''/api/v1/cover/{book_id}/{size}'', \<lambda>ps. CoverImage (param 0 ps) (param 1 ps)),
      (''GET'', ''/api/v1/requests/{externalId}'', \<lambda>ps. Requests (param 0 ps)),
      (''GET'', ''/admin'', \<lambda>ps. AdminHome),
      (''GET'', ''/admin/'', \<lambda>ps. AdminHome),
      (''POST'', ''/admin/scan'', \<lambda>ps. AdminScan),
      (''GET'', ''/admin/scan/status'', \<lambda>ps. AdminScanStatus),
      (''GET'', ''/admin/library-paths'', \<lambda>ps. AdminListPaths),
      (''GET'', ''/admin/filesystem/browse'', \<lambda>ps. AdminBrowse),
      (''POST'', ''/admin/library-paths'', \<lambda>ps. AdminAddPath),
      (''DELETE'', ''/admin/library-paths/{id}'', \<lambda>ps. AdminDeletePath (param 0 ps)),
      (''GET'', ''/admin/config'', \<lambda>ps. AdminGetConfig),
      (''PUT'', ''/admin/config'', \<lambda>ps. AdminPutConfig),
      (''POST'', ''/admin/metadata/backfill'', \<lambda>ps. AdminBackfill)]"

definition table_of :: "'j Deps \<Rightarrow> route_table" where
  "table_of dp = (if dp_StandaloneOn dp then standalone_table else host_table)"

datatype chi_match = ChiRoute nat "string list" | ChiMethodNotAllowed | ChiNotFound

text \<open>
  \<open>ae_chi\<close> is the router, \<open>ae_not_allowed\<close> its answer to a known path with another method, \<open>ae_json\<close> the
  parser of request bodies.
\<close>

record api_env =
  ae_http :: http_env
  ae_content :: content_env
  ae_chi :: "(string \<times> string) list \<Rightarrow> string \<Rightarrow> string \<Rightarrow> chi_match"
  ae_not_allowed :: http_response
  ae_json :: "bytes \<Rightarrow> json option"
  ae_texts :: json_env

definition request_of :: "api_env \<Rightarrow> http_request \<Rightarrow> request" where
  "request_of env q = \<lparr>rq_query = (\<lambda>k. case map_of (hq_Query q) k of Some v \<Rightarrow> v | None \<Rightarrow> []),
     rq_theme_header = header_get (hq_Header q) ''X-Silo-Theme'', rq_body = ae_json env (hq_Body q)\<rparr>"

definition stream_headers :: "string \<Rightarrow> headers" where
  "stream_headers ct = [(''Content-Type'', [ct]), (''Accept-Ranges'', [''bytes'']), (''X-Stream-Source'', [''local-fs''])]"

definition coverModTime :: time where
  "coverModTime = 0"

definition json_header :: headers where
  "json_header = [(''Content-Type'', [''application/json''])]"

text \<open>\<^verbatim>\<open>http.Error\<close>\<close>

definition text_error :: "int \<Rightarrow> string \<Rightarrow> http_response" where
  "text_error code msg = \<lparr>hs_Code = code, hs_Header = [(''X-Content-Type-Options'', [''nosniff'']),
     (''Content-Type'', [''text/plain; charset=utf-8''])], hs_Body = msg @ [CHR 0x0A]\<rparr>"

definition plain_response :: "json_env \<Rightarrow> int \<Rightarrow> body \<Rightarrow> http_response" where
  "plain_response env code bd =
     (case body_json env bd of
        Some v \<Rightarrow> \<lparr>hs_Code = code, hs_Header = json_header, hs_Body = je_encode env v\<rparr>
      | None \<Rightarrow>
          (case bd of
             BText msg \<Rightarrow> text_error code msg
           | BTokenError e \<Rightarrow> text_error code (je_token env e)
           | BStoreError e \<Rightarrow> text_error code (je_sql env e)
           | BRaw t \<Rightarrow> \<lparr>hs_Code = code, hs_Header = json_header, hs_Body = t\<rparr>
           | BHome theme \<Rightarrow> \<lparr>hs_Code = code, hs_Header = [(''Content-Type'', [''text/html; charset=utf-8''])], hs_Body = je_page env theme\<rparr>
           | _ \<Rightarrow> \<lparr>hs_Code = code, hs_Header = [], hs_Body = []\<rparr>))"

definition write_response :: "api_env \<Rightarrow> http_request \<Rightarrow> response \<Rightarrow> http_response" where
  "write_response env q resp =
     (case resp of (st, bd) \<Rightarrow>
        (case bd of
           BFile ct p modtime content \<Rightarrow> serveContent (ae_content env) q (stream_headers ct) modtime content
         | BCover ct b \<Rightarrow> serveContent (ae_content env) q
             [(''Content-Type'', [ct]), (''Cache-Control'', [''private, max-age=3600''])] coverModTime b
         | _ \<Rightarrow> plain_response (ae_texts env) (int st) bd))"

definition router :: "api_env \<Rightarrow> 'j Deps \<Rightarrow> ('j, json) server_state http_handler" where
  "router env dp q s =
     (let answer = (\<lambda>rt. map_prod (write_response env q) id (Handler (ae_http env) dp (request_of env q) rt s)) in
      case ae_chi env (map (\<lambda>(m, p, h). (m, p)) (table_of dp)) (hq_Method q) (hq_Path q) of
        ChiRoute i ps \<Rightarrow> answer (if i < length (table_of dp) then snd (snd (table_of dp ! i)) ps else NoRoute)
      | ChiNotFound \<Rightarrow> answer NoRoute
      | ChiMethodNotAllowed \<Rightarrow> (ae_not_allowed env, s))"


section \<open>Parsing ranges\<close>

lemma Split_byte_single: "c \<notin> set s \<Longrightarrow> Split_byte c s = [s]"
  by (induction s) auto

lemma length_Split_byte: "length (Split_byte c s) \<le> Suc (length s)"
  by (induction s) (auto split: list.split)

lemma digit_facts:
  assumes "is_digit c"
  shows "\<not> header_space c" "c \<noteq> CHR ''-''" "c \<noteq> CHR '',''"
  using assms by (auto simp: is_digit_def header_space_def)

lemma TrimString_solid:
  assumes "s \<noteq> []" and "\<not> header_space (hd s)" and "\<not> header_space (last s)"
  shows "TrimString s = s"
proof -
  have "dropWhile header_space s = s" using assms(1,2) by (cases s) auto
  moreover have "dropWhile header_space (rev s) = rev s"
    using assms(1,3) by (cases "rev s") (auto simp: last_rev [symmetric] hd_rev)
  ultimately show ?thesis by (simp add: TrimString_def)
qed

lemma decimal_solid: "\<not> header_space (hd (decimal n))" "\<not> header_space (last (decimal n))"
  using digit_facts(1) decimal_digits hd_in_set last_in_set decimal_nonempty by blast+

lemma TrimString_decimal [simp]: "TrimString (decimal n) = decimal n"
  by (rule TrimString_solid) (simp_all add: decimal_solid)

lemma FormatInt_nat [simp]: "FormatInt (int n) = decimal n"
  by (simp add: FormatInt_def)

lemma Cut_byte_append: "c \<notin> set a \<Longrightarrow> Cut_byte (a @ c # b) c = Some (a, b)"
  by (simp add: Cut_byte_def IndexByte_append)

definition range_header :: "nat \<Rightarrow> nat \<Rightarrow> string" where
  "range_header a b = ''bytes='' @ FormatInt (int a) @ ''-'' @ FormatInt (int b)"

lemma decimal_free: "CHR ''-'' \<notin> set (decimal n)" "CHR '','' \<notin> set (decimal n)"
  using decimal_digits digit_facts(2,3) by blast+

lemma parse_range_header:
  assumes "a \<le> b" and "int a < sz" and "is_int64 (int a)" and "is_int64 (int b)"
  shows "parseRange (range_header a b) sz =
    Inr [\<lparr>hr_start = int a, hr_length = (if int b \<ge> sz then sz - 1 else int b) - int a + 1\<rparr>]"
proof -
  let ?spec = "decimal a @ CHR ''-'' # decimal b"
  have trim: "TrimString ?spec = ?spec"
    by (rule TrimString_solid) (simp_all add: decimal_solid hd_append)
  have "ParseInt (decimal a) = Some (int a)" "ParseInt (decimal b) = Some (int b)"
    using ParseInt_FormatInt [OF assms(3)] ParseInt_FormatInt [OF assms(4)] by simp_all
  then have "parse_range_spec ?spec sz =
      Inr (Some \<lparr>hr_start = int a, hr_length = (if int b \<ge> sz then sz - 1 else int b) - int a + 1\<rparr>)"
    using assms(1,2) by (simp add: parse_range_spec_def Cut_byte_append decimal_free)
  then show ?thesis
    using trim Split_byte_single [of "CHR '',''" ?spec] CutPrefix_append [of "''bytes=''" ?spec]
    by (simp add: parseRange_def range_header_def decimal_free)
qed


section \<open>One range\<close>

text \<open>A request without conditions.\<close>

definition unconditional :: "http_request \<Rightarrow> bool" where
  "unconditional q \<longleftrightarrow> (\<forall>k\<in>{''If-Match'', ''If-None-Match'', ''If-Modified-Since'', ''If-Unmodified-Since'', ''If-Range''}.
     header_get (hq_Header q) k = [])"

lemma unconditional_range:
  "unconditional q \<Longrightarrow> checkPreconditions env q t = Inr (header_get (hq_Header q) ''Range'')"
  by (simp add: unconditional_def checkPreconditions_def checkIfMatch_def checkIfNoneMatch_def
      checkIfUnmodifiedSince_def checkIfModifiedSince_def checkIfRange_def)

lemma serve_one_range:
  assumes "unconditional q" and "hq_Method q = ''GET''" and "header_get (hq_Header q) ''Range'' = range_header a b"
    and "a \<le> b" and "a < length content" and "is_int64 (int b)" and "is_int64 (int (length content))"
  shows "hs_Code (serveContent env q hs t content) = 206 \<and>
    hs_Body (serveContent env q hs t content) = take (Suc b - a) (drop a content)"
proof -
  let ?sz = "int (length content)"
  define ra where "ra = \<lparr>hr_start = int a, hr_length = (if int b \<ge> ?sz then ?sz - 1 else int b) - int a + 1\<rparr>"
  have "is_int64 (int a)" using assms(4,6) by (simp add: is_int64_def)
  then have parse: "parseRange (range_header a b) ?sz = Inr [ra]"
    using parse_range_header [of a b ?sz] assms(4-6) by (simp add: ra_def)
  have len: "0 < hr_length ra \<and> hr_length ra \<le> ?sz" using assms(4,5) by (auto simp: ra_def)
  then have "is_int64 (hr_length ra)" using assms(7) unfolding is_int64_def by linarith
  then have "sumRangesSize [ra] = hr_length ra" by (simp add: sumRangesSize_def)
  then have "\<not> sumRangesSize [ra] > ?sz" using len by linarith
  then have "serveContent env q hs t content =
      send_content q (header_put ''Content-Range'' (contentRange ra ?sz)
        (if isZeroTime t then hs else header_put ''Last-Modified'' (FormatHTTPDate t) hs)) 206 (range_bytes ra content)"
    using unconditional_range [OF assms(1)] assms(3) parse
    by (simp add: serveContent_def serve_ranges_def Let_def)
  moreover have "range_bytes ra content = take (Suc b - a) (drop a content)"
  proof (cases "int b \<ge> ?sz")
    case True
    then show ?thesis using assms(5) by (simp add: range_bytes_def ra_def)
  next
    case False
    then have "nat (int b - int a + 1) = Suc b - a" using assms(4) by linarith
    with False show ?thesis by (simp add: range_bytes_def ra_def)
  qed
  ultimately show ?thesis using assms(2) by (simp add: send_content_def)
qed


section \<open>A file read in ranges\<close>

lemma slices_concat: "concat (map (\<lambda>k. take n (drop (k * n) xs)) [0..<m]) = take (m * n) xs"
proof (induction m)
  case (Suc m)
  have "take (m * n) xs @ take n (drop (m * n) xs) = take (n + m * n) xs"
    using take_add [of "m * n" n xs] by (simp add: add.commute)
  with Suc show ?case by simp
qed simp

lemma chunks_cover:
  fixes k l n :: nat
  assumes "0 < n"
  shows "k < (l + n - 1) div n \<longleftrightarrow> k * n < l" "l \<le> (l + n - 1) div n * n"
proof -
  have "Suc k \<le> (l + n - 1) div n \<longleftrightarrow> Suc k * n \<le> l + n - 1"
    using assms less_eq_div_iff_mult_less_eq by blast
  then show "k < (l + n - 1) div n \<longleftrightarrow> k * n < l" using assms by auto
  have "l + n - 1 < ((l + n - 1) div n + 1) * n"
    using assms dividend_less_div_times [of n "l + n - 1"] by (simp add: algebra_simps)
  then show "l \<le> (l + n - 1) div n * n" using assms by (simp add: algebra_simps)
qed

text \<open>The request of a player for the bytes from \<open>a\<close> to \<open>b\<close> of a book's file.\<close>

definition range_request :: "string \<Rightarrow> string \<Rightarrow> nat \<Rightarrow> nat \<Rightarrow> http_request" where
  "range_request b tok a e = \<lparr>hq_Method = ''GET'', hq_Path = ''/api/v1/stream/'' @ b @ ''/0'', hq_Query = [(''token'', tok)],
     hq_Header = [(''Range'', [range_header a e])], hq_Body = []\<rparr>"

text \<open>\<^verbatim>\<open>chi\<close>: a placeholder stands for one path segment.\<close>

definition chi_streams :: "api_env \<Rightarrow> bool" where
  "chi_streams env \<longleftrightarrow> (\<forall>b i. b \<noteq> [] \<longrightarrow> i \<noteq> [] \<longrightarrow> slash \<notin> set b \<longrightarrow> slash \<notin> set i \<longrightarrow>
     ae_chi env (map (\<lambda>(m, p, h). (m, p)) standalone_table) ''GET'' (''/api/v1/stream/'' @ b @ ''/'' @ i) = ChiRoute 0 [b, i])"

text \<open>The book is there for the standalone listener to serve, and the token is good.\<close>

definition streamable :: "http_env \<Rightarrow> 'j Deps \<Rightarrow> string \<Rightarrow> Audiobook \<Rightarrow> bytes \<Rightarrow> ('j, json) server_state \<Rightarrow> bool" where
  "streamable env dp tok a content s \<longleftrightarrow>
     dp_StandaloneOn dp \<and> tok \<noteq> [] \<and> \<not> isl (VerifyStreamToken (he_jwt env) (he_now env (sv_calls s)) (dp_StreamSecret dp) tok (ab_ID a) 0) \<and>
     db_inv (sv_db s) \<and> a \<in> set (t_audiobook (sv_db s)) \<and> visible (sv_db s) a \<and> \<not> sv_fault s (sv_calls s) \<and>
     he_Open env (ab_Path a) = Some content"

lemma find_keyed:
  assumes "distinct (map f xs)" and "x \<in> set xs" and "P x"
  shows "find (\<lambda>y. f y = f x \<and> P y) xs = Some x"
  using assms by (induction xs) (auto simp: image_iff)

lemma find_book:
  assumes "db_inv d" and "a \<in> set (t_audiobook d)" and "visible d a"
  shows "GetAudiobook (ab_ID a) now d = Inr (a, d)"
  using assms find_keyed [of ab_ID "t_audiobook d" a "visible d"]
  by (simp add: GetAudiobook_def db_inv_def audiobook_ok_def)

lemma streamed:
  assumes "chi_streams env" and "streamable (ae_http env) dp tok a content s" and "ab_ID a \<noteq> []" and "slash \<notin> set (ab_ID a)"
    and "hq_Method q = ''GET''" and "hq_Path q = ''/api/v1/stream/'' @ ab_ID a @ ''/0''" and "map_of (hq_Query q) ''token'' = Some tok"
  shows "router env dp q s =
    (serveContent (ae_content env) q (stream_headers (contentTypeFor (he_unicode (ae_http env)) (ab_Path a))) (ab_MTime a) content,
     s\<lparr>sv_calls := Suc (sv_calls s)\<rparr>)"
proof -
  have zero: "Atoi ''0'' = Some 0" by code_simp
  have st: "dp_StandaloneOn dp" and tok: "tok \<noteq> []"
    using assms(2) by (simp_all add: streamable_def)
  have ver: "\<exists>c. VerifyStreamToken (he_jwt (ae_http env)) (he_now (ae_http env) (sv_calls s)) (dp_StreamSecret dp) tok (ab_ID a) 0 = Inr c"
    using assms(2) sum.collapse(2) by (metis streamable_def)
  have "requireStreamToken (ae_http env) (request_of env q) (dp_StreamSecret dp) (ab_ID a) 0 s = None"
    using ver tok assms(7) by (auto simp: requireStreamToken_def request_of_def)
  moreover have "run_stmt (GetAudiobook (ab_ID a)) s = (Inr a, s\<lparr>sv_calls := Suc (sv_calls s)\<rparr>)"
    using assms(2) by (simp add: streamable_def run_stmt_def find_book)
  ultimately have h: "Handler (ae_http env) dp (request_of env q) (StreamFile (ab_ID a) ''0'') s =
      ((200, BFile (contentTypeFor (he_unicode (ae_http env)) (ab_Path a)) (ab_Path a) (ab_MTime a) content), s\<lparr>sv_calls := Suc (sv_calls s)\<rparr>)"
    using assms(2) st zero
    by (simp add: Handler_def standalone_routes_def handleStreamStandalone_def handleStream_def serveBookFile_def streamable_def)
  have "ae_chi env (map (\<lambda>(m, p, h). (m, p)) (table_of dp)) (hq_Method q) (hq_Path q) = ChiRoute 0 [ab_ID a, ''0'']"
    using assms(1,3-6) st by (simp add: chi_streams_def table_of_def)
  with h st show ?thesis
    by (simp add: router_def write_response_def table_of_def standalone_table_def param_def)
qed

lemma range_request_facts:
  "unconditional (range_request b tok a e)" "hq_Method (range_request b tok a e) = ''GET''"
  "header_get (hq_Header (range_request b tok a e)) ''Range'' = range_header a e"
  by (simp_all add: unconditional_def range_request_def header_get_def)

lemma strip_range: "strip_headers renv (hq_Header (range_request b tok a e)) = hq_Header (range_request b tok a e)"
proof -
  have "ToLower u ''Range'' = ''range''" for u by (simp add: ToLower_def) code_simp
  then show ?thesis by (simp add: strip_headers_def range_request_def trust_header_def HasPrefix_def)
qed

text \<open>
  C9. Streaming over the standalone listener in pieces loses nothing: a player with a valid token that
  asks for a visible book's file in consecutive byte ranges of any size, each request at whatever time,
  gets 206 for each of them, and the bodies put together are the file on disk, byte for byte; the
  database is only read.
\<close>

theorem ranges_reassemble:
  assumes "chi_streams env" and "\<forall>k. streamable (ae_http env) dp tok a content (S k)"
    and "ab_ID a \<noteq> []" and "slash \<notin> set (ab_ID a)" and "0 < n" and "int (length content + n) < 2 ^ 63"
  shows "concat (map (\<lambda>k. hs_Body (fst (ServeHTTP renv (Some (router env dp)) (range_request (ab_ID a) tok (k * n) (k * n + n - 1)) (S k))))
      [0..<(length content + n - 1) div n]) = content \<and>
    (\<forall>k<(length content + n - 1) div n.
      hs_Code (fst (ServeHTTP renv (Some (router env dp)) (range_request (ab_ID a) tok (k * n) (k * n + n - 1)) (S k))) = 206 \<and>
      sv_db (snd (ServeHTTP renv (Some (router env dp)) (range_request (ab_ID a) tok (k * n) (k * n + n - 1)) (S k))) = sv_db (S k))"
proof -
  let ?q = "\<lambda>k. range_request (ab_ID a) tok (k * n) (k * n + n - 1)"
  let ?hs = "stream_headers (contentTypeFor (he_unicode (ae_http env)) (ab_Path a))"
  have run: "ServeHTTP renv (Some (router env dp)) (?q k) (S k) =
      (serveContent (ae_content env) (?q k) ?hs (ab_MTime a) content, (S k)\<lparr>sv_calls := Suc (sv_calls (S k))\<rparr>)" for k
    using streamed [OF assms(1) spec [OF assms(2)] assms(3,4), of "?q k"] strip_range
    by (simp add: ServeHTTP_def) (simp add: range_request_def)
  have one: "hs_Code (serveContent (ae_content env) (?q k) ?hs (ab_MTime a) content) = 206 \<and>
      hs_Body (serveContent (ae_content env) (?q k) ?hs (ab_MTime a) content) = take n (drop (k * n) content)"
    if "k * n < length content" for k
  proof -
    have "is_int64 (int (k * n + n - 1))" "is_int64 (int (length content))" "k * n \<le> k * n + n - 1" "Suc (k * n + n - 1) - k * n = n"
      using that assms(5,6) unfolding is_int64_def by linarith+
    then show ?thesis
      using serve_one_range [OF range_request_facts _ that, of "k * n + n - 1"] by metis
  qed
  have "concat (map (\<lambda>k. hs_Body (fst (ServeHTTP renv (Some (router env dp)) (?q k) (S k)))) [0..<(length content + n - 1) div n]) =
      concat (map (\<lambda>k. take n (drop (k * n) content)) [0..<(length content + n - 1) div n])"
    unfolding run using one chunks_cover(1) [OF assms(5)] by (intro arg_cong [where f = concat] map_cong) simp_all
  also have "\<dots> = content" using chunks_cover(2) [OF assms(5)] by (simp add: slices_concat)
  finally show ?thesis unfolding run using one chunks_cover(1) [OF assms(5)] by simp
qed

text \<open>A router that splits the path at its slashes, for the concrete runs.\<close>

definition sample_chi :: "(string \<times> string) list \<Rightarrow> string \<Rightarrow> string \<Rightarrow> chi_match" where
  "sample_chi table m p =
     (case Split_byte slash p of
        [r, x, y, z, b, i] \<Rightarrow> if r = [] \<and> x = ''api'' \<and> y = ''v1'' \<and> z = ''stream'' then ChiRoute 0 [b, i] else ChiNotFound
      | _ \<Rightarrow> ChiNotFound)"

definition sample_api :: api_env where
  "sample_api = \<lparr>ae_http = sample_http, ae_content = \<lparr>ce_ParseTime = (\<lambda>s. None), ce_boundary = ''xyz''\<rparr>, ae_chi = sample_chi,
     ae_not_allowed = \<lparr>hs_Code = 405, hs_Header = [], hs_Body = []\<rparr>, ae_json = (\<lambda>b. None),
     ae_texts = \<lparr>je_time = (\<lambda>t. []), je_token = (\<lambda>e. ''token''), je_sql = (\<lambda>e. ''db''), je_config = (\<lambda>e. ''config''), je_page = (\<lambda>t. t),
       je_encode = (\<lambda>v. [])\<rparr>\<rparr>"

lemma Split_byte_append: "c \<notin> set a \<Longrightarrow> Split_byte c (a @ c # b) = a # Split_byte c b"
  by (induction a) auto

lemma sample_chi_streams: "chi_streams sample_api"
  by (simp add: chi_streams_def sample_api_def sample_chi_def Split_byte_append Split_byte_single)

abbreviation sample_row :: Audiobook where
  "sample_row \<equiv> sample_book ''a1'' 1 ''/m/one/a.mp3'' ''Alpha'' ''Ann''"

lemma sample_streamable: "streamable sample_http sample_standalone ''t'' sample_row ''audio'' sample_library"
proof -
  have "db_inv (sv_db sample_library)" by (simp add: sample_library_def quiet_server_def sample_db_inv)
  then show ?thesis
    using sample_token [of sample_library]
    by (auto simp: streamable_def sample_standalone_def sample_library_def quiet_server_def sample_db_def sample_book_def
        visible_def enabled_library_def requireStreamToken_def sample_request_def sample_http_def isl_def split: sum.splits)
qed

theorem ranges_reassemble_witness:
  "concat (map (\<lambda>k. hs_Body (fst (ServeHTTP sample_routes (Some (router sample_api sample_standalone))
     (range_request ''a1'' ''t'' (k * 2) (k * 2 + 2 - 1)) sample_library))) [0..<3]) = ''audio''"
proof -
  have ident: "ab_ID sample_row = ''a1''" and len: "(length ''audio'' + 2 - 1) div 2 = 3" by (simp_all add: sample_book_def)
  have "streamable (ae_http sample_api) sample_standalone ''t'' sample_row ''audio'' sample_library"
    using sample_streamable by (simp add: sample_api_def)
  then have "concat (map (\<lambda>k. hs_Body (fst (ServeHTTP sample_routes (Some (router sample_api sample_standalone))
      (range_request (ab_ID sample_row) ''t'' (k * 2) (k * 2 + 2 - 1)) sample_library))) [0..<(length ''audio'' + 2 - 1) div 2]) = ''audio''"
    by (intro conjunct1 [OF ranges_reassemble [OF sample_chi_streams]]) (simp_all add: ident)
  then show ?thesis unfolding ident len .
qed


section \<open>What any request can get\<close>

definition range_within :: "int \<Rightarrow> httpRange \<Rightarrow> bool" where
  "range_within sz r \<longleftrightarrow> 0 \<le> hr_start r \<and> 0 \<le> hr_length r \<and> hr_start r + hr_length r \<le> sz"

lemma parse_range_spec_within: "parse_range_spec ra sz = Inr (Some r) \<Longrightarrow> 0 \<le> sz \<Longrightarrow> range_within sz r"
  by (auto simp: parse_range_spec_def Let_def range_within_def split: option.splits prod.splits if_splits)

lemma parse_range_list_within:
  assumes "parse_range_list ras sz no ranges = Inr ranges'" and "0 \<le> sz" and "\<forall>r\<in>set ranges. range_within sz r"
  shows "(\<forall>r\<in>set ranges'. range_within sz r) \<and> length ranges' \<le> length ranges + length ras"
  using assms(1,3)
proof (induction ras arbitrary: no ranges)
  case Nil
  then show ?case by (auto split: if_splits)
next
  case (Cons ra ras)
  show ?case
  proof (cases "TrimString ra = []")
    case True
    then show ?thesis using Cons.IH [of no ranges] Cons.prems by simp
  next
    case False
    then obtain x where x: "parse_range_spec (TrimString ra) sz = Inr x"
      using Cons.prems(1) by (auto split: sum.splits)
    then show ?thesis
    proof (cases x)
      case None
      then show ?thesis using Cons.IH [of True ranges] Cons.prems x False by simp
    next
      case (Some r)
      then have "range_within sz r" using parse_range_spec_within x assms(2) by blast
      then show ?thesis using Cons.IH [of no "ranges @ [r]"] Cons.prems x False Some by simp
    qed
  qed
qed

lemma parseRange_within:
  assumes "parseRange s sz = Inr ranges" and "0 \<le> sz"
  shows "(\<forall>r\<in>set ranges. range_within sz r) \<and> length ranges \<le> Suc (length s)"
proof (cases "s = []")
  case True
  with assms(1) show ?thesis by (simp add: parseRange_def)
next
  case False
  then obtain specs where "CutPrefix s ''bytes='' = Some specs" "parse_range_list (Split_byte (CHR '','') specs) sz False [] = Inr ranges"
    using assms(1) by (auto simp: parseRange_def split: option.splits)
  moreover from this(1) have "length specs \<le> length s" by (auto simp: CutPrefix_def split: if_splits)
  ultimately show ?thesis
    using parse_range_list_within [OF _ assms(2), of "Split_byte (CHR '','') specs" False "[]" ranges]
      length_Split_byte [of "CHR '',''" specs] by simp
qed

lemma sumRangesSize_exact:
  assumes "\<forall>r\<in>set ranges. range_within sz r" and "int (length ranges) * sz < 2 ^ 63"
  shows "sumRangesSize ranges = sum_list (map hr_length ranges)"
proof -
  have "fold (\<lambda>r n. wrap64 (n + hr_length r)) ranges acc = acc + sum_list (map hr_length ranges)"
    if "0 \<le> acc" "acc + int (length ranges) * sz < 2 ^ 63" for acc
    using assms(1) that
  proof (induction ranges arbitrary: acc)
    case (Cons r rs)
    have r: "0 \<le> hr_length r" "hr_length r \<le> sz" using Cons.prems(1) by (auto simp: range_within_def)
    have le: "acc + hr_length r + int (length rs) * sz < 2 ^ 63" using Cons.prems(3) r(2) by (simp add: algebra_simps)
    moreover have "0 \<le> int (length rs) * sz" using r by simp
    ultimately have "is_int64 (acc + hr_length r)" using Cons.prems(2) r(1) unfolding is_int64_def by linarith
    then show ?case using Cons.IH [of "acc + hr_length r"] Cons.prems r(1) le by simp
  qed simp
  from this [of 0] assms(2) show ?thesis by (simp add: sumRangesSize_def)
qed

lemma serve_ranges_outcome:
  assumes "hq_Method q = ''GET''" and "r = serve_ranges env q hs content ranges"
    and "\<forall>ra\<in>set ranges. range_within (int (length content)) ra" and "int (length ranges) * int (length content) < 2 ^ 63"
  shows "(hs_Code r = 200 \<and> hs_Body r = content) \<or>
    (hs_Code r = 206 \<and> ranges \<noteq> [] \<and> sum_list (map hr_length ranges) \<le> int (length content) \<and>
     hs_Body r = (case ranges of [ra] \<Rightarrow> range_bytes ra content
       | _ \<Rightarrow> multipart_body (ce_boundary env) (header_get hs ''Content-Type'') content ranges))"
  using assms(1,2) sumRangesSize_exact [OF assms(3,4)]
  by (simp add: serve_ranges_def Let_def send_content_def split: list.split)

lemma parseRange_cases:
  obtains (ok) ranges where "parseRange s sz = Inr ranges"
  | (none) "parseRange s sz = Inl NoOverlap"
  | (bad) "parseRange s sz = Inl InvalidRange"
  by (cases "parseRange s sz"; cases "projl (parseRange s sz)") auto

text \<open>The three ways to answer: by a precondition, by serving ranges that lie in the file, by an error.\<close>

lemma serveContent_cases:
  assumes "serveContent env q hs t content = r"
  shows "(hs_Code r \<in> {304, 412} \<and> hs_Body r = []) \<or>
    (\<exists>hs' ranges. r = serve_ranges env q hs' content ranges \<and> (\<forall>ra\<in>set ranges. range_within (int (length content)) ra) \<and>
       length ranges \<le> Suc (length (header_get (hq_Header q) ''Range''))) \<or>
    (hs_Code r = 416 \<and> (\<exists>e. hs_Body r = range_error_text e @ [CHR 0x0A]))"
proof (cases "checkPreconditions env q t")
  case (Inl code)
  then have "code \<in> {304, 412}" by (auto simp: checkPreconditions_def Let_def split: if_splits)
  with Inl show ?thesis using assms by (auto simp: serveContent_def Let_def)
next
  case (Inr rq)
  then have rq: "length rq \<le> length (header_get (hq_Header q) ''Range'')"
    by (auto simp: checkPreconditions_def Let_def split: if_splits)
  show ?thesis
  proof (cases rule: parseRange_cases [of rq "int (length content)"])
    case (ok ranges)
    then have "\<exists>hs'. r = serve_ranges env q hs' content ranges" using Inr assms by (auto simp: serveContent_def Let_def)
    with parseRange_within [OF ok] rq show ?thesis by fastforce
  next
    case none
    show ?thesis
    proof (cases "content = []")
      case True
      then have "\<exists>hs'. r = serve_ranges env q hs' content []" using none Inr assms by (auto simp: serveContent_def Let_def)
      then show ?thesis by fastforce
    next
      case False
      with none Inr assms show ?thesis by (auto simp: serveContent_def Let_def serve_error_def)
    qed
  next
    case bad
    with Inr assms show ?thesis by (auto simp: serveContent_def Let_def serve_error_def)
  qed
qed




section \<open>Resuming after the file changed\<close>

lemma date_shape:
  "\<exists>c d s. FormatHTTPDate t = c # d # s @ ''GMT'' \<and> c \<noteq> CHR 0x22 \<and> d \<noteq> slash \<and> \<not> header_space c"
proof -
  let ?days = "[''Sun'', ''Mon'', ''Tue'', ''Wed'', ''Thu'', ''Fri'', ''Sat'']"
  let ?i = "nat ((t div 1000000000 div 86400 + 4) mod 7)"
  have "?i < length ?days" by (simp add: nat_less_iff)
  then have "?days ! ?i \<in> set ?days" by (rule nth_mem)
  then obtain c d e where "?days ! ?i = [c, d, e]" "c \<noteq> CHR 0x22" "d \<noteq> slash" "\<not> header_space c"
    by (auto simp: header_space_def)
  then show ?thesis by (simp add: FormatHTTPDate_def Let_def split_beta)
qed

lemma date_no_etag: "scanETag (FormatHTTPDate t) = None" "FormatHTTPDate t \<noteq> []"
proof -
  obtain c d s where e: "FormatHTTPDate t = c # d # s @ ''GMT''" and c: "c \<noteq> CHR 0x22" "d \<noteq> slash" "\<not> header_space c"
    using date_shape by blast
  have "TrimString (FormatHTTPDate t) = FormatHTTPDate t"
    by (rule TrimString_solid) (simp_all add: e c, simp add: header_space_def)
  then show "scanETag (FormatHTTPDate t) = None" "FormatHTTPDate t \<noteq> []"
    using c by (simp_all add: scanETag_def HasPrefix_def e)
qed

lemma parse_open_range:
  assumes "int a < sz" and "is_int64 (int a)"
  shows "parseRange (''bytes='' @ decimal a @ ''-'') sz = Inr [\<lparr>hr_start = int a, hr_length = sz - int a\<rparr>]"
proof -
  let ?spec = "decimal a @ [CHR ''-'']"
  have trim: "TrimString ?spec = ?spec"
    by (rule TrimString_solid) (simp_all add: decimal_solid hd_append, simp add: header_space_def)
  have "TrimString [] = []" by (simp add: TrimString_def)
  moreover have "ParseInt (decimal a) = Some (int a)" using ParseInt_FormatInt [OF assms(2)] by simp
  ultimately have "parse_range_spec ?spec sz = Inr (Some \<lparr>hr_start = int a, hr_length = sz - int a\<rparr>)"
    using assms(1) Cut_byte_append [of "CHR ''-''" "decimal a" "[]"] by (simp add: parse_range_spec_def decimal_free)
  then show ?thesis
    using trim Split_byte_single [of "CHR '',''" ?spec] CutPrefix_append [of "''bytes=''" ?spec]
    by (simp add: parseRange_def decimal_free)
qed

text \<open>A request for the whole file, and the one that resumes it at byte \<open>k\<close> if it is unchanged since \<open>date\<close>.\<close>

definition whole_request :: "string \<Rightarrow> string \<Rightarrow> http_request" where
  "whole_request b tok = (range_request b tok 0 0)\<lparr>hq_Header := []\<rparr>"

definition resume_request :: "string \<Rightarrow> string \<Rightarrow> nat \<Rightarrow> string \<Rightarrow> http_request" where
  "resume_request b tok k date =
     (range_request b tok 0 0)\<lparr>hq_Header := [(''Range'', [''bytes='' @ decimal k @ ''-'']), (''If-Range'', [date])]\<rparr>"

lemma resume_served:
  assumes "ce_ParseTime env (FormatHTTPDate t) = Some (t div second * second)" and "\<not> isZeroTime t"
    and "k < length content" and "is_int64 (int (length content))"
  shows "hs_Code (serveContent env (resume_request b tok k (FormatHTTPDate t)) hs t content) = 206 \<and>
    hs_Body (serveContent env (resume_request b tok k (FormatHTTPDate t)) hs t content) = drop k content"
proof -
  let ?q = "resume_request b tok k (FormatHTTPDate t)"
  let ?ra = "\<lparr>hr_start = int k, hr_length = int (length content) - int k\<rparr>"
  have "checkIfRange env ?q t = condTrue"
    using assms(1,2) date_no_etag [of t]
    by (simp add: checkIfRange_def resume_request_def range_request_def header_get_def is_get_def isZeroTime_def second_def)
  then have pre: "checkPreconditions env ?q t = Inr (''bytes='' @ decimal k @ ''-'')"
    by (simp add: checkPreconditions_def checkIfMatch_def checkIfNoneMatch_def checkIfUnmodifiedSince_def checkIfModifiedSince_def)
      (simp add: resume_request_def range_request_def header_get_def)
  have "is_int64 (int k)" "is_int64 (hr_length ?ra)" using assms(3,4) by (simp_all add: is_int64_def)
  moreover from this have "sumRangesSize [?ra] = hr_length ?ra" by (simp add: sumRangesSize_def)
  ultimately have "hs_Code (serveContent env ?q hs t content) = 206 \<and>
      hs_Body (serveContent env ?q hs t content) = range_bytes ?ra content"
    using parse_open_range [of k "int (length content)"] pre assms(3)
    by (simp add: serveContent_def serve_ranges_def Let_def send_content_def) (simp add: resume_request_def range_request_def)
  moreover have "range_bytes ?ra content = drop k content" by (simp add: range_bytes_def)
  ultimately show ?thesis by simp
qed

text \<open>
  C38. A download that is resumed after the file was replaced gets a mixture of both files: the date that
  the response carries, and that the condition of the resuming request is tested against, is the one in
  the database, not that of the opened file. Until the next scan it stays the same whatever is on disk,
  so the request to continue only if nothing changed is answered with the rest of the new file.
\<close>

theorem resumed_download_mixes:
  assumes "chi_streams env" and "streamable (ae_http env) dp tok a old s"
    and "env' = env\<lparr>ae_http := (ae_http env)\<lparr>he_Open := op\<rparr>\<rparr>" and "streamable (ae_http env') dp tok a new s'"
    and "ab_ID a \<noteq> []" and "slash \<notin> set (ab_ID a)" and "\<not> isZeroTime (ab_MTime a)" and "k < length new" and "is_int64 (int (length new))"
    and "ce_ParseTime (ae_content env) (FormatHTTPDate (ab_MTime a)) = Some (ab_MTime a div second * second)"
    and "fst (router env dp (whole_request (ab_ID a) tok) s) = r1"
    and "fst (router env' dp (resume_request (ab_ID a) tok k (header_get (hs_Header r1) ''Last-Modified'')) s') = r2"
  shows "hs_Code r1 = 200 \<and> hs_Code r2 = 206 \<and> take k (hs_Body r1) @ hs_Body r2 = take k old @ drop k new"
proof -
  let ?hs = "stream_headers (contentTypeFor (he_unicode (ae_http env)) (ab_Path a))"
  have r1: "r1 = serveContent (ae_content env) (whole_request (ab_ID a) tok) ?hs (ab_MTime a) old"
    using streamed [OF assms(1,2,5,6), of "whole_request (ab_ID a) tok"] assms(11) by (simp add: whole_request_def range_request_def)
  then have first: "hs_Code r1 = 200" "hs_Body r1 = old" "header_get (hs_Header r1) ''Last-Modified'' = FormatHTTPDate (ab_MTime a)"
    using assms(7) unconditional_range [of "whole_request (ab_ID a) tok" "ae_content env"]
    by (simp_all add: serveContent_def serve_ranges_def send_content_def parseRange_def sumRangesSize_def Let_def
        whole_request_def range_request_def unconditional_def header_get_def header_put_def update_Some_unfold update_conv)
  have "chi_streams env'" using assms(1,3) by (simp add: chi_streams_def)
  from streamed [OF this assms(4-6), of "resume_request (ab_ID a) tok k (FormatHTTPDate (ab_MTime a))"]
  have "r2 = serveContent (ae_content env) (resume_request (ab_ID a) tok k (FormatHTTPDate (ab_MTime a))) ?hs (ab_MTime a) new"
    using assms(3,12) first(3) by (simp add: resume_request_def range_request_def)
  with resume_served [of "ae_content env" "ab_MTime a" k new] assms(7-10) first show ?thesis by simp
qed

definition dated_row :: Audiobook where
  "dated_row = sample_row\<lparr>ab_MTime := 7 * second\<rparr>"

definition dated_library :: "(unit, json) server_state" where
  "dated_library = quiet_server (empty_db\<lparr>t_library_path := t_library_path (sample_db :: (unit, json) db), lp_seq := lp_seq (sample_db :: (unit, json) db),
     t_audiobook := [dated_row]\<rparr>)"

definition dated_api :: "bytes \<Rightarrow> api_env" where
  "dated_api content = sample_api\<lparr>ae_http := sample_http\<lparr>he_Open := (\<lambda>p. Some content)\<rparr>,
     ae_content := \<lparr>ce_ParseTime = (\<lambda>s. Some (7 * second)), ce_boundary = []\<rparr>\<rparr>"

lemma dated_streamable: "streamable (ae_http (dated_api content)) sample_standalone ''t'' dated_row content dated_library"
proof -
  have "db_inv (sv_db dated_library)"
    using sample_db_inv
    by (simp add: dated_library_def quiet_server_def dated_row_def sample_book_def db_inv_def library_path_ok_def audiobook_ok_def
        times_ok_def chapter_ok_def cover_ok_def scan_event_ok_def job_ok_def cache_ok_def empty_db_def library_ids_def)
      (simp add: sample_db_def)
  then show ?thesis
    using sample_token [of dated_library]
    by (auto simp: streamable_def sample_standalone_def dated_library_def quiet_server_def dated_row_def dated_api_def sample_book_def
        sample_db_def visible_def enabled_library_def requireStreamToken_def sample_request_def sample_http_def isl_def split: sum.splits)
qed

theorem resumed_download_mixes_witness:
  "\<exists>(r1 :: http_response) r2. hs_Code r1 = 200 \<and> hs_Code r2 = 206 \<and> take 2 (hs_Body r1) @ hs_Body r2 = ''abZ'' \<and>
     r2 = fst (router (dated_api ''XYZ'') sample_standalone (resume_request ''a1'' ''t'' 2 (header_get (hs_Header r1) ''Last-Modified'')) dated_library)"
proof -
  have chi: "chi_streams (dated_api ''abc'')" using sample_chi_streams by (simp add: chi_streams_def dated_api_def)
  have env': "dated_api ''XYZ'' = (dated_api ''abc'')\<lparr>ae_http := (ae_http (dated_api ''abc''))\<lparr>he_Open := (\<lambda>p. Some ''XYZ'')\<rparr>\<rparr>"
    by (simp add: dated_api_def)
  have ident: "ab_ID dated_row = ''a1''" "ab_MTime dated_row = 7 * second" by (simp_all add: dated_row_def sample_book_def)
  have hyps: "ab_ID dated_row \<noteq> []" "slash \<notin> set (ab_ID dated_row)" "\<not> isZeroTime (ab_MTime dated_row)" "2 < length ''XYZ''"
    "is_int64 (int (length ''XYZ''))"
    "ce_ParseTime (ae_content (dated_api ''abc'')) (FormatHTTPDate (ab_MTime dated_row)) = Some (ab_MTime dated_row div second * second)"
    by (simp_all add: ident dated_api_def isZeroTime_def second_def is_int64_def)
  define r1 where "r1 = fst (router (dated_api ''abc'') sample_standalone (whole_request (ab_ID dated_row) ''t'') dated_library)"
  define r2 where "r2 = fst (router (dated_api ''XYZ'') sample_standalone
    (resume_request (ab_ID dated_row) ''t'' 2 (header_get (hs_Header r1) ''Last-Modified'')) dated_library)"
  have abz: "take 2 ''abc'' @ drop 2 ''XYZ'' = ''abZ''" by simp
  have "hs_Code r1 = 200 \<and> hs_Code r2 = 206 \<and> take 2 (hs_Body r1) @ hs_Body r2 = ''abZ''"
    using resumed_download_mixes [OF chi dated_streamable env' dated_streamable hyps r1_def [symmetric] r2_def [symmetric]]
    unfolding abz .
  then show ?thesis using r2_def unfolding ident(1) by blast
qed

end
