(* ===== verification/Concurrent.thy ===== *)
theory Concurrent
  imports Preservation App_Config
begin

text \<open>
  Drains that overlap. The scheduled drain, the drain of a scan and the drains of several plugin
  processes run at the same time on one database, beside scans and requests. \<open>worker_step\<close> cuts the loop of
  \<^verbatim>\<open>worker.go\<close> into its statements and its request to the source; \<open>con_step\<close> lets any number of workers and
  any other writing statement take turns in every order.
\<close>


section \<open>The worker statement by statement\<close>

text \<open>
  Where a worker stands: at the top of the loop, with a job claimed, with the book's row read, with the
  merged row to be written, with the outcome of the job to be recorded, or returned.
\<close>

datatype phase =
    Idle
  | Claimed Job
  | Loaded Job Source AudiobookRow
  | Matched Job AudiobookRow
  | Processed Job "proc_error option"
  | Returned "drain_error option"

fun worker_step ::
  "('j, 'c) EnrichmentWorker \<Rightarrow> phase \<times> ('j, 'c) server_state \<Rightarrow> phase \<times> ('j, 'c) server_state" where
  "worker_step w (Idle, s) =
     (case wk_ctx w (sv_calls s) of
        Some e \<Rightarrow> (Returned (Some (DrainCtx e)), s)
      | None \<Rightarrow>
          (case run_stmt (ClaimNext (wk_Queue w) (wk_locked w (sv_calls s))) s of
             (Inl e, s1) \<Rightarrow> (Returned (Some (DrainClaim e)), s1)
           | (Inr None, s1) \<Rightarrow> (Returned None, s1)
           | (Inr (Some job), s1) \<Rightarrow> (Claimed job, s1)))"
| "worker_step w (Claimed job, s) =
     (case wk_Registry w (wk_SourceID w) of
        None \<Rightarrow> (Processed job (Some (NotRegistered (wk_SourceID w))), s)
      | Some src \<Rightarrow>
          (case run_stmt (es_LoadAudiobookRow (wk_Store w) (job_AudiobookID job)) s of
             (Inl e, s1) \<Rightarrow> (Processed job (Some (ProcSql e)), s1)
           | (Inr row, s1) \<Rightarrow> (Loaded job src row, s1)))"
| "worker_step w (Loaded job src row, s) =
     (case lookup_candidate src (sv_calls s) (wk_Region w) row of
        Inl e \<Rightarrow> (Processed job (if e = ProcSource MetadataErrNotFound then None else Some e), s)
      | Inr None \<Rightarrow> (Processed job None, s)
      | Inr (Some c) \<Rightarrow> (Matched job (ApplyMatch row c), s))"
| "worker_step w (Matched job row, s) =
     (case run_stmt (es_UpdateAudiobookMetadata (wk_Store w) row) s of
        (Inl e, s1) \<Rightarrow> (Processed job (Some (ProcSql e)), s1)
      | (Inr _, s1) \<Rightarrow> (Processed job None, s1))"
| "worker_step w (Processed job (Some e), s) =
     (if wk_ctx w (sv_calls s) \<noteq> None \<or> context_error e
      then (Returned (map_option DrainCtx (wk_ctx w (sv_calls s))), s)
      else (Idle, snd (run_stmt (MarkFailed (job_AudiobookID job) (job_Attempts job) (proc_error_text w e)) s)))"
| "worker_step w (Processed job None, s) = (Idle, snd (run_stmt (MarkCompleted (job_AudiobookID job)) s))"
| "worker_step w (Returned r, s) = (Returned r, s)"

abbreviation worker_steps where
  "worker_steps w n c \<equiv> (worker_step w ^^ n) c"

lemma steps_add: "worker_steps w (m + n) c = worker_steps w n (worker_steps w m c)"
  by (metis add.commute comp_apply funpow_add)

lemma returned_stays: "worker_steps w n (Returned r, s) = (Returned r, s)"
  by (induction n) simp_all

lemma returned_later: "worker_steps w m c = (Returned r, s) \<Longrightarrow> m \<le> n \<Longrightarrow> worker_steps w n c = (Returned r, s)"
  using steps_add [of m "n - m" w c] by (simp add: returned_stays)

text \<open>From a claimed job to its recorded outcome is what \<open>process\<close> does.\<close>

lemma process_steps:
  assumes "process w job s = (r, s')"
  shows "\<exists>n. worker_steps w n (Claimed job, s) = (Processed job r, s')"
proof (cases "wk_Registry w (wk_SourceID w)")
  case None
  with assms show ?thesis by (intro exI [of _ 1]) (simp add: process_def)
next
  case (Some src)
  obtain r1 s1 where load: "run_stmt (es_LoadAudiobookRow (wk_Store w) (job_AudiobookID job)) s = (r1, s1)" by fastforce
  show ?thesis
  proof (cases r1)
    case (Inl e)
    with assms Some load show ?thesis by (intro exI [of _ 1]) (simp add: process_def)
  next
    case (Inr row)
    show ?thesis
    proof (cases "lookup_candidate src (sv_calls s1) (wk_Region w) row")
      case (Inl e)
      with assms Some load Inr show ?thesis by (intro exI [of _ 2]) (auto simp: process_def numeral_2_eq_2)
    next
      case found: (Inr oc)
      show ?thesis
      proof (cases oc)
        case None
        with assms Some load Inr found show ?thesis by (intro exI [of _ 2]) (auto simp: process_def numeral_2_eq_2)
      next
        case c: (Some c)
        with assms Some load Inr found show ?thesis
          by (intro exI [of _ 3]) (auto simp: process_def numeral_3_eq_3 split: prod.splits sum.splits)
      qed
    qed
  qed
qed

text \<open>One turn of the loop, in steps.\<close>

lemma turn_steps:
  "turn w s = Inl (r, s') \<Longrightarrow> \<exists>n. worker_steps w n (Idle, s) = (Returned r, s')"
  "turn w s = Inr s' \<Longrightarrow> \<exists>n>0. worker_steps w n (Idle, s) = (Idle, s')"
proof -
  obtain r1 s1 where claim: "run_stmt (ClaimNext (wk_Queue w) (wk_locked w (sv_calls s))) s = (r1, s1)" by fastforce
  have quick: "\<exists>n. worker_steps w n (Idle, s) = (Returned r, s')" if "turn w s = Inl (r, s')"
    and "wk_ctx w (sv_calls s) \<noteq> None \<or> (\<forall>job. r1 \<noteq> Inr (Some job))"
    using that claim by (intro exI [of _ 1]) (auto simp: turn_def split: option.splits sum.splits)
  have none: "turn w s \<noteq> Inr s'" if "wk_ctx w (sv_calls s) \<noteq> None \<or> (\<forall>job. r1 \<noteq> Inr (Some job))"
    using that claim by (auto simp: turn_def split: option.splits sum.splits)
  have job: "\<exists>n>0. worker_steps w n (Idle, s) = (case turn w s of Inl (r, s') \<Rightarrow> (Returned r, s') | Inr s' \<Rightarrow> (Idle, s'))"
    if ctx: "wk_ctx w (sv_calls s) = None" and r1: "r1 = Inr (Some job)" for job
  proof -
    obtain e s2 where p: "process w job s1 = (e, s2)" by fastforce
    obtain n where "worker_steps w n (Claimed job, s1) = (Processed job e, s2)"
      using process_steps [OF p] by blast
    then have "worker_steps w (Suc n) (Idle, s) = (Processed job e, s2)"
      using ctx r1 claim by (simp add: funpow_swap1)
    then have "worker_steps w (Suc (Suc n)) (Idle, s) = worker_step w (Processed job e, s2)" by simp
    also have "\<dots> = (case turn w s of Inl (r, s') \<Rightarrow> (Returned r, s') | Inr s' \<Rightarrow> (Idle, s'))"
      using ctx r1 claim p by (cases e) (simp_all add: turn_def)
    finally show ?thesis by blast
  qed
  show "\<exists>n. worker_steps w n (Idle, s) = (Returned r, s')" if "turn w s = Inl (r, s')"
    using quick [OF that] job that by (metis (no_types, lifting) case_prod_conv sum.case(1))
  show "\<exists>n>0. worker_steps w n (Idle, s) = (Idle, s')" if "turn w s = Inr s'"
    using none job that by (metis sum.case(2))
qed



section \<open>Workers and everything else, interleaved\<close>

text \<open>Every statement of the plugin that writes, outside the worker. What it returns does not matter here.\<close>

datatype 'j other_op =
    WUpsertAudiobook Audiobook
  | WSoftDeleteAudiobook string
  | WReplaceChapters string "Chapter list"
  | WUpsertCover Cover
  | WUpsertLibraryPath string
  | WDeleteLibraryPath int
  | WMarkLibraryScanned int
  | WInsertScanEvent "int option"
  | WFinishScanEvent int int int int string
  | WEnqueue string
  | WBackfill
  | WPutHit string string string 'j
  | WPutNotFound 'j string string string
  | WEvictExpired time
  | WConfig AppConfig

definition forget :: "('a, 'j, 'c) stmt \<Rightarrow> (unit, 'j, 'c) stmt" where
  "forget q now d = map_sum id (\<lambda>(r, d'). ((), d')) (q now d)"

fun other_stmt :: "'j other_op \<Rightarrow> (unit, 'j, json) stmt" where
  "other_stmt (WUpsertAudiobook a) = UpsertAudiobook a"
| "other_stmt (WSoftDeleteAudiobook i) = SoftDeleteAudiobook i"
| "other_stmt (WReplaceChapters i cs) = ReplaceChapters i cs"
| "other_stmt (WUpsertCover c) = UpsertCover c"
| "other_stmt (WUpsertLibraryPath p) = forget (UpsertLibraryPath p)"
| "other_stmt (WDeleteLibraryPath i) = forget (DeleteLibraryPath i)"
| "other_stmt (WMarkLibraryScanned i) = MarkLibraryScanned i"
| "other_stmt (WInsertScanEvent lib) = forget (InsertScanEvent lib)"
| "other_stmt (WFinishScanEvent i a c x e) = FinishScanEvent i a c x e"
| "other_stmt (WEnqueue i) = Enqueue i"
| "other_stmt WBackfill = forget BulkEnqueueBackfill"
| "other_stmt (WPutHit key src region response) = PutHit key src region response"
| "other_stmt (WPutNotFound braces key src region) = PutNotFound braces key src region"
| "other_stmt (WEvictExpired ttl) = forget (EvictExpired ttl)"
| "other_stmt (WConfig c) = write_config c"

lemma forget_Inr: "forget q now d = Inr (r, d') \<Longrightarrow> \<exists>r'. q now d = Inr (r', d')"
  by (cases "q now d") (auto simp: forget_def)

lemma forget_inv: "keeps_inv q \<Longrightarrow> keeps_inv (forget q)"
  unfolding keeps_inv_def by (metis forget_Inr)

lemma other_inv: "keeps_inv (other_stmt op)"
  by (cases op) (simp_all add: forget_inv UpsertAudiobook_inv SoftDeleteAudiobook_inv ReplaceChapters_inv UpsertCover_inv
    UpsertLibraryPath_inv DeleteLibraryPath_inv MarkLibraryScanned_inv InsertScanEvent_inv FinishScanEvent_inv Enqueue_inv
    BulkEnqueueBackfill_inv PutHit_inv PutNotFound_inv EvictExpired_inv write_config_inv)

text \<open>A worker's phase, and the time of its last claim.\<close>

type_synonym 'j conf = "(phase \<times> time) list \<times> ('j, json) server_state"

datatype 'j event = Work nat | Other "'j other_op"

text \<open>The time the next statement sees.\<close>

definition now_of :: "('j, 'c) server_state \<Rightarrow> time" where
  "now_of s = pg_time (sv_clock s (sv_calls s))"

inductive con_step :: "('j, json) EnrichmentWorker list \<Rightarrow> 'j conf \<Rightarrow> 'j event \<Rightarrow> 'j conf \<Rightarrow> bool" for ws where
  work: "i < length ps \<Longrightarrow> i < length ws \<Longrightarrow> ps ! i = (ph, t) \<Longrightarrow> worker_step (ws ! i) (ph, s) = (ph', s') \<Longrightarrow>
    con_step ws (ps, s) (Work i) (ps[i := (ph', if ph = Idle then now_of s else t)], s')"
| other: "con_step ws (ps, s) (Other op) (ps, snd (run_stmt (other_stmt op) s))"

inductive_cases workE: "con_step ws (ps, s) (Work i) c"
inductive_cases otherE: "con_step ws (ps, s) (Other op) c"

text \<open>What can be reached by events that \<open>ok\<close> admits.\<close>

inductive con_run ::
  "('j conf \<Rightarrow> 'j event \<Rightarrow> bool) \<Rightarrow> ('j, json) EnrichmentWorker list \<Rightarrow> 'j conf \<Rightarrow> 'j conf \<Rightarrow> bool" for ok ws c0 where
  start: "con_run ok ws c0 c0"
| step: "con_run ok ws c0 c \<Longrightarrow> ok c ev \<Longrightarrow> con_step ws c ev c' \<Longrightarrow> con_run ok ws c0 c'"


section \<open>The schema under every interleaving\<close>

lemma worker_step_inv:
  assumes "wk_Store w = worker_store" and "db_inv (sv_db s)"
  shows "db_inv (sv_db (snd (worker_step w (ph, s))))"
  using assms(2)
  by (cases "(w, (ph, s))" rule: worker_step.cases)
    (auto simp: assms(1) worker_store_def run_stmt_inv [OF MarkFailed_inv] run_stmt_inv [OF MarkCompleted_inv]
      split: option.split prod.split sum.split
      dest: run_stmt_keeps [OF ClaimNext_inv] run_stmt_keeps [OF UpdateAudiobookMetadata_inv]
        run_stmt_keeps [OF read_only_inv [OF read_only_load]])

lemma con_step_inv:
  assumes "con_step ws c ev c'" and "\<forall>w\<in>set ws. wk_Store w = worker_store" and "db_inv (sv_db (snd c))"
  shows "db_inv (sv_db (snd c'))"
  using assms(1)
proof cases
  case (work i ps ph t s ph' s')
  then show ?thesis using worker_step_inv [of "ws ! i" s ph] assms(2,3) by simp
next
  case (other ps s op)
  then show ?thesis using assms(3) by (simp add: run_stmt_inv [OF other_inv])
qed


definition relay_worker :: "(unit, json) EnrichmentWorker" where
  "relay_worker = \<lparr>wk_Queue = c_server (\<lambda>s. None), wk_Store = worker_store, wk_Registry = (\<lambda>i. None), wk_SourceID = ''audnexus'',
     wk_Region = ''us'', wk_ctx = (\<lambda>n. None), wk_locked = (\<lambda>n. []), wk_sql_text = (\<lambda>e. ''db'')\<rparr>"

text \<open>One job; the second statement comes sixteen minutes after the first.\<close>

definition relay_server :: "(unit, json) server_state" where
  "relay_server = \<lparr>sv_db = sample_db\<lparr>t_job := [new_job ''a1'' 0]\<rparr>, sv_calls = 0,
     sv_clock = (\<lambda>n. if n = 0 then 0 else minutes 16), sv_fault = (\<lambda>n. False)\<rparr>"

lemma relay_inv: "db_inv (sv_db relay_server)"
  using one_table_inv(3) [OF sample_db_inv, of "[new_job ''a1'' 0]"]
  by (simp add: relay_server_def job_ok_def new_job_def audiobook_ids_def sample_db_def sample_book_def)

lemma relay_claims:
  "\<exists>s1 s2 j1 j2. worker_step relay_worker (Idle, relay_server) = (Claimed j1, s1) \<and>
     worker_step relay_worker (Idle, s1) = (Claimed j2, s2) \<and> job_AudiobookID j1 = ''a1'' \<and> job_AudiobookID j2 = ''a1'' \<and>
     sv_calls s1 = 1 \<and> sv_clock s1 = sv_clock relay_server"
  by (simp add: relay_worker_def relay_server_def run_stmt_def ClaimNext_def new_job_def ready_def pg_time_def minutes_def
      claimLeaseMinutes_def lease_def)



section \<open>One worker per job\<close>

abbreviation lease_time :: time where
  "lease_time \<equiv> minutes claimLeaseMinutes"

fun job_in :: "phase \<Rightarrow> string option" where
  "job_in Idle = None"
| "job_in (Claimed job) = Some (job_AudiobookID job)"
| "job_in (Loaded job src row) = Some (job_AudiobookID job)"
| "job_in (Matched job row) = Some (job_AudiobookID job)"
| "job_in (Processed job r) = Some (job_AudiobookID job)"
| "job_in (Returned r) = None"

text \<open>Worker \<open>i\<close> has the job of book \<open>x\<close> in hand, since \<open>t\<close>.\<close>

definition holds :: "(phase \<times> time) list \<Rightarrow> nat \<Rightarrow> string \<Rightarrow> time \<Rightarrow> bool" where
  "holds ps i x t \<longleftrightarrow> i < length ps \<and> job_in (fst (ps ! i)) = Some x \<and> snd (ps ! i) = t"

fun requeues :: "string \<Rightarrow> 'j other_op \<Rightarrow> bool" where
  "requeues x (WEnqueue i) \<longleftrightarrow> i = x"
| "requeues x WBackfill \<longleftrightarrow> True"
| "requeues x _ \<longleftrightarrow> False"

text \<open>
  What the lease relies on: a worker acts on a job only while its lease runs, and a job in hand is not
  queued again.
\<close>

fun timely :: "'j conf \<Rightarrow> 'j event \<Rightarrow> bool" where
  "timely (ps, s) (Work i) \<longleftrightarrow> (\<forall>x t. holds ps i x t \<longrightarrow> now_of s < t + lease_time)"
| "timely (ps, s) (Other op) \<longleftrightarrow> (\<forall>i x t. holds ps i x t \<longrightarrow> \<not> requeues x op)"

text \<open>What a statement outside the worker does to a job that it does not queue again.\<close>

lemma job_of_subset:
  "set (t_job d') \<subseteq> set (t_job d) \<Longrightarrow> db_inv d \<Longrightarrow> job_of d' x = Some j \<Longrightarrow> job_of d x = Some j"
  using job_of_Some job_of_mem by blast

lemma insert_chapters_jobs: "insert_chapters i cs d = Inr d' \<Longrightarrow> t_job d' = t_job d"
  by (induction i cs d rule: insert_chapters.induct) (auto split: if_splits)

lemma other_job:
  assumes "other_stmt op now d = Inr (r, d')" and "\<not> requeues x op" and "db_inv d" and "job_of d' x = Some j"
  shows "job_of d x = Some j"
proof (cases op)
  case (WReplaceChapters i cs)
  with assms(1) have "t_job d' = t_job d"
    by (cases "insert_chapters i cs (d\<lparr>t_chapter := filter (\<lambda>c. ch_AudiobookID c \<noteq> i) (t_chapter d)\<rparr>)")
      (auto simp: ReplaceChapters_def dest: insert_chapters_jobs)
  with assms(4) show ?thesis by (simp add: job_of_def)
next
  case (WDeleteLibraryPath i)
  with assms(1) have "set (t_job d') \<subseteq> set (t_job d)"
    by (auto simp: DeleteLibraryPath_def cascade_library_def Let_def dest!: forget_Inr split: if_splits)
  then show ?thesis using job_of_subset assms(3,4) by blast
next
  case (WEnqueue i)
  with assms(1,2) have "job_of d' x = job_of d x"
    by (auto simp: Enqueue_def job_of_update split: if_splits)
      (auto simp: job_of_def find_append new_job_def split: option.splits)
  with assms(4) show ?thesis by simp
qed (use assms in \<open>auto simp: job_of_def UpsertAudiobook_def SoftDeleteAudiobook_def UpsertCover_def UpsertLibraryPath_def
    MarkLibraryScanned_def InsertScanEvent_def FinishScanEvent_def PutHit_def PutNotFound_def cache_put_def EvictExpired_def
    write_config_def Let_def dest!: forget_Inr split: if_splits option.splits\<close>)

lemma other_keeps_date:
  assumes "db_inv d" and "not_before d x T" and "\<not> requeues x op" and "other_stmt op now d = Inr (r, d')"
  shows "not_before d' x T"
  using other_job [OF assms(4,3,1)] assms(2) by (simp add: not_before_def)

lemma run_claim_jobs:
  assumes "run_stmt (ClaimNext pg locked) s = (r, s')"
  shows "r = Inr (Some job) \<Longrightarrow> ClaimNext pg locked (now_of s) (sv_db s) = Inr (Some job, sv_db s')"
    and "(\<And>job. r \<noteq> Inr (Some job)) \<Longrightarrow> sv_db s' = sv_db s"
  using assms
  by (auto simp: run_stmt_def now_of_def Let_def split: if_splits sum.splits prod.splits)
    (metis ClaimNext_None not_Some_eq)

lemma run_load_jobs: "run_stmt (LoadAudiobookRow i) s = (r, s') \<Longrightarrow> sv_db s' = sv_db s"
  by (drule run_read_only [OF read_only_load]) simp

lemma run_update_jobs: "run_stmt (UpdateAudiobookMetadata row) s = (r, s') \<Longrightarrow> t_job (sv_db s') = t_job (sv_db s)"
  by (auto simp: run_stmt_def UpdateAudiobookMetadata_def Let_def split: if_splits)

lemma run_mark_other:
  assumes "y \<noteq> x"
  shows "job_of (sv_db (snd (run_stmt (MarkCompleted x) s))) y = job_of (sv_db s) y"
    and "job_of (sv_db (snd (run_stmt (MarkFailed x n e) s))) y = job_of (sv_db s) y"
  using assms by (auto simp: run_stmt_def MarkCompleted_def MarkFailed_def Let_def job_of_update)

text \<open>
  What a step of a worker does to the jobs: it takes one in hand and leases it, it goes on or gives up
  without touching them, or it records the outcome of the one in hand.
\<close>

lemma worker_effect:
  assumes "worker_step w (ph, s) = (ph', s')" and "wk_Store w = worker_store"
  obtains (claim) job where "ph = Idle" and "ph' = Claimed job"
      and "ClaimNext (wk_Queue w) (wk_locked w (sv_calls s)) (now_of s) (sv_db s) = Inr (Some job, sv_db s')"
    | (work) "t_job (sv_db s') = t_job (sv_db s)" and "job_in ph' = job_in ph \<or> job_in ph' = None" and "ph = Idle \<longrightarrow> job_in ph' = None"
    | (mark) x where "job_in ph = Some x" and "ph' = Idle" and "\<forall>y. y \<noteq> x \<longrightarrow> job_of (sv_db s') y = job_of (sv_db s) y"
proof (cases ph)
  case Idle
  obtain r1 s1 where r1: "run_stmt (ClaimNext (wk_Queue w) (wk_locked w (sv_calls s))) s = (r1, s1)" by fastforce
  show ?thesis
    using assms(1) Idle r1 run_claim_jobs [OF r1] claim work
    by (auto split: option.splits sum.splits)
next
  case (Processed job r)
  then show ?thesis
    using assms(1) mark [of "job_AudiobookID job"] work
    by (cases r) (auto simp: run_mark_other split: if_splits)
qed (use assms work in \<open>auto simp: worker_store_def split: option.splits prod.splits sum.splits
    dest: run_load_jobs run_update_jobs\<close>)

text \<open>
  The invariant: a job in hand under a running lease is not due before the lease ends, and no two workers
  have one job in hand under running leases.
\<close>

definition exclusive :: "'j conf \<Rightarrow> bool" where
  "exclusive c \<longleftrightarrow> (case c of (ps, s) \<Rightarrow>
     (\<forall>i x t. holds ps i x t \<longrightarrow> now_of s < t + lease_time \<longrightarrow> not_before (sv_db s) x (t + lease_time)) \<and>
     (\<forall>i j x t u. i \<noteq> j \<longrightarrow> holds ps i x t \<longrightarrow> holds ps j x u \<longrightarrow> t + lease_time \<le> now_of s \<or> u + lease_time \<le> now_of s))"

lemma exclusiveD:
  assumes "exclusive (ps, s)"
  shows "holds ps i x t \<Longrightarrow> now_of s < t + lease_time \<Longrightarrow> not_before (sv_db s) x (t + lease_time)"
    and "i \<noteq> j \<Longrightarrow> holds ps i x t \<Longrightarrow> holds ps j x u \<Longrightarrow> t + lease_time \<le> now_of s \<or> u + lease_time \<le> now_of s"
  using assms unfolding exclusive_def prod.case by blast+

lemma worker_step_frame:
  assumes "worker_step w (ph, s) = (ph', s')"
  shows "sv_clock s' = sv_clock s \<and> sv_calls s \<le> sv_calls s'"
  using assms by (cases "(w, (ph, s))" rule: worker_step.cases)
    (auto split: option.splits prod.splits sum.splits if_splits dest: run_stmt_eqD)

lemma pg_time_mono: "a \<le> b \<Longrightarrow> pg_time a \<le> pg_time b"
  by (simp add: pg_time_def zdiv_mono1)

lemma now_mono: "mono (sv_clock s) \<Longrightarrow> sv_clock s' = sv_clock s \<Longrightarrow> sv_calls s \<le> sv_calls s' \<Longrightarrow> now_of s \<le> now_of s'"
  by (simp add: now_of_def pg_time_mono monoD)

lemma holds_update:
  "i < length ps \<Longrightarrow> holds (ps[i := (ph, u)]) k x t \<longleftrightarrow> (if k = i then job_in ph = Some x \<and> t = u else holds ps k x t)"
  by (auto simp: holds_def nth_list_update)

text \<open>Time passes, jobs in hand can be put down, and what is due does not come earlier.\<close>

lemma exclusive_later:
  assumes "exclusive (ps, s)" and "now_of s \<le> now_of s'" and "\<And>i x t. holds ps' i x t \<Longrightarrow> holds ps i x t"
    and "\<And>i x t. holds ps' i x t \<Longrightarrow> now_of s' < t + lease_time \<Longrightarrow> not_before (sv_db s) x (t + lease_time) \<Longrightarrow>
      not_before (sv_db s') x (t + lease_time)"
  shows "exclusive (ps', s')"
  unfolding exclusive_def prod.case
proof (intro conjI allI impI)
  fix i x t
  assume "holds ps' i x t" "now_of s' < t + lease_time"
  moreover from this have "not_before (sv_db s) x (t + lease_time)"
    using exclusiveD(1) [OF assms(1) assms(3)] assms(2) by (meson order_le_less_trans)
  ultimately show "not_before (sv_db s') x (t + lease_time)" by (rule assms(4))
next
  fix i j x t u
  assume "i \<noteq> j" "holds ps' i x t" "holds ps' j x u"
  with exclusiveD(2) [OF assms(1) _ assms(3,3)] have "t + lease_time \<le> now_of s \<or> u + lease_time \<le> now_of s" by blast
  with assms(2) show "t + lease_time \<le> now_of s' \<or> u + lease_time \<le> now_of s'" by linarith
qed

lemma exclusive_claim:
  assumes "exclusive (ps, s)" and "now_of s \<le> now_of s'" and "db_inv (sv_db s)" and "i < length ps"
    and "ClaimNext pg locked (now_of s) (sv_db s) = Inr (Some job, sv_db s')"
  shows "exclusive (ps[i := (Claimed job, now_of s)], s')"
proof -
  let ?y = "job_AudiobookID job"
  from ClaimNext_Some [OF assms(5,3)] obtain j0
    where j0: "job_of (sv_db s') = (job_of (sv_db s))(?y \<mapsto> lease (now_of s) j0)" by metis
  have other: "x \<noteq> ?y" if "holds ps k x t" "now_of s < t + lease_time" for k x t
    using not_before_not_claimed [OF assms(3) exclusiveD(1) [OF assms(1) that] that(2) assms(5)] by blast
  show ?thesis
    unfolding exclusive_def prod.case holds_update [OF assms(4)]
  proof (intro conjI allI impI)
    fix k x t
    assume k: "if k = i then job_in (Claimed job) = Some x \<and> t = now_of s else holds ps k x t" and run: "now_of s' < t + lease_time"
    show "not_before (sv_db s') x (t + lease_time)"
    proof (cases "k = i")
      case True
      with k j0 show ?thesis by (simp add: not_before_def lease_def)
    next
      case False
      with k run assms(2) have "holds ps k x t" "now_of s < t + lease_time" by auto
      with exclusiveD(1) [OF assms(1)] other have "not_before (sv_db s) x (t + lease_time)" "x \<noteq> ?y" by blast+
      with j0 show ?thesis by (simp add: not_before_def)
    qed
  next
    fix k l x t u
    assume kl: "k \<noteq> l" "if k = i then job_in (Claimed job) = Some x \<and> t = now_of s else holds ps k x t"
      "if l = i then job_in (Claimed job) = Some x \<and> u = now_of s else holds ps l x u"
    then have "t + lease_time \<le> now_of s \<or> u + lease_time \<le> now_of s"
      using other [of k x t] other [of l x u] exclusiveD(2) [OF assms(1), of k l x t u]
      by (auto split: if_splits) (meson linorder_not_less)+
    with assms(2) show "t + lease_time \<le> now_of s' \<or> u + lease_time \<le> now_of s'" by linarith
  qed
qed

lemma exclusive_mark:
  assumes "exclusive (ps, s)" and "now_of s \<le> now_of s'" and "i < length ps" and "holds ps i y t0" and "now_of s < t0 + lease_time"
    and "\<forall>x. x \<noteq> y \<longrightarrow> job_of (sv_db s') x = job_of (sv_db s) x"
  shows "exclusive (ps[i := (Idle, u)], s')"
proof (rule exclusive_later [OF assms(1,2)])
  fix k x t
  assume k: "holds (ps[i := (Idle, u)]) k x t"
  then have h: "k \<noteq> i" "holds ps k x t" by (auto simp: holds_update [OF assms(3)] split: if_splits)
  then show "holds ps k x t" by simp
  assume "now_of s' < t + lease_time" "not_before (sv_db s) x (t + lease_time)"
  moreover from this h assms(2,4,5) have "x \<noteq> y" using exclusiveD(2) [OF assms(1), of k i x t t0] by auto
  ultimately show "not_before (sv_db s') x (t + lease_time)" using assms(6) by (simp add: not_before_def)
qed

lemma exclusive_step:
  assumes "con_step ws (ps, s) ev (ps', s')" and "timely (ps, s) ev" and "exclusive (ps, s)" and "db_inv (sv_db s)"
    and "\<forall>w\<in>set ws. wk_Store w = worker_store" and "mono (sv_clock s)"
  shows "exclusive (ps', s')"
proof (cases ev)
  case (Work i)
  from assms(1) [unfolded Work] obtain ph t ph' where i: "i < length ps" "i < length ws" "ps ! i = (ph, t)"
    and step: "worker_step (ws ! i) (ph, s) = (ph', s')" and ps': "ps' = ps[i := (ph', if ph = Idle then now_of s else t)]"
    by (elim workE) auto
  have store: "wk_Store (ws ! i) = worker_store" using assms(5) i(2) by simp
  have now: "now_of s \<le> now_of s'" using worker_step_frame [OF step] now_mono [OF assms(6)] by blast
  from step store show ?thesis
  proof (cases rule: worker_effect)
    case (claim job)
    then show ?thesis using exclusive_claim [OF assms(3) now assms(4) i(1)] ps' by simp
  next
    case work
    have "holds ps k x u" if "holds ps' k x u" for k x u
      using that work(2,3) i by (auto simp: ps' holds_def nth_list_update split: if_splits)
    then show ?thesis
      by (rule exclusive_later [OF assms(3) now]) (use work(1) in \<open>auto simp: not_before_def job_of_def\<close>)
  next
    case (mark x)
    then have "holds ps i x t" using i by (simp add: holds_def)
    with assms(2) Work show ?thesis using exclusive_mark [OF assms(3) now i(1) _ _ mark(3)] mark(2) ps' by simp
  qed
next
  case (Other op)
  with assms(1) have ps': "ps' = ps" and s': "s' = snd (run_stmt (other_stmt op) s)" by (auto elim: otherE)
  have now: "now_of s \<le> now_of s'" unfolding s' by (rule now_mono [OF assms(6)]) simp_all
  show ?thesis
    unfolding ps'
  proof (rule exclusive_later [OF assms(3) now])
    fix i x t
    assume "holds ps i x t" and date: "not_before (sv_db s) x (t + lease_time)"
    then have "\<not> requeues x op" using assms(2) Other by auto
    then show "not_before (sv_db s') x (t + lease_time)"
      using other_keeps_date [OF assms(4) date] date
      by (cases rule: run_stmt_db [of "other_stmt op" s]) (auto simp: s')
  qed
qed

text \<open>
  C4. One worker per job: let any number of workers drain at the same time, beside every other writer of
  the database, in any order of their statements. As long as a worker acts on a job only within the 15
  minutes of its lease and no job that is in hand is queued again, no two workers have the same job in
  hand under running leases: if two have it, the lease of one of them is over.
\<close>

theorem concurrent_exclusion:
  assumes "con_run timely ws (ps0, s0) (ps, s)" and "\<forall>w\<in>set ws. wk_Store w = worker_store" and "db_inv (sv_db s0)"
    and "mono (sv_clock s0)" and "\<forall>p\<in>set ps0. job_in (fst p) = None"
    and "i \<noteq> j" and "holds ps i x t" and "holds ps j x u"
  shows "t + minutes claimLeaseMinutes \<le> now_of s \<or> u + minutes claimLeaseMinutes \<le> now_of s"
proof -
  have "exclusive (ps0, s0)" using assms(5) by (auto simp: exclusive_def holds_def)
  from assms(1) have "exclusive (ps, s) \<and> db_inv (sv_db s) \<and> sv_clock s = sv_clock s0"
  proof (induction "(ps, s)" arbitrary: ps s rule: con_run.induct)
    case start
    then show ?case using assms(3) \<open>exclusive (ps0, s0)\<close> by simp
  next
    case (step c ev)
    obtain qs q where c: "c = (qs, q)" by fastforce
    with step have IH: "exclusive (qs, q)" "db_inv (sv_db q)" "sv_clock q = sv_clock s0" by auto
    have "sv_clock s = sv_clock q"
      using step(4) unfolding c by cases (auto dest: worker_step_frame)
    moreover have "db_inv (sv_db s)" using con_step_inv [OF step(4) assms(2)] c IH(2) by simp
    moreover have "exclusive (ps, s)"
      using exclusive_step [of ws qs q ev ps s] step(3,4) c IH assms(2,4) by simp
    ultimately show ?case using IH(3) by simp
  qed
  then show ?thesis using exclusiveD(2) [of ps s] assms(6-8) by blast
qed

theorem concurrent_exclusion_witness:
  "\<exists>ps s. con_run timely [relay_worker, relay_worker] ([(Idle, 0), (Idle, 0)], relay_server) (ps, s) \<and>
     holds ps 0 ''a1'' 0 \<and> holds ps 1 ''a1'' (minutes 16) \<and>
     (0 + minutes claimLeaseMinutes \<le> now_of s \<or> minutes 16 + minutes claimLeaseMinutes \<le> now_of s)"
proof -
  let ?ws = "[relay_worker, relay_worker]" and ?c = "([(Idle, 0), (Idle, 0)], relay_server)"
  obtain s1 s2 j1 j2 where st: "worker_step relay_worker (Idle, relay_server) = (Claimed j1, s1)"
      "worker_step relay_worker (Idle, s1) = (Claimed j2, s2)"
    and j: "job_AudiobookID j1 = ''a1''" "job_AudiobookID j2 = ''a1''" and s1: "sv_calls s1 = 1" "sv_clock s1 = sv_clock relay_server"
    using relay_claims by blast
  have now: "now_of relay_server = 0" "now_of s1 = minutes 16"
    by (simp_all add: now_of_def s1 relay_server_def pg_time_def minutes_def)
  have "con_step ?ws ?c (Work 0) ([(Claimed j1, 0), (Idle, 0)], s1)"
    using con_step.work [of 0 "fst ?c" ?ws Idle 0 relay_server "Claimed j1" s1] st(1) now(1) by simp
  then have 1: "con_run timely ?ws ?c ([(Claimed j1, 0), (Idle, 0)], s1)"
    by (rule con_run.step [OF con_run.start, rotated]) (simp add: holds_def)
  have "con_step ?ws ([(Claimed j1, 0), (Idle, 0)], s1) (Work 1) ([(Claimed j1, 0), (Claimed j2, minutes 16)], s2)"
    using con_step.work [of 1 "[(Claimed j1, 0), (Idle, 0)]" ?ws Idle 0 s1 "Claimed j2" s2] st(2) now(2) by simp
  then have run: "con_run timely ?ws ?c ([(Claimed j1, 0), (Claimed j2, minutes 16)], s2)"
    by (rule con_run.step [OF 1, rotated]) (simp add: holds_def)
  have h: "holds [(Claimed j1, 0), (Claimed j2, minutes 16)] 0 ''a1'' 0" "holds [(Claimed j1, 0), (Claimed j2, minutes 16)] 1 ''a1'' (minutes 16)"
    using j by (simp_all add: holds_def)
  have "mono (sv_clock relay_server)" by (auto simp: relay_server_def mono_def minutes_def)
  then have "0 + minutes claimLeaseMinutes \<le> now_of s2 \<or> minutes 16 + minutes claimLeaseMinutes \<le> now_of s2"
    using concurrent_exclusion [OF run _ relay_inv _ _ _ h] by (simp add: relay_worker_def)
  with run h show ?thesis by (intro exI conjI)
qed


section \<open>A scan during an enrichment\<close>

text \<open>
  C37. An enrichment that overlaps a scan of the same book undoes the scan and hides that it did: the worker
  has read the row of the old file, the scan then stores the tags of the changed file and queues the book
  again, and the worker writes the old row merged with its candidate over them and marks the job as done.
  The row ends up with the new file's signature, so no later scan reads the file again, and with the old
  file's metadata; the job is completed, so no later drain looks at it either.
\<close>

theorem stale_enrichment_wins:
  assumes "db_inv (sv_db s)" and "\<forall>n. \<not> sv_fault s n" and "b \<in> set (t_audiobook (sv_db s))" and "same_path a b"
    and "job_of (sv_db s) (ab_ID b) = Some j0" and "job_AudiobookID job = ab_ID b" and "wk_Store w = worker_store"
    and "\<forall>n. lookup_candidate src n (wk_Region w) (read_row b) = Inr (Some c)"
    and "s1 = snd (run_stmt (UpsertAudiobook a) s)" and "s2 = snd (run_stmt (Enqueue (ab_ID b)) s1)"
  shows "\<exists>s' b' j. worker_steps w 3 (Loaded job src (read_row b), s2) = (Idle, s') \<and>
    b' \<in> set (t_audiobook (sv_db s')) \<and> ab_ID b' = ab_ID b \<and> ab_ContentSig b' = ab_ContentSig a \<and>
    read_row b' = ApplyMatch (read_row b) c \<and>
    job_of (sv_db s') (ab_ID b) = Some j \<and> jb_Status j = Completed"
proof -
  let ?d = "sv_db s" and ?x = "ab_ID b"
  have jobs: "list_ex (\<lambda>j. jb_AudiobookID j = ?x) (t_job ?d)"
    using job_of_Some [OF assms(5)] by (auto simp: list_ex_iff)
  have "list_ex (same_path a) (t_audiobook ?d)" using assms(3,4) by (auto simp: list_ex_iff)
  then obtain t1 where s1: "s1 = s\<lparr>sv_calls := Suc (sv_calls s), sv_db := ?d\<lparr>t_audiobook :=
      map (\<lambda>r. if same_path a r then reingest a t1 r else r) (t_audiobook ?d)\<rparr>\<rparr>"
    using assms(2,9) by (simp add: run_stmt_def UpsertAudiobook_def)
  then obtain t2 where s2: "s2 = s1\<lparr>sv_calls := Suc (sv_calls s1), sv_db := (sv_db s1)\<lparr>t_job :=
      map (\<lambda>j. if jb_AudiobookID j = ?x then rearm t2 j else j) (t_job ?d)\<rparr>\<rparr>"
    using assms(2,10) jobs by (simp add: run_stmt_def Enqueue_def)
  let ?m = "ApplyMatch (read_row b) c"
  have m: "ar_ID ?m = ?x" by (simp add: ApplyMatch_def Let_def read_row_def)
  obtain t3 where s3: "worker_step w (Matched job ?m, s2) = (Processed job None, s2\<lparr>sv_calls := Suc (sv_calls s2), sv_db := (sv_db s2)\<lparr>t_audiobook :=
      map (\<lambda>r. if ab_ID r = ?x then write_row ?m t3 r else r) (t_audiobook (sv_db s2))\<rparr>\<rparr>)"
    using assms(2,7) m by (simp add: s1 s2 worker_store_def run_stmt_def UpdateAudiobookMetadata_def)
  let ?s3 = "s2\<lparr>sv_calls := Suc (sv_calls s2), sv_db := (sv_db s2)\<lparr>t_audiobook :=
      map (\<lambda>r. if ab_ID r = ?x then write_row ?m t3 r else r) (t_audiobook (sv_db s2))\<rparr>\<rparr>"
  obtain t4 where s4: "snd (run_stmt (MarkCompleted ?x) ?s3) = ?s3\<lparr>sv_calls := Suc (sv_calls ?s3), sv_db := (sv_db ?s3)\<lparr>t_job :=
      map (\<lambda>j. if jb_AudiobookID j = ?x then complete t4 j else j) (t_job (sv_db ?s3))\<rparr>\<rparr>"
    using assms(2) by (simp add: s1 s2 run_stmt_def MarkCompleted_def)
  let ?s4 = "snd (run_stmt (MarkCompleted ?x) ?s3)"
  have "worker_steps w 3 (Loaded job src (read_row b), s2) = (Idle, ?s4)"
    using assms(6,8) s3 by (simp add: numeral_3_eq_3)
  moreover have "write_row ?m t3 (reingest a t1 b) \<in> set (t_audiobook (sv_db ?s4))"
    unfolding s4 using assms(3,4) by (force simp: s1 s2)
  moreover have "job_of (sv_db ?s4) ?x = Some (complete t4 (rearm t2 j0))"
    unfolding s4 using assms(5) by (simp add: s1 s2 job_of_def find_map_job del: map_map)
  moreover have "read_row (write_row ?m t3 (reingest a t1 b)) = ?m" using m by simp
  moreover have "ab_ID (write_row ?m t3 (reingest a t1 b)) = ?x" "ab_ContentSig (write_row ?m t3 (reingest a t1 b)) = ab_ContentSig a"
    "jb_Status (complete t4 (rearm t2 j0)) = Completed" by (simp_all add: complete_def write_row_def)
  ultimately show ?thesis by blast
qed

theorem stale_enrichment_wins_witness:
  "\<exists>s' b' j. worker_steps relay_worker 3 (Loaded \<lparr>job_AudiobookID = ''a1'', job_Attempts = 1\<rparr> (sample_source ''audnexus'') (read_row alpha),
       snd (run_stmt (Enqueue ''a1'') (snd (run_stmt (UpsertAudiobook (alpha\<lparr>ab_Genre := ''New'', ab_ContentSig := ''v2''\<rparr>)) relay_server)))) = (Idle, s') \<and>
     b' \<in> set (t_audiobook (sv_db s')) \<and> ab_ID b' = ''a1'' \<and> ab_ContentSig b' = ''v2'' \<and> ab_Genre b' = ''Fiction'' \<and>
     job_of (sv_db s') ''a1'' = Some j \<and> jb_Status j = Completed"
proof -
  let ?a = "alpha\<lparr>ab_Genre := ''New'', ab_ContentSig := ''v2''\<rparr>" and ?c = "sample_candidate\<lparr>cd_Source := ''audnexus''\<rparr>"
  have id: "ab_ID alpha = ''a1''" by (simp add: alpha_def sample_book_def)
  have genre: "ar_Genre (ApplyMatch (read_row alpha) ?c) = ''Fiction''"
    by (simp add: ApplyMatch_def overwrite_def sample_candidate_def zero_candidate_def read_row_def alpha_def sample_book_def)
  have "lookup_candidate (sample_source ''audnexus'') n (wk_Region relay_worker) (read_row alpha) = Inr (Some ?c)" for n
    by (simp add: alpha_lookup sample_source_def first_candidate_def)
  moreover have "alpha \<in> set (t_audiobook (sv_db relay_server))" "same_path ?a alpha"
    by (simp_all add: relay_server_def sample_db_def alpha_def same_path_def path_key_def)
  moreover have "job_of (sv_db relay_server) (ab_ID alpha) = Some (new_job ''a1'' 0)"
    by (simp add: relay_server_def job_of_def id new_job_def)
  moreover have "\<forall>n. \<not> sv_fault relay_server n" "wk_Store relay_worker = worker_store" by (simp_all add: relay_server_def relay_worker_def)
  ultimately obtain s' b' j where "worker_steps relay_worker 3 (Loaded \<lparr>job_AudiobookID = ''a1'', job_Attempts = 1\<rparr> (sample_source ''audnexus'') (read_row alpha),
       snd (run_stmt (Enqueue (ab_ID alpha)) (snd (run_stmt (UpsertAudiobook ?a) relay_server)))) = (Idle, s')"
     "b' \<in> set (t_audiobook (sv_db s'))" "ab_ID b' = ab_ID alpha" "ab_ContentSig b' = ab_ContentSig ?a" "read_row b' = ApplyMatch (read_row alpha) ?c"
     "job_of (sv_db s') (ab_ID alpha) = Some j" "jb_Status j = Completed"
    using stale_enrichment_wins [OF relay_inv, of alpha ?a _ "\<lparr>job_AudiobookID = ''a1'', job_Attempts = 1\<rparr>" relay_worker "sample_source ''audnexus''" ?c, OF _ _ _ _ _ _ _ refl refl] id
    by auto
  moreover from this(5) have "ab_Genre b' = ''Fiction''" using genre by (metis read_row_def AudiobookRow.select_convs(7))
  ultimately show ?thesis unfolding id by auto
qed

end
