(* ===== verification/Rate_Limit.thy ===== *)
theory Rate_Limit
  imports Aggregator
begin

text \<open>
  The rate limiters of the aggregator (\<^verbatim>\<open>limiter\<close> in \<^verbatim>\<open>aggregator.go\<close>). They are made on demand, kept in a map
  under a mutex, and shared by all searches that one aggregator runs. The limiter itself is
  \<^verbatim>\<open>golang.org/x/time/rate\<close>, a parameter: \<open>rl_Wait\<close> takes its state, the time of the call and the time left,
  and returns when the caller may go on, or nothing, with its new state. \<open>agg_env\<close> has the answers as \<open>ag_wait\<close>;
  here is where they come from.
\<close>

record 'l rate_lib =
  rl_NewLimiter :: "int \<Rightarrow> int \<Rightarrow> 'l"
  rl_Wait :: "'l \<Rightarrow> time \<Rightarrow> time \<Rightarrow> time option \<times> 'l"

text \<open>The pointers of \<^verbatim>\<open>Aggregator.limiters\<close> and what they point to.\<close>

type_synonym 'l limiters = "string \<rightharpoonup> 'l"

definition limiter :: "'l rate_lib \<Rightarrow> int \<Rightarrow> string \<Rightarrow> 'l limiters \<Rightarrow> 'l \<times> 'l limiters" where
  "limiter lib rps sourceID limiters =
     (case limiters sourceID of
        Some l \<Rightarrow> (l, limiters)
      | None \<Rightarrow> let l = rl_NewLimiter lib rps rps in (l, limiters(sourceID \<mapsto> l)))"

definition search_timeout :: time where
  "search_timeout = 5 * 1000000000"

text \<open>A search that missed the cache: it goes on at the returned time or gives up.\<close>

definition wait_turn :: "'l rate_lib \<Rightarrow> int \<Rightarrow> string \<Rightarrow> time \<Rightarrow> 'l limiters \<Rightarrow> time option \<times> 'l limiters" where
  "wait_turn lib rps sourceID now limiters =
     (let (l, limiters1) = limiter lib (clamp_rps rps) sourceID limiters;
          (r, l1) = rl_Wait lib l now search_timeout
      in (r, limiters1(sourceID \<mapsto> l1)))"

text \<open>The searches of an aggregator, in the order in which they reach their limiter.\<close>

fun wait_turns :: "'l rate_lib \<Rightarrow> int \<Rightarrow> (string \<times> time) list \<Rightarrow> 'l limiters \<Rightarrow> (string \<times> time option) list" where
  "wait_turns lib rps [] limiters = []"
| "wait_turns lib rps ((i, now) # calls) limiters =
     (case wait_turn lib rps i now limiters of (r, limiters1) \<Rightarrow> (i, r) # wait_turns lib rps calls limiters1)"

text \<open>The specification: one limiter, asked at the given times.\<close>

fun limiter_answers :: "'l rate_lib \<Rightarrow> 'l \<Rightarrow> time list \<Rightarrow> time option list" where
  "limiter_answers lib l [] = []"
| "limiter_answers lib l (now # ts) =
     (case rl_Wait lib l now search_timeout of (r, l1) \<Rightarrow> r # limiter_answers lib l1 ts)"

definition limiter_at :: "'l rate_lib \<Rightarrow> int \<Rightarrow> string \<Rightarrow> 'l limiters \<Rightarrow> 'l" where
  "limiter_at lib rps i limiters =
     (case limiters i of Some l \<Rightarrow> l | None \<Rightarrow> rl_NewLimiter lib (clamp_rps rps) (clamp_rps rps))"

lemma limiter_fst: "fst (limiter lib (clamp_rps rps) i limiters) = limiter_at lib rps i limiters"
  by (simp add: limiter_def limiter_at_def Let_def split: option.split)

lemma wait_turn_own:
  assumes "wait_turn lib rps i now limiters = (r, limiters1)"
  shows "rl_Wait lib (limiter_at lib rps i limiters) now search_timeout = (r, limiter_at lib rps i limiters1)"
  using assms limiter_fst [of lib rps i limiters]
  by (auto simp: wait_turn_def limiter_at_def split: prod.splits option.splits)

lemma wait_turn_other:
  assumes "wait_turn lib rps i now limiters = (r, limiters1)" and "j \<noteq> i"
  shows "limiter_at lib rps j limiters1 = limiter_at lib rps j limiters"
  using assms by (auto simp: wait_turn_def limiter_def limiter_at_def Let_def split: prod.splits option.splits if_splits)

lemma wait_turns_of_source:
  "map snd (filter (\<lambda>(j, r). j = i) (wait_turns lib rps calls limiters)) =
   limiter_answers lib (limiter_at lib rps i limiters) (map snd (filter (\<lambda>(j, now). j = i) calls))"
proof (induction calls arbitrary: limiters)
  case (Cons call calls)
  obtain j now where call: "call = (j, now)" by (cases call)
  obtain r limiters1 where turn: "wait_turn lib rps j now limiters = (r, limiters1)"
    by (cases "wait_turn lib rps j now limiters")
  show ?case
    using Cons.IH [of limiters1] wait_turn_own [OF turn] wait_turn_other [OF turn, of i]
    by (cases "j = i") (use turn in \<open>simp_all add: call\<close>)
qed simp

text \<open>
  Every source has a budget of its own, of at least one request a second: however the searches of an
  aggregator interleave, the answers that those of one source get from the limiters are the answers of a
  single limiter of the configured rate and burst, asked at their times only. Searches on other sources
  neither delay nor reject them, and no search starts with a fresh budget.
\<close>

theorem limiter_per_source:
  "map snd (filter (\<lambda>(j, r). j = i) (wait_turns lib rps calls Map.empty)) =
   limiter_answers lib (rl_NewLimiter lib (max 1 rps) (max 1 rps)) (map snd (filter (\<lambda>(j, now). j = i) calls))"
  using wait_turns_of_source [of i lib rps calls Map.empty] by (simp add: limiter_at_def clamp_rps_def max_def)

end
