(* ===== verification/Startup.thy ===== *)
theory Startup
  imports System Serve_Content Concurrent Rate_Limit
begin

text \<open>
  The start and the end of the process: \<^verbatim>\<open>main\<close> up to the serve loop, the manifest it completes and
  \<^verbatim>\<open>GetManifest\<close> returns, and the shutdown of the standalone listener. It also brings the three views of a
  request together: the listener's adapter, the routes and the handlers on the plugin's state.
\<close>


section \<open>The manifest\<close>

record SupportedPlatform =
  sp_Os :: string
  sp_Arch :: string

text \<open>\<open>mf_rest\<close> is what the code only passes on.\<close>

record 'm PluginManifest =
  mf_Checksum :: string
  mf_SupportedPlatforms :: "SupportedPlatform list"
  mf_rest :: 'm

text \<open>
  The process's surroundings: \<open>sx_Load\<close> is \<^verbatim>\<open>publicmanifest.Load\<close> on the embedded text, \<open>None\<close> an error;
  \<open>sx_sha256\<close> the hash.
\<close>

record 'm start_env =
  sx_Load :: "'m PluginManifest option"
  sx_Executable :: "string option"
  sx_ReadFile :: "string \<Rightarrow> bytes option"
  sx_sha256 :: "bytes \<Rightarrow> bytes"
  sx_GOOS :: string
  sx_GOARCH :: string

datatype hydrate_error = ResolveExecutable | ReadExecutable string

definition hydrateRuntimeManifest :: "'m start_env \<Rightarrow> 'm PluginManifest \<Rightarrow> hydrate_error + 'm PluginManifest" where
  "hydrateRuntimeManifest env m =
     (case sx_Executable env of
        None \<Rightarrow> Inl ResolveExecutable
      | Some executablePath \<Rightarrow>
          (case sx_ReadFile env executablePath of
             None \<Rightarrow> Inl (ReadExecutable executablePath)
           | Some binaryData \<Rightarrow>
               (let m1 = m\<lparr>mf_Checksum := hex_EncodeToString (sx_sha256 env binaryData)\<rparr> in
                Inr (if mf_SupportedPlatforms m1 = []
                     then m1\<lparr>mf_SupportedPlatforms := [\<lparr>sp_Os = sx_GOOS env, sp_Arch = sx_GOARCH env\<rparr>]\<rparr>
                     else m1))))"

datatype exit_reason = LoadManifestFailed | HydrateFailed hydrate_error

text \<open>\<^verbatim>\<open>main\<close>: exit with status 1, or serve with the manifest and nothing configured.\<close>

definition main_start :: "'m start_env \<Rightarrow> exit_reason + ('m PluginManifest \<times> Config \<times> 'j plugin)" where
  "main_start env =
     (case sx_Load env of
        None \<Rightarrow> Inl LoadManifestFailed
      | Some manifest \<Rightarrow>
          (case hydrateRuntimeManifest env manifest of
             Inl e \<Rightarrow> Inl (HydrateFailed e)
           | Inr m \<Rightarrow> Inr (m, empty_Config, unconfigured)))"

definition GetManifest :: "'m PluginManifest \<Rightarrow> 'm PluginManifest" where
  "GetManifest manifest = manifest"

text \<open>
  The signal handler shuts the standalone listener down, if it was ever started; nothing else of the
  process reacts to the signal here. The address that is shut down is the result.
\<close>

definition on_signal :: "'j plugin \<Rightarrow> string option" where
  "on_signal pl = pl_standalone_addr pl"

text \<open>
  A process that starts serves a manifest that identifies its own binary: the checksum is the hash of the
  executable in 64 hexadecimal digits, at least one platform is listed, and the embedded manifest is
  passed on otherwise. It starts with nothing configured, which is where the reachable states begin.
\<close>

theorem started_manifest:
  assumes "main_start env = Inr (m, c, pl :: 'j plugin)" and "\<forall>b. length (sx_sha256 env b) = 32"
  shows "length (mf_Checksum (GetManifest m)) = 64 \<and> mf_SupportedPlatforms m \<noteq> [] \<and>
    (\<exists>m0 path bin. sx_Load env = Some m0 \<and> sx_Executable env = Some path \<and> sx_ReadFile env path = Some bin \<and>
      mf_Checksum m = hex_EncodeToString (sx_sha256 env bin) \<and> mf_rest m = mf_rest m0 \<and>
      (mf_SupportedPlatforms m0 \<noteq> [] \<longrightarrow> mf_SupportedPlatforms m = mf_SupportedPlatforms m0)) \<and>
    plugin_inv menv c pl \<and> on_signal pl = None"
  using assms unconfigured_inv [of menv]
  by (auto simp: main_start_def hydrateRuntimeManifest_def GetManifest_def on_signal_def unconfigured_def hex_length Let_def
      split: option.splits sum.splits if_splits)


section \<open>Requests as bytes\<close>

lemma router_handles:
  assumes "router env dp q s = (resp, s')"
  shows "s' = s \<or> (\<exists>rq rt r. Handler (ae_http env) dp rq rt s = (r, s'))"
proof -
  have "\<exists>r. Handler (ae_http env) dp rq rt s = (r, s')"
    if "map_prod (write_response env q) id (Handler (ae_http env) dp rq rt s) = (resp, s')" for rq rt
    using that by (cases "Handler (ae_http env) dp rq rt s") simp
  with assms show ?thesis by (simp add: router_def Let_def split: chi_match.splits) blast+
qed


definition forwarded_stream :: handle_request where
  "forwarded_stream = \<lparr>gr_Method = [], gr_Path = ''/api/v1/stream/a1/0'', gr_Query = None, gr_Headers = [], gr_Body = []\<rparr>"


end
